(* ===== verification/Prelude.thy ===== *)
theory Prelude
  imports Main "HOL-Library.Word" "HOL-Library.Monad_Syntax"
begin

text \<open>
  Shared vocabulary of the development: the machine-integer types of the Rust source, its shift
  operators, little-endian byte strings (\<open>to_le_bytes\<close>, \<open>from_le_bytes\<close>), slices of a byte
  vector, and the lemma collections the component theories use.

  Conventions.  A Rust value \<open>Result<T, E>\<close> is \<open>E + T\<close> (\<open>Inl\<close> the error).  A Rust panic (an
  assertion, \<open>unreachable!\<close>, a slice out of bounds) and a loop that never ends are \<open>None\<close> of an
  outer \<open>option\<close>, and \<open>do\<close> blocks are the option monad.  Arithmetic that the source does not
  write with \<open>checked_\<close> wraps, as in the release profile the README builds with; every \<open>u64\<close> is
  a \<open>64 word\<close>, an \<open>i64\<close> is the same word read with \<open>sint\<close> and compared with \<open><s\<close>.
\<close>

unbundle bit_operations_syntax

type_synonym u8 = "8 word"
type_synonym u16 = "16 word"
type_synonym u32 = "32 word"
type_synonym u64 = "64 word"
type_synonym i64 = "64 word"

abbreviation shl :: "'a::len word \<Rightarrow> nat \<Rightarrow> 'a word" where
  "shl w n \<equiv> push_bit n w"

abbreviation shr :: "'a::len word \<Rightarrow> nat \<Rightarrow> 'a word" where
  "shr w n \<equiv> drop_bit n w"

abbreviation sar :: "'a::len word \<Rightarrow> nat \<Rightarrow> 'a word" where
  "sar w n \<equiv> signed_drop_bit n w"

text \<open>\<open>u64::MAX\<close> and the conversion of a \<open>bool\<close> by \<open>as u64\<close>.\<close>

abbreviation u64_MAX :: u64 where
  "u64_MAX \<equiv> 0xFFFFFFFFFFFFFFFF"

abbreviation bool_u64 :: "bool \<Rightarrow> u64" where
  "bool_u64 b \<equiv> of_bool b"

text \<open>Returning \<open>Ok(x)\<close> and \<open>Err(e)\<close> from code that can also panic.\<close>

abbreviation Ok :: "'a \<Rightarrow> ('e + 'a) option" where
  "Ok x \<equiv> Some (Inr x)"

abbreviation Err :: "'e \<Rightarrow> ('e + 'a) option" where
  "Err e \<equiv> Some (Inl e)"

named_theorems cpu_frame \<open>fields an operation leaves alone\<close>
named_theorems wf_intros \<open>well-formedness preserved by the operations\<close>

text \<open>
  Evaluating a \<open>do\<close> block from left to right: as a congruence, this keeps the simplifier out of the
  continuation until the value it gets is known.
\<close>

lemma bind_eval: "x = y \<Longrightarrow> Option.bind x f = Option.bind y f"
  by simp

section \<open>Bits of words\<close>

lemma bit_test_iff: "(shr w n AND 1 = (1::'a::len word)) = bit w n"
  by (simp add: bit_iff_and_drop_bit_eq_1 and.commute)

lemma bit_test_zero_iff: "(shr w n AND 1 = (0::'a::len word)) = (\<not> bit w n)"
  by (metis and_one_eq bit_test_iff mod2_eq_if bit_iff_odd_drop_bit even_iff_mod_2_eq_zero zero_neq_one)

lemma bit_test_neq_zero_iff: "(shr w n AND 1 \<noteq> (0::'a::len word)) = bit w n"
  by (simp add: bit_test_zero_iff)

lemmas bit_tests = bit_test_iff bit_test_zero_iff bit_test_neq_zero_iff

lemma shr_and_1: "shr w n AND 1 = (of_bool (bit w n) :: 'a::len word)"
  by (cases "bit w n") (simp_all add: bit_test_iff bit_test_zero_iff)

lemma and_mask_neq_zero: "(w AND shl 1 n \<noteq> (0::'a::len word)) = (n < LENGTH('a) \<and> bit w n)"
proof -
  have "w AND shl 1 n = (if bit w n then shl 1 n else 0)"
    by (rule bit_word_eqI) (auto simp: bit_simps)
  moreover have "bit w n \<Longrightarrow> n < LENGTH('a)"
    by (rule bit_imp_le_length)
  ultimately show ?thesis
    by (auto simp: push_bit_eq_mult)
qed

text \<open>
  Equations between words built with constant masks: look at every bit position.  The positions
  are enumerated, so that the bits of the constants evaluate.
\<close>

lemma upt_64: "[0..<64] = [0, 1, 2, 3, 4, 5, 6, 7, 8, 9, 10, 11, 12, 13, 14, 15, 16, 17, 18, 19,
    20, 21, 22, 23, 24, 25, 26, 27, 28, 29, 30, 31, 32, 33, 34, 35, 36, 37, 38, 39, 40, 41, 42,
    43, 44, 45, 46, 47, 48, 49, 50, 51, 52, 53, 54, 55, 56, 57, 58, 59, 60, 61, 62, 63::nat]"
  by (simp add: upt_rec)

lemma all_less_64: "(\<forall>n<64. P n) = list_all P [0..<64]" for P :: "nat \<Rightarrow> bool"
  by (auto simp: list_all_iff)

lemma word64_eqI:
  assumes "list_all (\<lambda>n. bit a n = bit b n) [0..<64]"
  shows "a = (b :: u64)"
  using assms by (intro bit_word_eqI) (auto simp: list_all_iff)

lemma upt_32: "[0..<32] = [0, 1, 2, 3, 4, 5, 6, 7, 8, 9, 10, 11, 12, 13, 14, 15, 16, 17, 18, 19,
    20, 21, 22, 23, 24, 25, 26, 27, 28, 29, 30, 31::nat]"
  by (simp add: upt_rec)

lemma word32_eqI:
  assumes "list_all (\<lambda>n. bit a n = bit b n) [0..<32]"
  shows "a = (b :: u32)"
  using assms by (intro bit_word_eqI) (auto simp: list_all_iff)

text \<open>The simplifier writes \<open>push_bit 1 w\<close> as \<open>w * 2\<close>.\<close>

lemma bit_times_2: "bit (w * 2) n \<longleftrightarrow> 0 < n \<and> n < LENGTH('a) \<and> bit w (n - 1)" for w :: "'a::len word"
  by (auto simp: bit_double_iff mult.commute [of w])

lemmas enum_bits = upt_64 upt_32 bit_simps bit_times_2

lemma word_interval_cases:
  "lo \<le> a \<Longrightarrow> a \<le> hi \<Longrightarrow> a \<in> set (map of_nat [unat lo..<Suc (unat hi)])" for a :: "'a::len word"
  by (auto simp: word_le_nat_alt image_iff less_Suc_eq_le simp del: upt_Suc intro!: bexI [of _ "unat a"])

section \<open>Conversions\<close>

lemma unat_of_nat_u64: "n < 2 ^ 64 \<Longrightarrow> unat (of_nat n :: u64) = n"
  unfolding unat_of_nat by (rule mod_less) simp

lemma unat_ucast_up:
  "LENGTH('a) \<le> LENGTH('b) \<Longrightarrow> unat (ucast (w :: 'a::len word) :: 'b::len word) = unat w"
  unfolding unat_eq_nat_uint by (subst uint_up_ucast) (simp_all add: is_up)

section \<open>Little-endian bytes\<close>

text \<open>\<open>v.to_le_bytes()\<close> of a value of \<open>n\<close> bytes, and \<open>from_le_bytes\<close>, zero-extended to \<open>u64\<close>.\<close>

fun to_le_bytes :: "nat \<Rightarrow> u64 \<Rightarrow> u8 list" where
  "to_le_bytes 0 v = []"
| "to_le_bytes (Suc n) v = ucast v # to_le_bytes n (shr v 8)"

lemmas to_le_bytes_numeral =
  to_le_bytes.simps(2) [where n = "pred_numeral k" for k, folded numeral_eq_Suc]

fun from_le_bytes :: "u8 list \<Rightarrow> u64" where
  "from_le_bytes [] = 0"
| "from_le_bytes (b # bs) = ucast b OR shl (from_le_bytes bs) 8"

lemma length_to_le_bytes [simp]: "length (to_le_bytes n v) = n"
  by (induction n arbitrary: v) auto

lemma from_le_to_le: "from_le_bytes (to_le_bytes n v) = take_bit (8 * n) v"
proof (induction n arbitrary: v)
  case 0
  then show ?case by simp
next
  case (Suc n)
  show ?case
    by (simp add: Suc, rule bit_word_eqI) (auto simp: bit_simps)
qed

lemma to_le_bytes_map: "to_le_bytes n v = map (\<lambda>i. ucast (shr v (8 * i))) [0..<n]"
proof (induction n arbitrary: v)
  case (Suc n)
  then show ?case
    by (subst upt_rec) (simp add: map_Suc_upt [symmetric] add.commute del: upt_Suc)
qed simp

lemma to_le_from_le: "length bs \<le> 8 \<Longrightarrow> to_le_bytes (length bs) (from_le_bytes bs) = bs"
proof (induction bs)
  case Nil
  then show ?case by simp
next
  case (Cons b bs)
  have bound: "n < 8 * length xs" if "bit (from_le_bytes xs) n" for n and xs :: "u8 list"
    using that by (induction xs arbitrary: n) (force simp: bit_simps dest: bit_imp_le_length)+
  have lo: "ucast (ucast b OR shl (from_le_bytes bs) 8 :: u64) = b"
    by (rule bit_word_eqI) (auto simp: bit_simps)
  have hi: "shr (ucast b OR shl (from_le_bytes bs) 8 :: u64) 8 = from_le_bytes bs"
    using Cons.prems
    by (intro bit_word_eqI) (auto simp: bit_simps dest: bound bit_imp_le_length)
  show ?case
    using Cons by (simp add: lo hi del: drop_bit_or push_bit_or)
qed

lemma to_le_bytes_take_bit: "8 * n \<le> k \<Longrightarrow> to_le_bytes n (take_bit k v) = to_le_bytes n v"
proof (induction n arbitrary: v k)
  case (Suc n)
  have "ucast (take_bit k v) = (ucast v :: u8)"
    using Suc.prems by (intro bit_word_eqI) (auto simp: bit_simps)
  moreover have "shr (take_bit k v) 8 = take_bit (k - 8) (shr v 8)"
    by (simp add: drop_bit_take_bit)
  ultimately show ?case
    using Suc by simp
qed simp

section \<open>Slices\<close>

text \<open>\<open>xs[off..off+n]\<close> and \<open>xs[off..off+ys.len()].copy_from_slice(ys)\<close>, with the bound checked.\<close>

definition slice :: "'a list \<Rightarrow> nat \<Rightarrow> nat \<Rightarrow> 'a list option" where
  "slice xs off n = (if off + n \<le> length xs then Some (take n (drop off xs)) else None)"

definition copy_into :: "'a list \<Rightarrow> nat \<Rightarrow> 'a list \<Rightarrow> 'a list option" where
  "copy_into xs off ys =
     (if off + length ys \<le> length xs
      then Some (take off xs @ ys @ drop (off + length ys) xs) else None)"

lemma copy_into_fits:
  "p + length ys \<le> length xs \<Longrightarrow> copy_into xs p ys = Some (take p xs @ ys @ drop (p + length ys) xs)"
  by (simp add: copy_into_def)

lemma slice_fits: "p + n \<le> length xs \<Longrightarrow> slice xs p n = Some (take n (drop p xs))"
  by (simp add: slice_def)

lemma length_take_drop: "p + n \<le> length xs \<Longrightarrow> length (take n (drop p xs)) = n"
  by simp

lemma copy_into_length: "copy_into xs off ys = Some zs \<Longrightarrow> length zs = length xs"
  by (auto simp: copy_into_def split: if_splits)

lemma slice_copy_into_same: "copy_into xs off ys = Some zs \<Longrightarrow> slice zs off (length ys) = Some ys"
  by (auto simp: copy_into_def slice_def split: if_splits)

lemma nth_copy_into:
  "copy_into xs off ys = Some zs \<Longrightarrow> i < length xs \<Longrightarrow>
    zs ! i = (if off \<le> i \<and> i < off + length ys then ys ! (i - off) else xs ! i)"
  by (auto simp: copy_into_def nth_append split: if_splits)

lemma slice_copy_into_disjoint:
  assumes "copy_into xs off ys = Some zs" and "o2 + n \<le> off \<or> off + length ys \<le> o2"
  shows "slice zs o2 n = slice xs o2 n"
proof -
  have len: "length zs = length xs"
    using assms(1) by (rule copy_into_length)
  have "take n (drop o2 zs) = take n (drop o2 xs)" if "o2 + n \<le> length xs"
    using that assms len
    by (intro nth_equalityI) (auto simp: nth_copy_into)
  then show ?thesis
    by (simp add: slice_def len)
qed

section \<open>RAM as a byte memory\<close>

text \<open>
  What the rest of the machine relies on when it reads and writes RAM in pieces of 1, 2, 4 or 8
  bytes: a read is the little-endian value of the bytes there, a write puts the value's bytes there
  and touches no other byte.
\<close>

locale byte_memory =
  fixes peek :: "'m \<Rightarrow> u64 \<Rightarrow> u8" and rd :: "'m \<Rightarrow> u64 \<Rightarrow> nat \<Rightarrow> u64"
    and wr :: "'m \<Rightarrow> u64 \<Rightarrow> nat \<Rightarrow> u64 \<Rightarrow> 'm" and mapped :: "'m \<Rightarrow> u64 \<Rightarrow> nat \<Rightarrow> bool"
  assumes mapped_part: "mapped m a n \<Longrightarrow> i + k \<le> n \<Longrightarrow> n \<le> 8 \<Longrightarrow> mapped m (a + of_nat i) k"
    and mapped_wr: "mapped m a n \<Longrightarrow> n \<in> {1, 2, 4, 8} \<Longrightarrow> mapped (wr m a n v) b k = mapped m b k"
    and rd_bytes: "mapped m a n \<Longrightarrow> n \<in> {1, 2, 4, 8} \<Longrightarrow>
      rd m a n = from_le_bytes (map (\<lambda>i. peek m (a + of_nat i)) [0..<n])"
    and peek_wr: "mapped m a n \<Longrightarrow> n \<in> {1, 2, 4, 8} \<Longrightarrow> mapped m b 1 \<Longrightarrow>
      peek (wr m a n v) b =
        (if unat (b - a) < n then ucast (shr v (8 * unat (b - a))) else peek m b)"
begin

lemma width_le: "n \<in> {1, 2, 4, 8} \<Longrightarrow> n \<le> (8::nat)"
  by auto

lemma byte_mapped: "mapped m a n \<Longrightarrow> n \<le> 8 \<Longrightarrow> i < n \<Longrightarrow> mapped m (a + of_nat i) 1"
  by (rule mapped_part) auto

text \<open>A part of a written value reads back as that part.\<close>

lemma rd_part_of_wr:
  assumes m: "mapped m a n" and n: "n \<in> {1, 2, 4, 8}" and k: "k \<in> {1, 2, 4, 8}" "i + k \<le> n"
  shows "rd (wr m a n v) (a + of_nat i) k = take_bit (8 * k) (shr v (8 * i))"
proof -
  have "peek (wr m a n v) (a + of_nat i + of_nat j) = ucast (shr (shr v (8 * i)) (8 * j))"
    if "j < k" for j
  proof -
    have "unat (of_nat (i + j) :: u64) = i + j"
      using that k(2) width_le [OF n] by (intro unat_of_nat_u64) simp
    moreover have "mapped m (a + of_nat (i + j)) 1"
      using that k(2) by (intro byte_mapped [OF m width_le [OF n]]) simp
    ultimately show ?thesis
      using that k(2) peek_wr [OF m n, of "a + of_nat (i + j)" v] by (simp add: algebra_simps)
  qed
  then have "map (\<lambda>j. peek (wr m a n v) (a + of_nat i + of_nat j)) [0..<k] =
      to_le_bytes k (shr v (8 * i))"
    unfolding to_le_bytes_map by (intro map_cong) simp_all
  moreover have "mapped (wr m a n v) (a + of_nat i) k"
    using mapped_part [OF m k(2) width_le [OF n]] by (simp only: mapped_wr [OF m n])
  ultimately show ?thesis
    using k(1) by (simp only: rd_bytes from_le_to_le)
qed

lemma rd_wr_same:
  "mapped m a n \<Longrightarrow> n \<in> {1, 2, 4, 8} \<Longrightarrow> rd (wr m a n v) a n = take_bit (8 * n) v"
  using rd_part_of_wr [of m a n n 0 v] by simp

lemma rd_wr_disjoint:
  assumes m: "mapped m a n" "n \<in> {1, 2, 4, 8}" and k: "mapped m b k" "k \<in> {1, 2, 4, 8}"
    and off: "\<And>i. i < k \<Longrightarrow> n \<le> unat (b + of_nat i - a)"
  shows "rd (wr m a n v) b k = rd m b k"
proof -
  have "peek (wr m a n v) (b + of_nat i) = peek m (b + of_nat i)" if "i < k" for i
    using off [OF that] peek_wr [OF m byte_mapped [OF k(1) width_le [OF k(2)] that], of v] by simp
  then have "map (\<lambda>i. peek (wr m a n v) (b + of_nat i)) [0..<k] = map (\<lambda>i. peek m (b + of_nat i)) [0..<k]"
    by (intro map_cong) simp_all
  moreover have "mapped (wr m a n v) b k"
    using k(1) by (simp only: mapped_wr [OF m])
  ultimately show ?thesis
    using k by (simp only: rd_bytes)
qed

text \<open>A narrower read sees the low part, and a wide value is its two halves.\<close>

lemma rd_halves:
  assumes "mapped m a (2 * n)" "n \<in> {1, 2, 4}"
  shows "rd m a (2 * n) = rd m a n OR shl (rd m (a + of_nat n) n) (8 * n)"
proof -
  have part: "mapped m a n" "mapped m (a + of_nat n) n"
    using mapped_part [OF assms(1), of 0 n] mapped_part [OF assms(1), of n n] assms(2) by auto
  have "from_le_bytes (xs @ ys) = from_le_bytes xs OR shl (from_le_bytes ys) (8 * length xs)" for xs ys
    by (induction xs) (auto simp: push_bit_or ac_simps)
  moreover have "[0..<2 * n] = [0..<n] @ map (\<lambda>i. n + i) [0..<n]"
    using upt_add_eq_append [of 0 n n] by (simp add: map_add_upt mult_2 add.commute)
  ultimately show ?thesis
    using assms part by (auto simp: rd_bytes o_def add.assoc simp del: upt_Suc)
qed

end

end
