(* ===== verification/Csr.thy ===== *)
theory Csr
  imports Prelude
begin

text \<open>
  The control and status registers: \<open>src/cpu/csr.rs\<close>.  The record \<open>csr\<close> has the struct's fields
  (\<open>pmpaddr\<close>, an array of 16, is a list of that length); \<open>Csr_read\<close> and \<open>Csr_write\<close> are the two
  \<open>match addr\<close> tables, one branch per arm in the arms' order, and the four \<open>mstatus\<close> updates are
  the helpers called on trap entry and return.
\<close>

record csr =
  mstatus :: u64
  misa :: u64
  mie :: u64
  mtvec :: u64
  mscratch :: u64
  mepc :: u64
  mcause :: u64
  mtval :: u64
  mip :: u64
  medeleg :: u64
  mideleg :: u64
  stvec :: u64
  sscratch :: u64
  sepc :: u64
  scause :: u64
  stval :: u64
  satp :: u64
  pmpcfg0 :: u64
  pmpcfg2 :: u64
  pmpaddr :: "u64 list"
  stimecmp :: u64

definition Csr_new :: csr where
  "Csr_new = \<lparr> mstatus = 0, misa = 0x8000000000041101, mie = 0, mtvec = 0, mscratch = 0,
     mepc = 0, mcause = 0, mtval = 0, mip = 0, medeleg = 0, mideleg = 0, stvec = 0,
     sscratch = 0, sepc = 0, scause = 0, stval = 0, satp = 0, pmpcfg0 = 0, pmpcfg2 = 0,
     pmpaddr = replicate 16 0, stimecmp = u64_MAX \<rparr>"

definition Csr_read :: "csr \<Rightarrow> u16 \<Rightarrow> u64" where
  "Csr_read s addr =
    (if addr = 0x300 then mstatus s OR 0x0000000A00000000
     else if addr = 0x301 then misa s
     else if addr = 0x304 then mie s
     else if addr = 0x305 then mtvec s
     else if addr = 0x340 then mscratch s
     else if addr = 0x341 then mepc s
     else if addr = 0x342 then mcause s
     else if addr = 0x343 then mtval s
     else if addr = 0x344 then mip s
     else if addr = 0x105 then stvec s
     else if addr = 0x140 then sscratch s
     else if addr = 0x141 then sepc s
     else if addr = 0x142 then scause s
     else if addr = 0x143 then stval s
     else if addr = 0x180 then satp s
     else if addr = 0x3A0 then pmpcfg0 s
     else if addr = 0x3A2 then pmpcfg2 s
     else if 0x3B0 \<le> addr \<and> addr \<le> 0x3BF then pmpaddr s ! unat (addr - 0x3B0)
     else if addr = 0xF11 then 0
     else if addr = 0xF12 then 0
     else if addr = 0xF13 then 0
     else if addr = 0xF14 then 0
     else if addr = 0x100 then (mstatus s OR 0x0000000200000000) AND 0x80000003000DE162
     else if addr = 0x104 then mie s AND 0x222
     else if addr = 0x106 then 0
     else if addr = 0x144 then mip s AND 0x222
     else if addr = 0x302 then medeleg s
     else if addr = 0x303 then mideleg s
     else if addr = 0x14D then stimecmp s
     else 0)"

definition Csr_mie_bit :: "csr \<Rightarrow> u64" where
  "Csr_mie_bit s = shr (mstatus s) 3 AND 1"

definition Csr_trap_entry :: "csr \<Rightarrow> u64 \<Rightarrow> csr" where
  "Csr_trap_entry s prev_mode =
    (let mie = Csr_mie_bit s
     in s\<lparr>mstatus := (mstatus s AND NOT 0x1888) OR shl mie 7 OR shl prev_mode 11\<rparr>)"

definition Csr_mret :: "csr \<Rightarrow> csr" where
  "Csr_mret s =
    (let mpie = shr (mstatus s) 7 AND 1;
         mpp = shr (mstatus s) 11 AND 3;
         clear_mask = (if mpp \<noteq> 3 then 0x00021888 else 0x1888)
     in s\<lparr>mstatus := (mstatus s AND NOT clear_mask) OR shl mpie 3 OR shl 1 7\<rparr>)"

definition Csr_s_trap_entry :: "csr \<Rightarrow> bool \<Rightarrow> csr" where
  "Csr_s_trap_entry s from_smode =
    (let sie = shr (mstatus s) 1 AND 1
     in s\<lparr>mstatus := (mstatus s AND NOT 0x122) OR shl sie 5 OR shl (bool_u64 from_smode) 8\<rparr>)"

definition Csr_s_ret :: "csr \<Rightarrow> csr" where
  "Csr_s_ret s =
    (let spie = shr (mstatus s) 5 AND 1
     in s\<lparr>mstatus := (mstatus s AND NOT 0x122) OR shl spie 1 OR shl 1 5\<rparr>)"

definition Csr_write :: "csr \<Rightarrow> u16 \<Rightarrow> u64 \<Rightarrow> csr" where
  "Csr_write s addr val =
    (if addr = 0x300 then s\<lparr>mstatus := val AND NOT 0x0000000F00000000\<rparr>
     else if addr = 0x301 then s
     else if addr = 0x304 then s\<lparr>mie := val\<rparr>
     else if addr = 0x305 then s\<lparr>mtvec := val\<rparr>
     else if addr = 0x340 then s\<lparr>mscratch := val\<rparr>
     else if addr = 0x341 then s\<lparr>mepc := val AND NOT 0x1\<rparr>
     else if addr = 0x342 then s\<lparr>mcause := val\<rparr>
     else if addr = 0x343 then s\<lparr>mtval := val\<rparr>
     else if addr = 0x344 then s\<lparr>mip := val\<rparr>
     else if addr = 0x105 then s\<lparr>stvec := val\<rparr>
     else if addr = 0x140 then s\<lparr>sscratch := val\<rparr>
     else if addr = 0x141 then s\<lparr>sepc := val AND NOT 0x1\<rparr>
     else if addr = 0x142 then s\<lparr>scause := val\<rparr>
     else if addr = 0x143 then s\<lparr>stval := val\<rparr>
     else if addr = 0x180 then
       (let mode = shr val 60
        in if mode = 0 \<or> mode = 8 then s\<lparr>satp := val\<rparr> else s)
     else if addr = 0x3A0 then s\<lparr>pmpcfg0 := val\<rparr>
     else if addr = 0x3A2 then s\<lparr>pmpcfg2 := val\<rparr>
     else if 0x3B0 \<le> addr \<and> addr \<le> 0x3BF
       then s\<lparr>pmpaddr := (pmpaddr s)[unat (addr - 0x3B0) := val]\<rparr>
     else if 0xF11 \<le> addr \<and> addr \<le> 0xF14 then s
     else if addr = 0x100 then
       s\<lparr>mstatus := (mstatus s AND NOT 0x00000000000DE162) OR (val AND 0x00000000000DE162)\<rparr>
     else if addr = 0x104 then s\<lparr>mie := (mie s AND NOT 0x222) OR (val AND 0x222)\<rparr>
     else if addr = 0x106 then s
     else if addr = 0x144 then s\<lparr>mip := (mip s AND NOT 0x002) OR (val AND 0x002)\<rparr>
     else if addr = 0x302 then s\<lparr>medeleg := val\<rparr>
     else if addr = 0x303 then s\<lparr>mideleg := val\<rparr>
     else if addr = 0x14D then s\<lparr>stimecmp := val\<rparr>
     else s)"

section \<open>What the register file keeps true\<close>

text \<open>
  The legal register files: \<open>mstatus\<close> stores nothing in the read-only \<open>UXL\<close>/\<open>SXL\<close> fields, the two
  exception program counters are even (\<open>IALIGN = 16\<close>), \<open>satp\<close> holds one of the two supported modes
  and the array has its 16 entries.
\<close>

definition csr_wf :: "csr \<Rightarrow> bool" where
  "csr_wf s \<longleftrightarrow> mstatus s AND 0x0000000F00000000 = 0 \<and> \<not> bit (mepc s) 0 \<and> \<not> bit (sepc s) 0 \<and>
     (shr (satp s) 60 = 0 \<or> shr (satp s) 60 = 8) \<and> length (pmpaddr s) = 16"

text \<open>What reading \<open>addr\<close> gives after \<open>val\<close> was written to it: the write-any-read-legal rule.\<close>

definition csr_legal :: "csr \<Rightarrow> u16 \<Rightarrow> u64 \<Rightarrow> u64" where
  "csr_legal s addr val =
    (if addr = 0x300 then (val AND NOT 0x0000000F00000000) OR 0x0000000A00000000
     else if addr = 0x100 then
       (Csr_read s 0x100 AND NOT 0x00000000000DE162) OR (val AND 0x00000000000DE162)
     else if addr = 0x104 then val AND 0x222
     else if addr = 0x144 then (Csr_read s 0x144 AND NOT 0x002) OR (val AND 0x002)
     else if addr = 0x341 \<or> addr = 0x141 then val AND NOT 1
     else if addr = 0x180 \<and> shr val 60 \<notin> {0, 8} then satp s
     else if addr \<in> {0x304, 0x305, 0x340, 0x342, 0x343, 0x344, 0x105, 0x140, 0x142, 0x143,
       0x180, 0x3A0, 0x3A2, 0x302, 0x303, 0x14D} \<or> (0x3B0 \<le> addr \<and> addr \<le> 0x3BF) then val
     else Csr_read s addr)"

text \<open>The pairs of addresses that name views of one register.\<close>

definition csr_alias :: "u16 \<Rightarrow> u16 \<Rightarrow> bool" where
  "csr_alias a b \<longleftrightarrow> a = b \<or> (a, b) \<in> {(0x300, 0x100), (0x100, 0x300), (0x304, 0x104), (0x104, 0x304),
     (0x344, 0x144), (0x144, 0x344)}"

text \<open>
  Every address the two tables know.  A fact about all addresses is proved address by address over
  this list, where the branches evaluate, and for the rest with \<open>csr_unknown\<close>.
\<close>

definition csr_addrs :: "u16 list" where
  "csr_addrs = [0x300, 0x301, 0x304, 0x305, 0x340, 0x341, 0x342, 0x343, 0x344, 0x105, 0x140,
     0x141, 0x142, 0x143, 0x180, 0x3A0, 0x3A2, 0xF11, 0xF12, 0xF13, 0xF14, 0x100, 0x104, 0x106,
     0x144, 0x302, 0x303, 0x14D, 0x3B0, 0x3B1, 0x3B2, 0x3B3, 0x3B4, 0x3B5, 0x3B6, 0x3B7, 0x3B8,
     0x3B9, 0x3BA, 0x3BB, 0x3BC, 0x3BD, 0x3BE, 0x3BF]"

lemma pmp_known: "0x3B0 \<le> a \<Longrightarrow> a \<le> 0x3BF \<Longrightarrow> a \<in> set csr_addrs"
  by (drule (1) word_interval_cases) (simp add: csr_addrs_def upt_rec)

lemma csr_unknown:
  assumes "a \<notin> set csr_addrs"
  shows "Csr_read s a = 0" "Csr_write s a v = s" "csr_legal s a v = 0"
proof -
  have r: "\<not> (0x3B0 \<le> a \<and> a \<le> 0x3BF)"
    using assms pmp_known by blast
  have r': "\<not> (0xF11 \<le> a \<and> a \<le> 0xF14)"
    using assms word_interval_cases [of "0xF11" a "0xF14"] by (auto simp: csr_addrs_def upt_rec)
  show *: "Csr_read s a = 0" "Csr_write s a v = s" 
    using assms r r' by (auto simp: Csr_read_def Csr_write_def csr_addrs_def)
  show "csr_legal s a v = 0"
    using assms r by (auto simp: csr_legal_def csr_addrs_def *)
qed



lemma known_addrD: "a \<in> set csr_addrs \<Longrightarrow> list_all P csr_addrs \<Longrightarrow> P a"
  by (auto simp: list_all_iff)

lemmas csr_table = Csr_read_def Csr_write_def csr_legal_def Let_def list.pred_inject

lemma csr_read_write:
  assumes "csr_wf s"
  shows "Csr_read (Csr_write s a v) a = csr_legal s a v"
proof (cases "a \<in> set csr_addrs")
  case True
  have "list_all (\<lambda>a. Csr_read (Csr_write s a v) a = csr_legal s a v) csr_addrs"
    unfolding csr_addrs_def list.pred_inject
    using assms
    apply (intro conjI)
    apply (simp_all add: csr_table csr_wf_def)
    apply (rule word64_eqI, simp add: enum_bits)+
    done
  with True show ?thesis by (rule known_addrD)
qed (simp add: csr_unknown)

lemma csr_write_wf:
  assumes "csr_wf s"
  shows "csr_wf (Csr_write s a v)"
proof (cases "a \<in> set csr_addrs")
  case True
  have m: "(v AND NOT 0xF00000000) AND 0xF00000000 = 0"
    "((mstatus s AND NOT 0xDE162) OR (v AND 0xDE162)) AND 0xF00000000 = mstatus s AND 0xF00000000"
    by (rule word64_eqI, simp add: enum_bits)+
  have "list_all (\<lambda>a. csr_wf (Csr_write s a v)) csr_addrs"
    unfolding csr_addrs_def list.pred_inject
    using assms
    apply (intro conjI)
    apply (simp_all add: csr_table csr_wf_def bit_simps m [simplified])
    done
  with True show ?thesis by (rule known_addrD)
qed (simp add: csr_unknown assms)


definition csr_dump :: "csr \<Rightarrow> u64 list" where
  "csr_dump s = map (Csr_read s) csr_addrs"

lemma csr_dump_eq: "csr_dump s =
  [mstatus s OR 0x0000000A00000000, misa s, mie s, mtvec s, mscratch s, mepc s, mcause s, mtval s,
   mip s, stvec s, sscratch s, sepc s, scause s, stval s, satp s, pmpcfg0 s, pmpcfg2 s, 0, 0, 0, 0,
   (mstatus s OR 0x0000000200000000) AND 0x80000003000DE162, mie s AND 0x222, 0, mip s AND 0x222,
   medeleg s, mideleg s, stimecmp s, pmpaddr s ! 0, pmpaddr s ! 1, pmpaddr s ! 2, pmpaddr s ! 3,
   pmpaddr s ! 4, pmpaddr s ! 5, pmpaddr s ! 6, pmpaddr s ! 7, pmpaddr s ! 8, pmpaddr s ! 9,
   pmpaddr s ! 10, pmpaddr s ! 11, pmpaddr s ! 12, pmpaddr s ! 13, pmpaddr s ! 14, pmpaddr s ! 15]"
  by (simp add: csr_dump_def csr_addrs_def Csr_read_def)


text \<open>Two register files that read alike at every address \<open>P\<close> does not hold of.\<close>

definition csr_agree_off :: "(u16 \<Rightarrow> bool) \<Rightarrow> csr \<Rightarrow> csr \<Rightarrow> bool" where
  "csr_agree_off P s t \<longleftrightarrow>
     list_all (\<lambda>(b, x, y). if x = y then True else P b) (zip csr_addrs (zip (csr_dump s) (csr_dump t)))"

lemma csr_agree_offD:
  assumes "csr_agree_off P s t" and "\<not> P b"
  shows "Csr_read s b = Csr_read t b"
proof (cases "b \<in> set csr_addrs")
  case True
  then show ?thesis using assms
    by (force simp: csr_agree_off_def csr_dump_def zip_map1 zip_map2 zip_same_conv_map list_all_iff
        split: if_splits)
qed (simp add: csr_unknown)

lemma csr_write_frame:
  assumes "\<not> csr_alias a b"
  shows "Csr_read (Csr_write s a v) b = Csr_read s b"
proof (cases "a \<in> set csr_addrs")
  case True
  have "list_all (\<lambda>a. csr_agree_off (csr_alias a) (Csr_write s a v) s) csr_addrs"
    unfolding csr_addrs_def list.pred_inject
    apply (intro conjI)
    apply (simp_all add: Csr_write_def Let_def)
    apply (simp_all add: csr_agree_off_def csr_dump_eq csr_addrs_def csr_alias_def)
    done
  with True have "csr_agree_off (csr_alias a) (Csr_write s a v) s"
    by (rule known_addrD)
  then show ?thesis using assms by (rule csr_agree_offD)
qed (simp add: csr_unknown)


section \<open>Trap entry and return\<close>

lemma bit_Csr_trap_entry:
  assumes "p \<in> {0, 1, 2, 3}"
  shows "bit (mstatus (Csr_trap_entry s p)) n =
    (if n = 3 then False else if n = 7 then bit (mstatus s) 3
     else if n = 11 \<or> n = 12 then bit p (n - 11) else bit (mstatus s) n)"
proof (cases "n < 64")
  case True
  have "list_all (\<lambda>n. bit (mstatus (Csr_trap_entry s p)) n =
    (if n = 3 then False else if n = 7 then bit (mstatus s) 3
     else if n = 11 \<or> n = 12 then bit p (n - 11) else bit (mstatus s) n)) [0..<64]"
    using assms by (auto simp: Csr_trap_entry_def Csr_mie_bit_def enum_bits)
  with True show ?thesis by (simp add: list_all_iff)
qed (auto dest: bit_imp_le_length)

lemma bit_Csr_mret:
  "bit (mstatus (Csr_mret s)) n =
    (if n = 3 then bit (mstatus s) 7 else if n = 7 then True
     else if n = 11 \<or> n = 12 then False
     else if n = 17 then bit (mstatus s) 17 \<and> bit (mstatus s) 11 \<and> bit (mstatus s) 12
     else bit (mstatus s) n)"
proof (cases "n < 64")
  case True
  have mpp: "(shr (mstatus s) 11 AND 3 = 3) = (bit (mstatus s) 11 \<and> bit (mstatus s) 12)"
    (is "?l = ?r")
  proof
    assume ?l
    then have "bit (shr (mstatus s) 11 AND 3) 0" "bit (shr (mstatus s) 11 AND 3) 1"
      by simp_all
    then show ?r by (simp add: bit_simps)
  next
    assume ?r
    then show ?l by (intro word64_eqI) (simp add: enum_bits)
  qed
  have "list_all (\<lambda>n. bit (mstatus (Csr_mret s)) n =
    (if n = 3 then bit (mstatus s) 7 else if n = 7 then True
     else if n = 11 \<or> n = 12 then False
     else if n = 17 then bit (mstatus s) 17 \<and> bit (mstatus s) 11 \<and> bit (mstatus s) 12
     else bit (mstatus s) n)) [0..<64]"
    by (auto simp: Csr_mret_def Let_def mpp enum_bits)
  with True show ?thesis by (simp add: list_all_iff)
qed (auto dest: bit_imp_le_length)

lemma bit_Csr_s_trap_entry:
  "bit (mstatus (Csr_s_trap_entry s b)) n =
    (if n = 1 then False else if n = 5 then bit (mstatus s) 1
     else if n = 8 then b else bit (mstatus s) n)"
proof (cases "n < 64")
  case True
  have "list_all (\<lambda>n. bit (mstatus (Csr_s_trap_entry s b)) n =
    (if n = 1 then False else if n = 5 then bit (mstatus s) 1
     else if n = 8 then b else bit (mstatus s) n)) [0..<64]"
    by (auto simp: Csr_s_trap_entry_def enum_bits)
  with True show ?thesis by (simp add: list_all_iff)
qed (auto dest: bit_imp_le_length)

lemma bit_Csr_s_ret:
  "bit (mstatus (Csr_s_ret s)) n =
    (if n = 1 then bit (mstatus s) 5 else if n = 5 then True
     else if n = 8 then False else bit (mstatus s) n)"
proof (cases "n < 64")
  case True
  have "list_all (\<lambda>n. bit (mstatus (Csr_s_ret s)) n =
    (if n = 1 then bit (mstatus s) 5 else if n = 5 then True
     else if n = 8 then False else bit (mstatus s) n)) [0..<64]"
    by (cases "bit (mstatus s) 5") (auto simp: Csr_s_ret_def shr_and_1 enum_bits)
  with True show ?thesis by (simp add: list_all_iff)
qed (auto dest: bit_imp_le_length)

lemmas bit_mstatus = bit_Csr_trap_entry bit_Csr_mret bit_Csr_s_trap_entry bit_Csr_s_ret

text \<open>The four updates touch \<open>mstatus\<close> only.\<close>

lemma Csr_status_frame:
  "Csr_trap_entry s p = s\<lparr>mstatus := mstatus (Csr_trap_entry s p)\<rparr>"
  "Csr_mret s = s\<lparr>mstatus := mstatus (Csr_mret s)\<rparr>"
  "Csr_s_trap_entry s b = s\<lparr>mstatus := mstatus (Csr_s_trap_entry s b)\<rparr>"
  "Csr_s_ret s = s\<lparr>mstatus := mstatus (Csr_s_ret s)\<rparr>"
  by (simp_all add: Csr_trap_entry_def Csr_mret_def Csr_s_trap_entry_def Csr_s_ret_def Let_def)

lemma mstatus_reserved_iff:
  "(m AND 0xF00000000 = 0) = (\<not> bit m 32 \<and> \<not> bit m 33 \<and> \<not> bit m 34 \<and> \<not> bit m 35)"
  (is "?l = ?r") for m :: u64
proof
  assume ?l
  then have "\<not> bit (m AND 0xF00000000) k" for k
    by simp
  from this [of 32] this [of 33] this [of 34] this [of 35] show ?r
    by (simp add: bit_simps)
next
  assume ?r
  then show ?l by (intro word64_eqI) (simp add: enum_bits)
qed

lemma csr_wf_status [wf_intros]:
  assumes "csr_wf s"
  shows "p \<in> {0, 1, 2, 3} \<Longrightarrow> csr_wf (Csr_trap_entry s p)" "csr_wf (Csr_mret s)"
    "csr_wf (Csr_s_trap_entry s b)" "csr_wf (Csr_s_ret s)"
  using assms Csr_status_frame [of s]
  by (simp_all add: csr_wf_def mstatus_reserved_iff bit_mstatus)
     (simp_all add: Csr_trap_entry_def Csr_mret_def Csr_s_trap_entry_def Csr_s_ret_def Let_def)


section \<open>The interface the instructions use\<close>

text \<open>
  What the code that reads and writes control registers relies on: a well-formed file stays
  well-formed, a read sees the last write (as far as the register keeps it), and writes to one
  register do not show through another that is not a view of it.
\<close>

locale csr_bank =
  fixes rd :: "'s \<Rightarrow> 'a \<Rightarrow> 'v" and wr :: "'s \<Rightarrow> 'a \<Rightarrow> 'v \<Rightarrow> 's"
    and wf :: "'s \<Rightarrow> bool" and legal :: "'s \<Rightarrow> 'a \<Rightarrow> 'v \<Rightarrow> 'v" and aliases :: "'a \<Rightarrow> 'a \<Rightarrow> bool"
  assumes wf_write: "wf s \<Longrightarrow> wf (wr s a v)"
    and read_write: "wf s \<Longrightarrow> rd (wr s a v) a = legal s a v"
    and read_other: "\<not> aliases a b \<Longrightarrow> rd (wr s a v) b = rd s b"
begin

abbreviation writes :: "('a \<times> 'v) list \<Rightarrow> 's \<Rightarrow> 's" where
  "writes ws s \<equiv> fold (\<lambda>(a, v) s. wr s a v) ws s"

lemma wf_writes: "wf s \<Longrightarrow> wf (writes ws s)"
  by (induction ws arbitrary: s) (auto simp: wf_write)

lemma read_writes_other:
  "list_all (\<lambda>(b, w). \<not> aliases b a) ws \<Longrightarrow> rd (writes ws s) a = rd s a"
  by (induction ws arbitrary: s) (auto simp: read_other)

lemma read_last_write:
  "wf s \<Longrightarrow> list_all (\<lambda>(b, w). \<not> aliases b a) ws \<Longrightarrow>
    rd (writes ws (wr (writes pre s) a v)) a = legal (writes pre s) a v"
  by (simp add: read_writes_other read_write wf_writes)

end

interpretation csr_file: csr_bank Csr_read Csr_write csr_wf csr_legal csr_alias
  by unfold_locales (auto simp: csr_write_wf csr_read_write csr_write_frame)

section \<open>Properties\<close>

text \<open>
  C28. A control register reads back the last value written to it, as far as the register keeps it
  (\<open>csr_legal\<close>), through any number of earlier writes to any register and of later writes to
  registers that are not views of it.
\<close>

theorem csr_reads_last_write:
  assumes "csr_wf s" and "list_all (\<lambda>(b, w). \<not> csr_alias b a) later"
  shows "Csr_read (fold (\<lambda>(b, w) t. Csr_write t b w) later
           (Csr_write (fold (\<lambda>(b, w) t. Csr_write t b w) earlier s) a v)) a =
         csr_legal (fold (\<lambda>(b, w) t. Csr_write t b w) earlier s) a v"
  using assms by (rule csr_file.read_last_write)

theorem csr_reads_last_write_witness:
  "Csr_read (fold (\<lambda>(b, w) t. Csr_write t b w) [(0x305, 7), (0x100, 2)]
     (Csr_write (fold (\<lambda>(b, w) t. Csr_write t b w) [(0x341, 1)] Csr_new) 0x341 0x80001003)) 0x341 =
   0x80001002"
proof -
  have "csr_wf Csr_new"
    by (simp add: csr_wf_def Csr_new_def)
  moreover have "list_all (\<lambda>(b, w). \<not> csr_alias b 0x341) [(0x305, 7::u64), (0x100, 2)]"
    by (simp add: csr_alias_def)
  ultimately show ?thesis
    by (subst csr_reads_last_write) (simp_all add: csr_legal_def)
qed

text \<open>
  C27. Supervisor-level registers (address bits 9:8 equal to 01) cannot reach machine-level state:
  a write to any of them leaves every machine-level register as it was, and of the registers
  shared with machine mode changes only the supervisor's bits.
\<close>

theorem supervisor_write_isolated:
  assumes "shr addr 8 AND 3 = 1"
  shows "mstatus (Csr_write s addr v) AND NOT 0xDE162 = mstatus s AND NOT 0xDE162 \<and>
    mie (Csr_write s addr v) AND NOT 0x222 = mie s AND NOT 0x222 \<and>
    mip (Csr_write s addr v) AND NOT 0x2 = mip s AND NOT 0x2 \<and>
    (misa (Csr_write s addr v), mtvec (Csr_write s addr v), mscratch (Csr_write s addr v),
     mepc (Csr_write s addr v), mcause (Csr_write s addr v), mtval (Csr_write s addr v),
     medeleg (Csr_write s addr v), mideleg (Csr_write s addr v), pmpcfg0 (Csr_write s addr v),
     pmpcfg2 (Csr_write s addr v), pmpaddr (Csr_write s addr v)) =
    (misa s, mtvec s, mscratch s, mepc s, mcause s, mtval s, medeleg s, mideleg s, pmpcfg0 s,
     pmpcfg2 s, pmpaddr s)"
proof (cases "addr \<in> set csr_addrs")
  case True
  have m: "((x AND NOT 0xDE162) OR (v AND 0xDE162)) AND NOT 0xDE162 = x AND NOT 0xDE162"
    "((x AND NOT 0x222) OR (v AND 0x222)) AND NOT 0x222 = x AND NOT 0x222"
    "((x AND NOT 0x2) OR (v AND 0x2)) AND NOT 0x2 = x AND NOT 0x2" for x
    by (rule word64_eqI, simp add: enum_bits)+
  have "addr \<in> {0x105, 0x140, 0x141, 0x142, 0x143, 0x180, 0x100, 0x104, 0x106, 0x144, 0x14D}"
    using True assms by (auto simp: csr_addrs_def)
  then show ?thesis
    by (elim insertE) (simp_all add: Csr_write_def Let_def m [simplified])
qed (simp add: csr_unknown)

theorem supervisor_write_isolated_witness:
  "mstatus (Csr_write Csr_new 0x100 u64_MAX) AND NOT 0xDE162 = 0"
  using supervisor_write_isolated [of "0x100" Csr_new u64_MAX] by (simp add: Csr_new_def)

text \<open>
  C38. \<open>MRET\<close> undoes a trap taken to machine mode from privilege \<open>p\<close>: the interrupt enable is
  back to what it was, \<open>MPIE\<close> is set, \<open>MPP\<close> is cleared to user, \<open>MPRV\<close> is cleared unless the
  trap came from machine mode, and no other bit of \<open>mstatus\<close> and no other register has changed.
\<close>

theorem mret_undoes_trap_entry:
  assumes "p \<in> {0, 1, 3}"
  shows "Csr_mret (Csr_trap_entry s p) =
    s\<lparr>mstatus := (mstatus s AND NOT (if p = 3 then 0x1880 else 0x21880)) OR 0x80\<rparr>"
proof -
  have "mstatus (Csr_mret (Csr_trap_entry s p)) =
      (mstatus s AND NOT (if p = 3 then 0x1880 else 0x21880)) OR 0x80"
    using assms by (intro word64_eqI) (auto simp: bit_mstatus enum_bits)
  then show ?thesis
    by (metis Csr_status_frame(1,2) csr.surjective csr.update_convs(1))
qed

theorem mret_undoes_trap_entry_witness:
  "mstatus (Csr_mret (Csr_trap_entry (Csr_new\<lparr>mstatus := 0x2000A\<rparr>) 1)) = 0x8A"
  using mret_undoes_trap_entry [of 1 "Csr_new\<lparr>mstatus := 0x2000A\<rparr>"] by simp

text \<open>
  \<open>SRET\<close> undoes a trap taken to supervisor mode: \<open>SIE\<close> is restored, \<open>SPIE\<close> is set, \<open>SPP\<close> is
  cleared, everything else is untouched.
\<close>

lemma sret_undoes_s_trap_entry:
  "Csr_s_ret (Csr_s_trap_entry s from_smode) = s\<lparr>mstatus := (mstatus s AND NOT 0x100) OR 0x20\<rparr>"
proof -
  have "mstatus (Csr_s_ret (Csr_s_trap_entry s from_smode)) = (mstatus s AND NOT 0x100) OR 0x20"
    by (intro word64_eqI) (simp add: bit_mstatus enum_bits)
  then show ?thesis
    by (metis Csr_status_frame(3,4) csr.surjective csr.update_convs(1))
qed

end
