(* ===== verification/Clint.thy ===== *)
theory Clint
  imports Prelude
begin

text \<open>
  The core-local interruptor: \<open>src/clint.rs\<close>.  Two 64-bit registers, a tick that advances the time
  by a fixed increment, and the MMIO window, which decodes two absolute addresses and ignores the
  access width.
\<close>

record clint =
  mtime :: u64
  mtimecmp :: u64

definition MTIME_INC :: u64 where
  "MTIME_INC = 128"

definition Clint_new :: clint where
  "Clint_new = \<lparr>mtime = 0, mtimecmp = u64_MAX\<rparr>"

definition Clint_tick :: "clint \<Rightarrow> clint \<times> bool" where
  "Clint_tick c =
    (let c = c\<lparr>mtime := mtime c + MTIME_INC\<rparr>
     in (c, mtime c \<ge> mtimecmp c))"

definition Clint_load :: "clint \<Rightarrow> u64 \<Rightarrow> nat \<Rightarrow> u64" where
  "Clint_load c addr width =
    (if addr = 0x0200BFF8 then mtime c
     else if addr = 0x02004000 then mtimecmp c
     else 0)"

definition Clint_store :: "clint \<Rightarrow> u64 \<Rightarrow> nat \<Rightarrow> u64 \<Rightarrow> clint" where
  "Clint_store c addr width val =
    (if addr = 0x02004000 then c\<lparr>mtimecmp := val\<rparr> else c)"

section \<open>Ticks\<close>

definition Clint_ticks :: "nat \<Rightarrow> clint \<Rightarrow> clint" where
  "Clint_ticks n c = ((fst \<circ> Clint_tick) ^^ n) c"

lemma Clint_ticks_eq: "Clint_ticks n c = c\<lparr>mtime := mtime c + of_nat n * MTIME_INC\<rparr>"
  by (induction n) (simp_all add: Clint_ticks_def Clint_tick_def algebra_simps)

lemma Clint_store_mtime [cpu_frame]: "mtime (Clint_store c a w v) = mtime c"
  by (simp add: Clint_store_def)

end
