(* ===== verification/Plic.thy ===== *)
theory Plic
  imports Prelude
begin

text \<open>
  The platform-level interrupt controller: \<open>src/plic.rs\<close>.  Arrays are lists of the declared
  lengths (\<open>plic_wf\<close>); an interrupt number is a \<open>nat\<close> (the source's \<open>u32\<close> stays below 64).  The
  scan of \<open>best_irq\<close> is a fold of its loop body over \<open>1..64\<close>, the two MMIO \<open>match\<close>es are
  \<open>Plic_load\<close> (which claims) and \<open>Plic_store\<close> (which completes).
\<close>

definition PLIC_BASE :: u64 where
  "PLIC_BASE = 0x0C000000"

record plic =
  priority :: "u32 list"
  enable :: "u32 list list"
  threshold :: "u32 list"
  pending :: u64

definition Plic_new :: plic where
  "Plic_new = \<lparr>priority = replicate 128 0, enable = replicate 2 (replicate 4 0),
     threshold = replicate 2 0, pending = 0\<rparr>"

definition Plic_set_pending :: "plic \<Rightarrow> nat \<Rightarrow> bool \<Rightarrow> plic" where
  "Plic_set_pending p irq active =
    (if irq < 64 then
       if active then p\<lparr>pending := pending p OR shl 1 irq\<rparr>
       else p\<lparr>pending := pending p AND NOT (shl 1 irq)\<rparr>
     else p)"

text \<open>The body of the loop \<open>for irq in 1..64\<close>, on \<open>(best_irq, best_pri)\<close>.\<close>

definition best_irq_step :: "plic \<Rightarrow> nat \<Rightarrow> nat \<times> u32 \<Rightarrow> nat \<Rightarrow> nat \<times> u32" where
  "best_irq_step p ctx best irq =
    (case best of (best_irq, best_pri) \<Rightarrow>
      if shr (pending p) irq AND 1 = 0 then (best_irq, best_pri)
      else
        let word = irq div 32; b = irq mod 32
        in if shr (enable p ! ctx ! word) b AND 1 = 0 then (best_irq, best_pri)
           else
             let pri = priority p ! irq
             in if pri > best_pri then (irq, pri) else (best_irq, best_pri))"

definition best_irq :: "plic \<Rightarrow> nat \<Rightarrow> nat" where
  "best_irq p ctx = fst (foldl (best_irq_step p ctx) (0, threshold p ! ctx) [1..<64])"

definition Plic_has_interrupt :: "plic \<Rightarrow> bool" where
  "Plic_has_interrupt p \<longleftrightarrow> best_irq p 1 \<noteq> 0"

definition Plic_load :: "plic \<Rightarrow> u64 \<Rightarrow> nat \<Rightarrow> plic \<times> u64" where
  "Plic_load p addr width =
    (let off = addr - PLIC_BASE in
     if off \<le> 0x0001FF then
       let irq = unat (off div 4)
       in (p, if irq < 128 then ucast (priority p ! irq) else 0)
     else if 0x001000 \<le> off \<and> off \<le> 0x00107F then
       let word = unat ((off - 0x001000) div 4)
       in (p, if word = 0 then ucast (ucast (pending p) :: u32)
              else if word = 1 then shr (pending p) 32 else 0)
     else if 0x002000 \<le> off \<and> off \<le> 0x003FFF then
       let ctx = unat ((off - 0x002000) div 0x80);
           word = unat (((off - 0x002000) mod 0x80) div 4)
       in (p, if ctx < 2 \<and> word < 4 then ucast (enable p ! ctx ! word) else 0)
     else if 0x200000 \<le> off \<and> off \<le> 0x20FFFF then
       let ctx = unat ((off - 0x200000) div 0x1000);
           local = (off - 0x200000) mod 0x1000
       in if ctx \<ge> 2 then (p, 0)
          else if local = 0 then (p, ucast (threshold p ! ctx))
          else if local = 4 then
            let irq = best_irq p ctx
            in (if irq > 0 then p\<lparr>pending := pending p AND NOT (shl 1 irq)\<rparr> else p, of_nat irq)
          else (p, 0)
     else (p, 0))"

definition Plic_store :: "plic \<Rightarrow> u64 \<Rightarrow> nat \<Rightarrow> u64 \<Rightarrow> plic" where
  "Plic_store p addr width val =
    (let off = addr - PLIC_BASE in
     if off \<le> 0x0001FF then
       let irq = unat (off div 4)
       in if irq < 128 then p\<lparr>priority := (priority p)[irq := ucast val]\<rparr> else p
     else if 0x002000 \<le> off \<and> off \<le> 0x003FFF then
       let ctx = unat ((off - 0x002000) div 0x80);
           word = unat (((off - 0x002000) mod 0x80) div 4)
       in if ctx < 2 \<and> word < 4
          then p\<lparr>enable := (enable p)[ctx := (enable p ! ctx)[word := ucast val]]\<rparr> else p
     else if 0x200000 \<le> off \<and> off \<le> 0x20FFFF then
       let ctx = unat ((off - 0x200000) div 0x1000);
           local = (off - 0x200000) mod 0x1000
       in if ctx \<ge> 2 then p
          else if local = 0 then p\<lparr>threshold := (threshold p)[ctx := ucast val]\<rparr>
          else if local = 4 then
            let irq = (ucast val :: u32)
            in if irq > 0 \<and> irq < 64
               then p\<lparr>pending := pending p AND NOT (shl 1 (unat irq))\<rparr> else p
          else p
     else p)"

section \<open>Invariant\<close>

definition plic_wf :: "plic \<Rightarrow> bool" where
  "plic_wf p \<longleftrightarrow> length (priority p) = 128 \<and> length (enable p) = 2 \<and>
     (\<forall>ws \<in> set (enable p). length ws = 4) \<and> length (threshold p) = 2"

lemma plic_wf_new: "plic_wf Plic_new"
  by (simp add: plic_wf_def Plic_new_def)

lemma plic_wf_set_pending [wf_intros]: "plic_wf p \<Longrightarrow> plic_wf (Plic_set_pending p i b)"
  by (simp add: plic_wf_def Plic_set_pending_def)

lemma plic_wf_load [wf_intros]: "plic_wf p \<Longrightarrow> plic_wf (fst (Plic_load p a w))"
  by (simp add: plic_wf_def Plic_load_def Let_def)

lemma plic_wf_store [wf_intros]: "plic_wf p \<Longrightarrow> plic_wf (Plic_store p a w v)"
  by (auto simp: plic_wf_def Plic_store_def Let_def dest!: set_update_subset_insert [THEN subsetD])


section \<open>Arbitration\<close>

text \<open>The interrupts context \<open>ctx\<close> may claim: pending, enabled, above the threshold.\<close>

definition claimable :: "plic \<Rightarrow> nat \<Rightarrow> nat \<Rightarrow> bool" where
  "claimable p ctx i \<longleftrightarrow> 1 \<le> i \<and> i < 64 \<and> bit (pending p) i \<and>
     bit (enable p ! ctx ! (i div 32)) (i mod 32) \<and> threshold p ! ctx < priority p ! i"

text \<open>\<open>outranks p i j\<close>: interrupt \<open>i\<close> goes before \<open>j\<close> (higher priority, then lower number).\<close>

definition outranks :: "plic \<Rightarrow> nat \<Rightarrow> nat \<Rightarrow> bool" where
  "outranks p i j \<longleftrightarrow> priority p ! j < priority p ! i \<or> (priority p ! j = priority p ! i \<and> i < j)"

lemma outranks_trans: "outranks p i j \<Longrightarrow> outranks p j k \<Longrightarrow> outranks p i k"
  by (auto simp: outranks_def)

definition scan :: "plic \<Rightarrow> nat \<Rightarrow> nat \<Rightarrow> nat \<times> u32" where
  "scan p ctx n = foldl (best_irq_step p ctx) (0, threshold p ! ctx) [1..<n]"

lemma scan_Suc: "1 \<le> n \<Longrightarrow> scan p ctx (Suc n) = best_irq_step p ctx (scan p ctx n) n"
  by (simp add: scan_def)

lemma scan_inv:
  assumes "1 \<le> n" "n \<le> 64"
  shows "(fst (scan p ctx n) = 0 \<and> snd (scan p ctx n) = threshold p ! ctx \<and>
           (\<forall>i<n. \<not> claimable p ctx i)) \<or>
         (claimable p ctx (fst (scan p ctx n)) \<and> fst (scan p ctx n) < n \<and>
           snd (scan p ctx n) = priority p ! fst (scan p ctx n) \<and>
           (\<forall>i<n. claimable p ctx i \<longrightarrow> i = fst (scan p ctx n) \<or> outranks p (fst (scan p ctx n)) i))"
  using assms
proof (induction n rule: dec_induct)
  case base
  then show ?case by (simp add: scan_def claimable_def)
next
  case (step n)
  obtain k pr where s: "scan p ctx n = (k, pr)"
    by fastforce
  show ?case
  proof (cases "claimable p ctx n \<and> pr < priority p ! n")
    case True
    then have "scan p ctx (Suc n) = (n, priority p ! n)"
      using step.hyps s
      by (simp add: scan_Suc best_irq_step_def claimable_def Let_def bit_tests)
    then show ?thesis
      using True step s by (auto simp: less_Suc_eq outranks_def)
  next
    case False
    then have "scan p ctx (Suc n) = (k, pr)"
      using step s
      by (auto simp: scan_Suc best_irq_step_def claimable_def Let_def bit_tests)
    then show ?thesis
      using False step s by (auto simp: less_Suc_eq outranks_def claimable_def)
  qed
qed

lemma best_irq_scan: "best_irq p ctx = fst (scan p ctx 64)"
  by (simp add: best_irq_def scan_def)

lemma best_irq_claimable: "best_irq p ctx \<noteq> 0 \<Longrightarrow> claimable p ctx (best_irq p ctx)"
  using scan_inv [of 64 p ctx] by (auto simp: best_irq_scan)

lemma best_irq_zero: "best_irq p ctx = 0 \<longleftrightarrow> (\<forall>i. \<not> claimable p ctx i)"
  using scan_inv [of 64 p ctx] by (auto simp: best_irq_scan claimable_def)

lemma best_irq_outranks:
  "claimable p ctx i \<Longrightarrow> i \<noteq> best_irq p ctx \<Longrightarrow> outranks p (best_irq p ctx) i"
  using scan_inv [of 64 p ctx] by (auto simp: best_irq_scan claimable_def)

section \<open>Claiming\<close>

definition CLAIM_S :: u64 where
  "CLAIM_S = 0x0C201004"

lemma Plic_load_claim:
  "Plic_load p CLAIM_S w =
    (if best_irq p 1 > 0 then p\<lparr>pending := pending p AND NOT (shl 1 (best_irq p 1))\<rparr> else p,
     of_nat (best_irq p 1))"
  by (simp add: Plic_load_def CLAIM_S_def PLIC_BASE_def Let_def)

lemma bit_clear: "bit (w AND NOT (2 ^ i)) j = (bit w j \<and> j \<noteq> i)" for w :: u64
  by (auto simp: bit_simps dest: bit_imp_le_length)

lemma claimable_after_claim:
  "best_irq p ctx \<noteq> 0 \<Longrightarrow>
    claimable (p\<lparr>pending := pending p AND NOT (shl 1 (best_irq p ctx))\<rparr>) c i =
    (claimable p c i \<and> i \<noteq> best_irq p ctx)"
  using best_irq_claimable [of p ctx] by (auto simp: claimable_def bit_clear)

text \<open>The supervisor's handler loop: \<open>n\<close> reads of the claim register in a row.\<close>

fun claims :: "nat \<Rightarrow> plic \<Rightarrow> nat list" where
  "claims 0 p = []"
| "claims (Suc n) p = (case Plic_load p CLAIM_S 4 of (p', irq) \<Rightarrow> unat irq # claims n p')"

lemma best_irq_less: "best_irq p ctx < 64"
  using scan_inv [of 64 p ctx] by (auto simp: best_irq_scan)

lemma unat_best_irq: "unat (of_nat (best_irq p ctx) :: u64) = best_irq p ctx"
  using best_irq_less [of p ctx] by (simp add: unat_of_nat take_bit_nat_eq_self)

lemma claims_claimable: "j \<in> set (claims n p) \<Longrightarrow> j = 0 \<or> claimable p 1 j"
proof (induction n arbitrary: p)
  case (Suc n)
  show ?case
  proof (cases "best_irq p 1 = 0")
    case True
    then show ?thesis
      using Suc by (auto simp: Plic_load_claim)
  next
    case False
    then consider "j = best_irq p 1"
      | "j \<in> set (claims n (p\<lparr>pending := pending p AND NOT (shl 1 (best_irq p 1))\<rparr>))"
      using Suc.prems by (auto simp: Plic_load_claim unat_best_irq)
    then show ?thesis
      using Suc.IH best_irq_claimable [of p 1] False claimable_after_claim [OF False] by cases blast+
  qed
qed simp

lemma outranks_claim [simp]: "outranks (p\<lparr>pending := x\<rparr>) i j = outranks p i j"
  by (simp add: outranks_def)

lemma claims_idle: "best_irq p 1 = 0 \<Longrightarrow> claims n p = replicate n 0"
  by (induction n) (simp_all add: Plic_load_claim)

text \<open>
  C19. Arbitration returns exactly the claimable interrupt that outranks all others: 0 when none is
  pending, enabled and above the threshold, else one that is, of the highest priority and among
  equals the lowest number.
\<close>

theorem best_irq_is_highest:
  "(best_irq p ctx = 0 \<longleftrightarrow> (\<nexists>i. claimable p ctx i)) \<and>
   (best_irq p ctx \<noteq> 0 \<longrightarrow> claimable p ctx (best_irq p ctx) \<and>
     (\<forall>i. claimable p ctx i \<and> i \<noteq> best_irq p ctx \<longrightarrow> outranks p (best_irq p ctx) i))"
  using best_irq_zero [of p ctx] best_irq_claimable [of p ctx] best_irq_outranks [of p ctx]
  by blast

theorem best_irq_is_highest_witness:
  "claimable (Plic_new\<lparr>pending := 0x402, enable := [[0, 0, 0, 0], [0x402, 0, 0, 0]],
      priority := (replicate 128 0)[1 := 1, 10 := 1]\<rparr>) 1
    (best_irq (Plic_new\<lparr>pending := 0x402, enable := [[0, 0, 0, 0], [0x402, 0, 0, 0]],
      priority := (replicate 128 0)[1 := 1, 10 := 1]\<rparr>) 1)"
proof -
  define p where "p = Plic_new\<lparr>pending := 0x402, enable := [[0, 0, 0, 0], [0x402, 0, 0, 0]],
      priority := (replicate 128 0)[1 := 1, 10 := 1]\<rparr>"
  have "claimable p 1 10"
    by (simp add: p_def claimable_def Plic_new_def bit_simps)
  then have "best_irq p 1 \<noteq> 0"
    using best_irq_is_highest [of p 1] by blast
  then show ?thesis
    using best_irq_is_highest [of p 1] by (simp add: p_def)
qed

text \<open>
  C20. Claiming in a loop serves every interrupt at most once and in rank order: in any number of
  consecutive claims a later one is either 0 (nothing left) or a different interrupt that the
  earlier one outranks, and after a 0 only 0 follows.
\<close>

theorem claims_in_rank_order:
  "sorted_wrt (\<lambda>i j. j = 0 \<or> (i \<noteq> 0 \<and> i \<noteq> j \<and> outranks p i j)) (claims n p)"
proof (induction n arbitrary: p)
  case (Suc n)
  show ?case
  proof (cases "best_irq p 1 = 0")
    case True
    then show ?thesis
      by (simp add: claims_idle del: claims.simps) (simp add: sorted_wrt_iff_nth_less nth_Cons')
  next
    case False
    define p' where "p' = p\<lparr>pending := pending p AND NOT (shl 1 (best_irq p 1))\<rparr>"
    have later: "j = 0 \<or> (best_irq p 1 \<noteq> j \<and> outranks p (best_irq p 1) j)"
      if "j \<in> set (claims n p')" for j
      using claims_claimable [OF that] claimable_after_claim [OF False, of 1 j]
        best_irq_outranks [of p 1 j] by (auto simp: p'_def)
    have "claims (Suc n) p = best_irq p 1 # claims n p'"
      using False by (simp add: Plic_load_claim unat_best_irq p'_def)
    then show ?thesis
      using False Suc [of p'] later by (auto simp: p'_def)
  qed
qed simp

end
