(* ===== verification/Uart.thy ===== *)
theory Uart
  imports Prelude "HOL-Library.Sublist"
begin

text \<open>
  The 16550 UART: \<open>src/uart.rs\<close>.  The record has the struct's fields, the receive queue as a list
  (front first), and one more field, \<open>host_out\<close>: the bytes \<open>print!\<close> has sent to the host terminal,
  oldest first, which the source keeps in the host's stdout.  The transmit path runs two detectors
  over the guest's output: one holds back and answers the cursor-position query \<open>ESC [ 6 n\<close>, the
  other watches for \<open>ESC [ ? 2 0 0 4 h\<close>.  \<open>flush_pending\<close> only flushes the host's buffer and has no
  effect on this state.
\<close>

record uart =
  ier :: u8
  rx_buf :: "u8 list"
  dsr_state :: u8
  bpm_state :: u8
  stdin_ready :: bool
  tx_bytes :: u64
  rx_bytes :: u64
  rx_drained :: u64
  host_out :: "u8 list"

definition Uart_new :: uart where
  "Uart_new = \<lparr>ier = 0, rx_buf = [], dsr_state = 0, bpm_state = 0, stdin_ready = False,
     tx_bytes = 0, rx_bytes = 0, rx_drained = 0, host_out = []\<rparr>"

definition Uart_push_rx :: "uart \<Rightarrow> u8 \<Rightarrow> uart" where
  "Uart_push_rx u byte = u\<lparr>rx_buf := rx_buf u @ [byte], rx_bytes := rx_bytes u + 1\<rparr>"

definition Uart_data_ready :: "uart \<Rightarrow> bool" where
  "Uart_data_ready u \<longleftrightarrow> rx_buf u \<noteq> []"

definition Uart_irq_pending :: "uart \<Rightarrow> bool" where
  "Uart_irq_pending u \<longleftrightarrow> ier u AND 0x02 \<noteq> 0 \<or> (ier u AND 0x01 \<noteq> 0 \<and> Uart_data_ready u)"

definition Uart_load :: "uart \<Rightarrow> u64 \<Rightarrow> nat \<Rightarrow> uart \<times> u64" where
  "Uart_load u addr width =
    (let reg = addr AND 0xFF in
     if reg = 0 then
       let b = (case rx_buf u of [] \<Rightarrow> 0 | b # _ \<Rightarrow> b);
           u = u\<lparr>rx_buf := tl (rx_buf u)\<rparr>;
           u = (if rx_buf u \<noteq> [] \<or> b \<noteq> 0 then u\<lparr>rx_drained := rx_drained u + 1\<rparr> else u)
       in (u, ucast b)
     else if reg = 1 then (u, ucast (ier u))
     else if reg = 2 then
       (u, if ier u AND 0x01 \<noteq> 0 \<and> Uart_data_ready u then 0x04
           else if ier u AND 0x02 \<noteq> 0 then 0x02
           else 0x01)
     else if reg = 5 then (u, if Uart_data_ready u then 0x60 OR 0x01 else 0x60)
     else if reg = 6 then (u, 0x30)
     else (u, 0))"

text \<open>\<open>print!\<close> of some bytes.\<close>

definition host_print :: "uart \<Rightarrow> u8 list \<Rightarrow> uart" where
  "host_print u bs = u\<lparr>host_out := host_out u @ bs\<rparr>"

definition dsr_prefix :: "u8 \<Rightarrow> u8 list" where
  "dsr_prefix st =
    (if st = 1 then [0x1B] else if st = 2 then [0x1B, 0x5B]
     else if st = 3 then [0x1B, 0x5B, 0x36] else [])"

definition Uart_flush_prefix :: "uart \<Rightarrow> uart" where
  "Uart_flush_prefix u =
    (if dsr_state u \<in> {1, 2, 3} then
       let prefix = dsr_prefix (dsr_state u);
           u = host_print u prefix;
           u = u\<lparr>tx_bytes := tx_bytes u + of_nat (length prefix)\<rparr>
       in u\<lparr>dsr_state := 0\<rparr>
     else u)"

definition BPM_TARGET :: "u8 list" where
  "BPM_TARGET = [0x1B, 0x5B, 0x3F, 0x32, 0x30, 0x30, 0x34, 0x68]"

definition CPR_REPLY :: "u8 list" where
  "CPR_REPLY = [0x1B, 0x5B, 0x31, 0x3B, 0x31, 0x52]"

definition bpm_watch :: "uart \<Rightarrow> u8 \<Rightarrow> uart" where
  "bpm_watch u byte =
    (let bpm_idx = unat (bpm_state u) in
     if bpm_idx < length BPM_TARGET \<and> byte = BPM_TARGET ! bpm_idx then
       let u = u\<lparr>bpm_state := bpm_state u + 1\<rparr>
       in if unat (bpm_state u) = length BPM_TARGET
          then u\<lparr>stdin_ready := True, bpm_state := 0\<rparr> else u
     else u\<lparr>bpm_state := (if byte = 0x1B then 1 else 0)\<rparr>)"

definition dsr_watch :: "uart \<Rightarrow> u8 \<Rightarrow> uart" where
  "dsr_watch u byte =
    (if byte = 0x1B then
       let u = Uart_flush_prefix u in u\<lparr>dsr_state := 1\<rparr>
     else if dsr_state u = 1 \<and> byte = 0x5B then u\<lparr>dsr_state := 2\<rparr>
     else if dsr_state u = 2 \<and> byte = 0x36 then u\<lparr>dsr_state := 3\<rparr>
     else if dsr_state u = 3 \<and> byte = 0x6E then
       u\<lparr>rx_buf := rx_buf u @ CPR_REPLY, stdin_ready := True, dsr_state := 0\<rparr>
     else
       let u = Uart_flush_prefix u;
           u = host_print u [byte]
       in u\<lparr>tx_bytes := tx_bytes u + 1\<rparr>)"

definition Uart_store :: "uart \<Rightarrow> u64 \<Rightarrow> nat \<Rightarrow> u64 \<Rightarrow> uart" where
  "Uart_store u addr width val =
    (if addr AND 0xFF \<noteq> 0 then
       (if addr AND 0xFF = 1 then u\<lparr>ier := ucast val\<rparr> else u)
     else
       let byte = ucast val in dsr_watch (bpm_watch u byte) byte)"

text \<open>The guest sending a string: one store to the transmit register per byte.\<close>

definition Uart_send :: "uart \<Rightarrow> u8 list \<Rightarrow> uart" where
  "Uart_send u bs = foldl (\<lambda>u b. Uart_store u 0x10000000 1 (ucast b)) u bs"

section \<open>Detecting a sequence in a stream\<close>

text \<open>
  Both detectors are the same automaton: \<open>k\<close> bytes of the pattern are matched; on a mismatch the
  next state depends on whether the byte starts the pattern.  It is exact for a pattern whose first
  byte does not occur again in it.
\<close>

definition pat_step :: "'a list \<Rightarrow> nat \<Rightarrow> 'a \<Rightarrow> nat \<times> bool" where
  "pat_step p k b =
    (if k < length p \<and> b = p ! k then (if Suc k = length p then (0, True) else (Suc k, False))
     else (if b = hd p then 1 else 0, False))"

fun pat_found :: "'a list \<Rightarrow> nat \<Rightarrow> 'a list \<Rightarrow> bool" where
  "pat_found p k [] = False"
| "pat_found p k (b # bs) = (case pat_step p k b of (k', hit) \<Rightarrow> hit \<or> pat_found p k' bs)"

locale fresh_head_pattern =
  fixes pat :: "'a list"
  assumes long: "2 \<le> length pat"
    and fresh_head: "hd pat \<notin> set (tl pat)"
begin

lemma fresh: "0 < i \<Longrightarrow> i < length pat \<Longrightarrow> pat ! i \<noteq> pat ! 0"
  using fresh_head by (cases pat) (auto simp: nth_Cons split: nat.splits dest: nth_mem)

lemma hd_pat: "hd pat = pat ! 0"
  using long by (intro hd_conv_nth) auto

text \<open>An occurrence in a partial match followed by a mismatching byte starts at that byte or later.\<close>

lemma occurrence_after_mismatch:
  assumes k: "k < length pat" and b: "b \<noteq> pat ! k"
    and occ: "take k pat @ b # bs = ps @ pat @ ss"
  shows "k \<le> length ps"
proof (rule ccontr)
  assume "\<not> k \<le> length ps"
  then have lt: "length ps < k" by simp
  show False
  proof (cases "length ps = 0")
    case True
    then have "(take k pat @ b # bs) ! k = pat ! k"
      using k by (simp only: occ) (simp add: nth_append)
    then show False
      using k b by (simp add: nth_append)
  next
    case False
    have "(take k pat @ b # bs) ! length ps = pat ! 0"
      using long by (simp only: occ) (auto simp add: nth_append)
    moreover have "(take k pat @ b # bs) ! length ps = pat ! length ps"
      using lt k by (simp add: nth_append)
    ultimately show False
      using fresh [of "length ps"] False lt k by simp
  qed
qed

lemma sublist_drop_mismatch:
  assumes "k < length pat" and "b \<noteq> pat ! k"
  shows "sublist pat (take k pat @ b # bs) = sublist pat (b # bs)"
proof
  assume "sublist pat (take k pat @ b # bs)"
  then obtain ps ss where occ: "take k pat @ b # bs = ps @ pat @ ss"
    by (auto simp: sublist_def)
  have "k \<le> length ps"
    using assms occ by (rule occurrence_after_mismatch)
  then have "b # bs = drop k ps @ pat @ ss"
    using occ assms(1) by (metis append_eq_append_conv_if drop_append append_Nil2 length_take
        min.absorb4 diff_is_0_eq drop0 drop_all le_refl append_eq_conv_conj)
  then show "sublist pat (b # bs)"
    by (auto simp: sublist_def)
next
  assume "sublist pat (b # bs)"
  then obtain ps ss where "b # bs = ps @ pat @ ss"
    by (auto simp: sublist_def)
  then have "take k pat @ b # bs = (take k pat @ ps) @ pat @ ss"
    by simp
  then show "sublist pat (take k pat @ b # bs)"
    by (simp only: sublist_def) blast
qed

lemma pat_found_iff:
  "k < length pat \<Longrightarrow> pat_found pat k bs = sublist pat (take k pat @ bs)"
proof (induction bs arbitrary: k)
  case Nil
  then show ?case
    using sublist_length_le [of pat "take k pat"] by auto
next
  case (Cons b bs)
  show ?case
  proof (cases "b = pat ! k")
    case True
    then have ext: "take k pat @ b # bs = take (Suc k) pat @ bs"
      using Cons.prems by (simp add: take_Suc_conv_app_nth)
    show ?thesis
    proof (cases "Suc k = length pat")
      case True
      then have "take k pat @ b # bs = [] @ pat @ bs"
        using ext by simp
      then have "sublist pat (take k pat @ b # bs)"
        by (simp only: sublist_def) blast
      then show ?thesis
        using True \<open>b = pat ! k\<close> Cons.prems by (simp add: pat_step_def)
    next
      case False
      then have "pat_found pat k (b # bs) = pat_found pat (Suc k) bs"
        using \<open>b = pat ! k\<close> Cons.prems by (simp add: pat_step_def)
      also have "\<dots> = sublist pat (take (Suc k) pat @ bs)"
        using False Cons.prems by (intro Cons.IH) simp
      finally show ?thesis
        by (simp only: ext)
    qed
  next
    case False
    have "sublist pat (take k pat @ b # bs) = sublist pat (b # bs)"
      using Cons.prems False by (rule sublist_drop_mismatch)
    also have "\<dots> = pat_found pat (if b = hd pat then 1 else 0) bs"
    proof (cases "b = hd pat")
      case True
      have "take 1 pat = [b]"
        using long True by (cases pat) auto
      then show ?thesis
        using True long Cons.IH [of 1] by simp
    next
      case no: False
      have "sublist pat (b # bs) = sublist pat bs"
        using no long by (cases pat) (auto simp: sublist_Cons_right)
      then show ?thesis
        using no long Cons.IH [of 0] by (simp, cases pat) auto
    qed
    finally show ?thesis
      using False by (simp add: pat_step_def)
  qed
qed

end

section \<open>The two detectors of the transmit path\<close>

definition DSR_QUERY :: "u8 list" where
  "DSR_QUERY = [0x1B, 0x5B, 0x36, 0x6E]"

lemma less_numeral_cases: "n < 4 \<longleftrightarrow> n = 0 \<or> n = 1 \<or> n = 2 \<or> n = (3::nat)"
  "n < 8 \<longleftrightarrow> n = 0 \<or> n = 1 \<or> n = 2 \<or> n = 3 \<or> n = 4 \<or> n = 5 \<or> n = 6 \<or> n = (7::nat)"
  by auto

interpretation dsr: fresh_head_pattern DSR_QUERY
  by unfold_locales (simp_all add: DSR_QUERY_def)

interpretation bpm: fresh_head_pattern BPM_TARGET
  by unfold_locales (simp_all add: BPM_TARGET_def)

definition uart_wf :: "uart \<Rightarrow> bool" where
  "uart_wf u \<longleftrightarrow> unat (dsr_state u) < 4 \<and> unat (bpm_state u) < 8"

text \<open>What one transmitted byte does to each part of the state.\<close>

lemma Uart_send_Cons:
  "Uart_send u (b # bs) = Uart_send (dsr_watch (bpm_watch u b) b) bs"
  by (simp add: Uart_send_def Uart_store_def ucast_down_ucast_id is_down)

lemma Uart_send_Nil [simp]: "Uart_send u [] = u"
  by (simp add: Uart_send_def)

lemma bpm_watch_frame [simp]:
  "dsr_state (bpm_watch u b) = dsr_state u" "rx_buf (bpm_watch u b) = rx_buf u"
  "host_out (bpm_watch u b) = host_out u" "tx_bytes (bpm_watch u b) = tx_bytes u"
  "ier (bpm_watch u b) = ier u"
  by (simp_all add: bpm_watch_def Let_def)

lemma dsr_watch_frame [simp]:
  "bpm_state (dsr_watch u b) = bpm_state u" "ier (dsr_watch u b) = ier u"
  by (simp_all add: dsr_watch_def Uart_flush_prefix_def host_print_def Let_def)

lemma dsr_state_cases:
  assumes "unat (w :: u8) < 4"
  obtains "w = 0" | "w = 1" | "w = 2" | "w = 3"
proof -
  have "unat w = 0 \<or> unat w = 1 \<or> unat w = 2 \<or> unat w = 3"
    using assms by auto
  moreover have "w = n" if "unat w = unat n" for n
    using that by (simp add: word_unat_eq_iff)
  from this [of 0] this [of 1] this [of 2] this [of 3]
  have "unat w = 0 \<Longrightarrow> w = 0" "unat w = 1 \<Longrightarrow> w = 1" "unat w = 2 \<Longrightarrow> w = 2"
    "unat w = 3 \<Longrightarrow> w = 3"
    by simp_all
  ultimately show thesis
    using that by blast
qed

lemma bpm_watch_step:
  assumes "unat (bpm_state u) < 8"
  shows "pat_step BPM_TARGET (unat (bpm_state u)) b = (k, hit) \<Longrightarrow>
    unat (bpm_state (bpm_watch u b)) = k \<and>
    stdin_ready (bpm_watch u b) = (hit \<or> stdin_ready u)"
proof -
  have "unat (bpm_state u + 1) = Suc (unat (bpm_state u))"
    using assms by (subst unat_plus_simple [THEN iffD1]) (auto simp: word_le_nat_alt unat_word_ariths)
  then show "pat_step BPM_TARGET (unat (bpm_state u)) b = (k, hit) \<Longrightarrow> ?thesis"
    by (auto simp: pat_step_def bpm_watch_def BPM_TARGET_def Let_def split: if_splits)
qed

lemma dsr_watch_step:
  assumes "unat (dsr_state u) < 4"
  shows "pat_step DSR_QUERY (unat (dsr_state u)) b = (k, hit) \<Longrightarrow>
    unat (dsr_state (dsr_watch u b)) = k \<and>
    stdin_ready (dsr_watch u b) = (hit \<or> stdin_ready u)"
  using assms
  by (elim dsr_state_cases)
    (auto simp: pat_step_def dsr_watch_def DSR_QUERY_def Uart_flush_prefix_def dsr_prefix_def
      host_print_def Let_def split: if_splits)

lemma pat_step_bound:
  "pat_step p k b = (k', hit) \<Longrightarrow> 2 \<le> length p \<Longrightarrow> k' < length p"
  by (auto simp: pat_step_def split: if_splits)

text \<open>The gate opens exactly when one of the two sequences has been sent.\<close>

lemma stdin_ready_send:
  assumes "unat (dsr_state u) < 4" "unat (bpm_state u) < 8"
  shows "stdin_ready (Uart_send u bs) \<longleftrightarrow> stdin_ready u \<or>
    pat_found DSR_QUERY (unat (dsr_state u)) bs \<or> pat_found BPM_TARGET (unat (bpm_state u)) bs"
  using assms
proof (induction bs arbitrary: u)
  case Nil
  then show ?case by simp
next
  case (Cons b bs)
  obtain d dhit where d: "pat_step DSR_QUERY (unat (dsr_state u)) b = (d, dhit)"
    by (cases "pat_step DSR_QUERY (unat (dsr_state u)) b")
  obtain k khit where k: "pat_step BPM_TARGET (unat (bpm_state u)) b = (k, khit)"
    by (cases "pat_step BPM_TARGET (unat (bpm_state u)) b")
  let ?v = "bpm_watch u b"
  let ?w = "dsr_watch ?v b"
  have v: "unat (bpm_state ?v) = k" "stdin_ready ?v = (khit \<or> stdin_ready u)"
    using bpm_watch_step [OF Cons.prems(2) k] by simp_all
  have w: "unat (dsr_state ?w) = d" "stdin_ready ?w = (dhit \<or> stdin_ready ?v)"
    using dsr_watch_step [of ?v b d dhit] Cons.prems d by simp_all
  have "d < 4" "k < 8"
    using pat_step_bound [OF d] pat_step_bound [OF k]
    by (simp_all add: DSR_QUERY_def BPM_TARGET_def)
  then have "stdin_ready (Uart_send ?w bs) \<longleftrightarrow> stdin_ready ?w \<or>
      pat_found DSR_QUERY d bs \<or> pat_found BPM_TARGET k bs"
    using Cons.IH [of ?w] v w by simp
  then show ?case
    using v w d k by (auto simp: Uart_send_Cons)
qed

text \<open>
  The reference for the output path: the guest's stream with every query deleted.
\<close>

fun strip_dsr :: "u8 list \<Rightarrow> u8 list" where
  "strip_dsr [] = []"
| "strip_dsr (b # bs) =
    (if take 4 (b # bs) = DSR_QUERY then strip_dsr (drop 3 bs) else b # strip_dsr bs)"

fun count_dsr :: "u8 list \<Rightarrow> nat" where
  "count_dsr [] = 0"
| "count_dsr (b # bs) =
    (if take 4 (b # bs) = DSR_QUERY then Suc (count_dsr (drop 3 bs)) else count_dsr bs)"

lemma dsr_watch_output:
  assumes "unat (dsr_state u) < 4"
  shows "host_out (dsr_watch u b) @ strip_dsr (dsr_prefix (dsr_state (dsr_watch u b)) @ bs) =
      host_out u @ strip_dsr (dsr_prefix (dsr_state u) @ b # bs)" (is ?out)
    and "concat (replicate (count_dsr (dsr_prefix (dsr_state (dsr_watch u b)) @ bs)) CPR_REPLY) =
      r \<Longrightarrow> rx_buf (dsr_watch u b) @ r =
      rx_buf u @ concat (replicate (count_dsr (dsr_prefix (dsr_state u) @ b # bs)) CPR_REPLY)"
    (is "_ \<Longrightarrow> ?rx")
  using assms
  by (elim dsr_state_cases;
      auto simp: dsr_watch_def DSR_QUERY_def Uart_flush_prefix_def dsr_prefix_def
        host_print_def Let_def)+

lemma dsr_watch_bound: "unat (dsr_state u) < 4 \<Longrightarrow> unat (dsr_state (dsr_watch u b)) < 4"
  by (elim dsr_state_cases) (simp_all add: dsr_watch_def Uart_flush_prefix_def host_print_def Let_def)

lemma dsr_prefix_alone:
  "strip_dsr (dsr_prefix w) = dsr_prefix w" "count_dsr (dsr_prefix w) = 0"
  by (simp_all add: dsr_prefix_def DSR_QUERY_def)

lemma Uart_send_output:
  assumes "unat (dsr_state u) < 4"
  shows "host_out (Uart_send u bs) @ dsr_prefix (dsr_state (Uart_send u bs)) =
      host_out u @ strip_dsr (dsr_prefix (dsr_state u) @ bs)
    \<and> rx_buf (Uart_send u bs) = rx_buf u @
      concat (replicate (count_dsr (dsr_prefix (dsr_state u) @ bs)) CPR_REPLY)"
  using assms
proof (induction bs arbitrary: u)
  case Nil
  then show ?case
    by (simp add: dsr_prefix_alone)
next
  case (Cons b bs)
  let ?w = "dsr_watch (bpm_watch u b) b"
  have "unat (dsr_state ?w) < 4"
    using Cons.prems by (intro dsr_watch_bound) simp
  then show ?case
    using Cons.IH [of ?w] dsr_watch_output [of "bpm_watch u b" b bs] Cons.prems
    by (auto simp: Uart_send_Cons)
qed

text \<open>The count of transmitted bytes follows the output.\<close>

lemma dsr_watch_tx:
  "tx_bytes (dsr_watch u b) - of_nat (length (host_out (dsr_watch u b))) =
    tx_bytes u - of_nat (length (host_out u))"
  by (simp add: dsr_watch_def Uart_flush_prefix_def host_print_def Let_def)

lemma Uart_send_tx:
  "tx_bytes (Uart_send u bs) - of_nat (length (host_out (Uart_send u bs))) =
    tx_bytes u - of_nat (length (host_out u))"
proof (induction bs arbitrary: u)
  case (Cons b bs)
  then show ?case
    using dsr_watch_tx [of "bpm_watch u b" b] by (simp add: Uart_send_Cons)
qed simp

section \<open>The receive queue\<close>

text \<open>
  A first-in first-out buffer: what \<open>push_rx\<close> puts in, reads of the receive register take out in
  order.  \<open>fifo_run\<close> performs any interleaving of the two, \<open>Some x\<close> an arrival and \<open>None\<close> a read, and
  collects what the reads return.
\<close>

fun fifo_run :: "('q \<Rightarrow> 'a \<Rightarrow> 'q) \<Rightarrow> ('q \<Rightarrow> 'q \<times> 'b) \<Rightarrow> 'q \<Rightarrow> 'a option list \<Rightarrow> 'q \<times> 'b list" where
  "fifo_run put get q [] = (q, [])"
| "fifo_run put get q (Some x # ops) = fifo_run put get (put q x) ops"
| "fifo_run put get q (None # ops) =
    (case get q of (q', y) \<Rightarrow> case fifo_run put get q' ops of (q'', ys) \<Rightarrow> (q'', y # ys))"

text \<open>The list queue the buffer has to behave like.\<close>

fun fifo_ref :: "('a \<Rightarrow> 'b) \<Rightarrow> 'b \<Rightarrow> 'a list \<Rightarrow> 'a option list \<Rightarrow> 'a list \<times> 'b list" where
  "fifo_ref out z xs [] = (xs, [])"
| "fifo_ref out z xs (Some x # ops) = fifo_ref out z (xs @ [x]) ops"
| "fifo_ref out z [] (None # ops) =
    (case fifo_ref out z [] ops of (r, ys) \<Rightarrow> (r, z # ys))"
| "fifo_ref out z (x # xs) (None # ops) =
    (case fifo_ref out z xs ops of (r, ys) \<Rightarrow> (r, out x # ys))"

locale fifo =
  fixes put :: "'q \<Rightarrow> 'a \<Rightarrow> 'q" and get :: "'q \<Rightarrow> 'q \<times> 'b"
    and contents :: "'q \<Rightarrow> 'a list" and out :: "'a \<Rightarrow> 'b" and z :: 'b
  assumes put_contents: "contents (put q x) = contents q @ [x]"
    and get_contents: "contents (fst (get q)) = tl (contents q)"
    and get_value: "snd (get q) = (case contents q of [] \<Rightarrow> z | x # _ \<Rightarrow> out x)"
begin

lemma run_refines:
  "map_prod contents id (fifo_run put get q ops) = fifo_ref out z (contents q) ops"
proof (induction ops arbitrary: q)
  case Nil
  then show ?case by simp
next
  case (Cons a ops)
  show ?case
  proof (cases a)
    case (Some x)
    then show ?thesis
      using Cons [of "put q x"] by (simp add: put_contents)
  next
    case None
    obtain q' y where g: "get q = (q', y)" by (cases "get q")
    then have q': "contents q' = tl (contents q)" "y = (case contents q of [] \<Rightarrow> z | x # _ \<Rightarrow> out x)"
      using get_contents [of q] get_value [of q] by simp_all
    show ?thesis
      using Cons [of q'] None g q'
      by (cases "contents q"; cases "fifo_run put get q' ops"; auto split: prod.splits)
  qed
qed

end

definition Uart_read_rbr :: "uart \<Rightarrow> uart \<times> u64" where
  "Uart_read_rbr u = Uart_load u 0x10000000 1"

interpretation rx: fifo Uart_push_rx Uart_read_rbr rx_buf ucast 0
  by unfold_locales (auto simp: Uart_push_rx_def Uart_read_rbr_def Uart_load_def Let_def split: list.splits)

section \<open>Properties\<close>


text \<open>
  C31.  From reset, the gate for host input opens exactly when the guest has sent a complete
  cursor-position query or a complete bracketed-paste enable, at any place of its output, however
  the partial matches before it ended.
\<close>

theorem stdin_gate_exact:
  "stdin_ready (Uart_send Uart_new bs) \<longleftrightarrow> sublist DSR_QUERY bs \<or> sublist BPM_TARGET bs"
  using stdin_ready_send [of Uart_new bs] dsr.pat_found_iff [of 0 bs] bpm.pat_found_iff [of 0 bs]
  by (simp add: Uart_new_def DSR_QUERY_def BPM_TARGET_def)

text \<open>
  C32.  The receive path is first-in first-out: in any interleaving of bytes arriving from the host
  and reads of the receive register, the reads return the bytes in their order of arrival, none lost
  and none twice, and 0 when the queue is empty.
\<close>

theorem receive_is_fifo:
  "map_prod rx_buf id (fifo_run Uart_push_rx Uart_read_rbr u ops) = fifo_ref ucast 0 (rx_buf u) ops"
  by (rule rx.run_refines)

text \<open>
  C33.  The interrupt identification register agrees with the interrupt line: it reads 1 (nothing
  pending) exactly when the line is low, and reading it changes nothing.
\<close>

theorem iir_agrees_with_line:
  "(snd (Uart_load u 0x10000002 w) = 1 \<longleftrightarrow> \<not> Uart_irq_pending u)
    \<and> fst (Uart_load u 0x10000002 w) = u"
  by (auto simp: Uart_load_def Uart_irq_pending_def Let_def)

end
