(* ===== verification/VirtioBlk.thy ===== *)
theory VirtioBlk
  imports Prelude
begin

text \<open>
  The virtio block device: \<open>src/virtio_blk.rs\<close>.  The record has the struct's fields.  Guest RAM is the
  byte list the bus passes; a slice of it out of range panics (\<open>None\<close>), and so does everything that
  dereferences a guest address.  The disk is a \<open>std::fs::File\<close>: its bytes, its position and a
  schedule of I/O errors, one entry per operation (\<open>None\<close>: no error, \<open>Some k\<close>: an error after \<open>k\<close>
  bytes; past its end the schedule has no errors).  Debug output is not modelled.
\<close>

section \<open>The backing file\<close>

record disk_file =
  f_data :: "u8 list"
  f_pos :: nat
  f_faults :: "nat option list"

definition next_fault :: "disk_file \<Rightarrow> nat option \<times> disk_file" where
  "next_fault f = (case f_faults f of [] \<Rightarrow> (None, f) | x # xs \<Rightarrow> (x, f\<lparr>f_faults := xs\<rparr>))"

text \<open>
  \<open>seek(SeekFrom::Start(n))\<close>: the operating system's offset is signed, so it refuses \<open>2^63\<close> and
  above.
\<close>

definition file_seek :: "disk_file \<Rightarrow> u64 \<Rightarrow> disk_file \<times> bool" where
  "file_seek f n =
    (case next_fault f of
      (Some _, f) \<Rightarrow> (f, False)
    | (None, f) \<Rightarrow> if n < 0x8000000000000000 then (f\<lparr>f_pos := unat n\<rparr>, True) else (f, False))"

text \<open>\<open>read_exact\<close> of \<open>n\<close> bytes: the bytes that arrived (all \<open>n\<close> of them if it is \<open>Ok\<close>).\<close>

definition file_read_exact :: "disk_file \<Rightarrow> nat \<Rightarrow> disk_file \<times> u8 list \<times> bool" where
  "file_read_exact f n =
    (if n = 0 then (f, [], True)
     else case next_fault f of (flt, f) \<Rightarrow>
       let there = take n (drop (f_pos f) (f_data f));
           got = (case flt of None \<Rightarrow> there | Some k \<Rightarrow> take k there)
       in (f\<lparr>f_pos := f_pos f + length got\<rparr>, got, length got = n))"

text \<open>\<open>write_all\<close>: bytes past the end extend the file, a gap is filled with zeros.\<close>

definition file_write_all :: "disk_file \<Rightarrow> u8 list \<Rightarrow> disk_file \<times> bool" where
  "file_write_all f bs =
    (if bs = [] then (f, True)
     else case next_fault f of (flt, f) \<Rightarrow>
       let gone = (case flt of None \<Rightarrow> bs | Some k \<Rightarrow> take k bs);
           p = f_pos f;
           old = f_data f @ replicate (p - length (f_data f)) 0
       in if gone = [] then (f, False)
          else (f\<lparr>f_data := take p old @ gone @ drop (p + length gone) old,
                  f_pos := p + length gone\<rparr>, length gone = length bs))"

section \<open>The device\<close>

definition VIRTIO_MAGIC :: u32 where "VIRTIO_MAGIC = 0x74726976"
definition VIRTIO_VERSION :: u32 where "VIRTIO_VERSION = 2"
definition VIRTIO_DEVICE_BLK :: u32 where "VIRTIO_DEVICE_BLK = 2"
definition VIRTIO_VENDOR :: u32 where "VIRTIO_VENDOR = 0x554D4551"
definition QUEUE_SIZE :: u16 where "QUEUE_SIZE = 256"
definition SECTOR_SIZE :: u64 where "SECTOR_SIZE = 512"
definition DEVICE_FEATURES :: "u32 list" where "DEVICE_FEATURES = [0, 1]"
definition DESC_F_NEXT :: u16 where "DESC_F_NEXT = 1"
definition DESC_F_WRITE :: u16 where "DESC_F_WRITE = 2"
definition T_IN :: u32 where "T_IN = 0"
definition T_OUT :: u32 where "T_OUT = 1"
definition T_FLUSH :: u32 where "T_FLUSH = 4"
definition S_OK :: u8 where "S_OK = 0"
definition S_IOERR :: u8 where "S_IOERR = 1"

lemmas virtio_consts = VIRTIO_MAGIC_def VIRTIO_VERSION_def VIRTIO_DEVICE_BLK_def VIRTIO_VENDOR_def
  QUEUE_SIZE_def SECTOR_SIZE_def DEVICE_FEATURES_def DESC_F_NEXT_def DESC_F_WRITE_def
  T_IN_def T_OUT_def T_FLUSH_def S_OK_def S_IOERR_def

record virtio_blk =
  disk :: "disk_file option"
  capacity :: u64
  device_features_sel :: u32
  driver_features :: "u32 list"
  driver_features_sel :: u32
  device_status :: u32
  queue_num :: u32
  queue_ready :: u32
  desc_addr :: u64
  avail_addr :: u64
  used_addr :: u64
  irq_status :: u32
  last_avail_idx :: u16

definition VirtioBlk_new :: "disk_file option \<Rightarrow> virtio_blk" where
  "VirtioBlk_new d =
    \<lparr>disk = d,
     capacity = (case d of None \<Rightarrow> 0 | Some f \<Rightarrow> of_nat (length (f_data f)) div SECTOR_SIZE),
     device_features_sel = 0, driver_features = replicate 2 0, driver_features_sel = 0,
     device_status = 0, queue_num = ucast QUEUE_SIZE, queue_ready = 0, desc_addr = 0,
     avail_addr = 0, used_addr = 0, irq_status = 0, last_avail_idx = 0\<rparr>"

definition VirtioBlk_load :: "virtio_blk \<Rightarrow> u64 \<Rightarrow> nat \<Rightarrow> u64" where
  "VirtioBlk_load d off width =
    (if off = 0x000 then ucast VIRTIO_MAGIC
     else if off = 0x004 then ucast VIRTIO_VERSION
     else if off = 0x008 then ucast VIRTIO_DEVICE_BLK
     else if off = 0x00C then ucast VIRTIO_VENDOR
     else if off = 0x010 then ucast (DEVICE_FEATURES ! unat (min (device_features_sel d) 1))
     else if off = 0x034 then ucast QUEUE_SIZE
     else if off = 0x038 then ucast (queue_num d)
     else if off = 0x044 then ucast (queue_ready d)
     else if off = 0x060 then ucast (irq_status d)
     else if off = 0x070 then ucast (device_status d)
     else if off = 0x0FC then 0
     else if off = 0x100 then ucast (ucast (capacity d) :: u32)
     else if off = 0x104 then shr (capacity d) 32
     else 0)"

definition VirtioBlk_reset :: "virtio_blk \<Rightarrow> virtio_blk" where
  "VirtioBlk_reset d =
    d\<lparr>queue_ready := 0, desc_addr := 0, avail_addr := 0, used_addr := 0, irq_status := 0,
      last_avail_idx := 0\<rparr>"

text \<open>The two halves of a 64-bit queue address.\<close>

definition set_lo32 :: "u64 \<Rightarrow> u64 \<Rightarrow> u64" where
  "set_lo32 a val = (a AND 0xFFFFFFFF00000000) OR (val AND 0xFFFFFFFF)"

definition set_hi32 :: "u64 \<Rightarrow> u64 \<Rightarrow> u64" where
  "set_hi32 a val = (a AND 0x00000000FFFFFFFF) OR shl val 32"

text \<open>The device after the write, and whether it was \<open>QueueNotify\<close>.\<close>

definition VirtioBlk_store :: "virtio_blk \<Rightarrow> u64 \<Rightarrow> nat \<Rightarrow> u64 \<Rightarrow> virtio_blk \<times> bool" where
  "VirtioBlk_store d off width val =
    (if off = 0x014 then (d\<lparr>device_features_sel := ucast val\<rparr>, False)
     else if off = 0x020 then
       (let sel = unat (driver_features_sel d)
        in (if sel < 2 then d\<lparr>driver_features := (driver_features d)[sel := ucast val]\<rparr> else d, False))
     else if off = 0x024 then (d\<lparr>driver_features_sel := ucast val\<rparr>, False)
     else if off = 0x030 then (d, False)
     else if off = 0x038 then (d\<lparr>queue_num := min (ucast val) (ucast QUEUE_SIZE)\<rparr>, False)
     else if off = 0x044 then (d\<lparr>queue_ready := ucast val\<rparr>, False)
     else if off = 0x050 then (d, True)
     else if off = 0x064 then (d\<lparr>irq_status := irq_status d AND NOT (ucast val)\<rparr>, False)
     else if off = 0x070 then
       (let d = d\<lparr>device_status := ucast val\<rparr>
        in (if val = 0 then VirtioBlk_reset d else d, False))
     else if off = 0x080 then (d\<lparr>desc_addr := set_lo32 (desc_addr d) val\<rparr>, False)
     else if off = 0x084 then (d\<lparr>desc_addr := set_hi32 (desc_addr d) val\<rparr>, False)
     else if off = 0x090 then (d\<lparr>avail_addr := set_lo32 (avail_addr d) val\<rparr>, False)
     else if off = 0x094 then (d\<lparr>avail_addr := set_hi32 (avail_addr d) val\<rparr>, False)
     else if off = 0x0a0 then (d\<lparr>used_addr := set_lo32 (used_addr d) val\<rparr>, False)
     else if off = 0x0a4 then (d\<lparr>used_addr := set_hi32 (used_addr d) val\<rparr>, False)
     else (d, False))"

section \<open>Guest RAM access\<close>

definition r16 :: "u8 list \<Rightarrow> u64 \<Rightarrow> u64 \<Rightarrow> u16 option" where
  "r16 ram base addr =
    (let o' = unat (addr - base) in map_option (\<lambda>bs. ucast (from_le_bytes bs)) (slice ram o' 2))"

definition r32 :: "u8 list \<Rightarrow> u64 \<Rightarrow> u64 \<Rightarrow> u32 option" where
  "r32 ram base addr =
    (let o' = unat (addr - base) in map_option (\<lambda>bs. ucast (from_le_bytes bs)) (slice ram o' 4))"

definition r64 :: "u8 list \<Rightarrow> u64 \<Rightarrow> u64 \<Rightarrow> u64 option" where
  "r64 ram base addr =
    (let o' = unat (addr - base) in map_option from_le_bytes (slice ram o' 8))"

definition w8 :: "u8 list \<Rightarrow> u64 \<Rightarrow> u64 \<Rightarrow> u8 \<Rightarrow> u8 list option" where
  "w8 ram base addr val =
    (let o' = unat (addr - base) in if o' < length ram then Some (ram[o' := val]) else None)"

definition w16 :: "u8 list \<Rightarrow> u64 \<Rightarrow> u64 \<Rightarrow> u16 \<Rightarrow> u8 list option" where
  "w16 ram base addr val =
    (let o' = unat (addr - base) in copy_into ram o' (to_le_bytes 2 (ucast val)))"

definition w32 :: "u8 list \<Rightarrow> u64 \<Rightarrow> u64 \<Rightarrow> u32 \<Rightarrow> u8 list option" where
  "w32 ram base addr val =
    (let o' = unat (addr - base) in copy_into ram o' (to_le_bytes 4 (ucast val)))"

section \<open>Requests\<close>

text \<open>The descriptor chain from \<open>idx\<close>, at most \<open>n\<close> of them: \<open>(addr, len, flags)\<close> of each.\<close>

fun desc_chain :: "nat \<Rightarrow> u8 list \<Rightarrow> u64 \<Rightarrow> u64 \<Rightarrow> nat \<Rightarrow> (u64 \<times> u32 \<times> u16) list option" where
  "desc_chain 0 ram base table idx = Some []"
| "desc_chain (Suc n) ram base table idx = do {
     let b = table + of_nat idx * 16;
     addr \<leftarrow> r64 ram base b;
     len \<leftarrow> r32 ram base (b + 8);
     flags \<leftarrow> r16 ram base (b + 12);
     nxt \<leftarrow> r16 ram base (b + 14);
     if flags AND DESC_F_NEXT = 0 then Some [(addr, len, flags)]
     else do {
       rest \<leftarrow> desc_chain n ram base table (unat nxt);
       Some ((addr, len, flags) # rest)
     }
   }"

text \<open>The range check of a data buffer; its subtraction wraps.\<close>

definition buffer_refused :: "u8 list \<Rightarrow> u64 \<Rightarrow> u64 \<Rightarrow> u32 \<Rightarrow> bool" where
  "buffer_refused ram base addr len \<longleftrightarrow>
     addr < base \<or> addr - base > of_nat (length ram) - ucast len"

text \<open>The data loops of a read and of a write request.\<close>

fun in_loop :: "(u64 \<times> u32 \<times> u16) list \<Rightarrow> disk_file \<Rightarrow> u8 list \<Rightarrow> u64 \<Rightarrow> (disk_file \<times> u8 list \<times> bool) option" where
  "in_loop [] f ram base = Some (f, ram, True)"
| "in_loop ((addr, len, flags) # ds) f ram base =
    (if flags AND DESC_F_WRITE = 0 then in_loop ds f ram base
     else if buffer_refused ram base addr len then Some (f, ram, False)
     else
       let off = unat (addr - base) in
       if off + unat len \<le> length ram then
         (case file_read_exact f (unat len) of
           (f, got, ok) \<Rightarrow> do {
             ram \<leftarrow> copy_into ram off got;
             if ok then in_loop ds f ram base else Some (f, ram, False)
           })
       else None)"

fun out_loop :: "(u64 \<times> u32 \<times> u16) list \<Rightarrow> disk_file \<Rightarrow> u8 list \<Rightarrow> u64 \<Rightarrow> (disk_file \<times> bool) option" where
  "out_loop [] f ram base = Some (f, True)"
| "out_loop ((addr, len, flags) # ds) f ram base =
    (if flags AND DESC_F_WRITE \<noteq> 0 then out_loop ds f ram base
     else if buffer_refused ram base addr len then Some (f, False)
     else do {
       bs \<leftarrow> slice ram (unat (addr - base)) (unat len);
       case file_write_all f bs of
         (f, ok) \<Rightarrow> if ok then out_loop ds f ram base else Some (f, False)
     })"

definition do_request :: "virtio_blk \<Rightarrow> u8 list \<Rightarrow> u64 \<Rightarrow> nat \<Rightarrow> (virtio_blk \<times> u8 list) option" where
  "do_request d ram base head = do {
     descs \<leftarrow> desc_chain 16 ram base (desc_addr d) head;
     if length descs < 2 then Some (d, ram)
     else do {
       let hdr = fst (descs ! 0);
       req_type \<leftarrow> r32 ram base hdr;
       sector \<leftarrow> r64 ram base (hdr + 8);
       let status_addr = fst (descs ! (length descs - 1));
       let data_descs = butlast (tl descs);
       case disk d of
         None \<Rightarrow> do { ram \<leftarrow> w8 ram base status_addr S_IOERR; Some (d, ram) }
       | Some f \<Rightarrow>
           let byte_off = sector * SECTOR_SIZE in
           if req_type = T_IN then
             (case file_seek f byte_off of (f, seek_ok) \<Rightarrow>
               if \<not> seek_ok then do {
                 ram \<leftarrow> w8 ram base status_addr S_IOERR;
                 Some (d\<lparr>disk := Some f\<rparr>, ram)
               } else do {
                 (f, ram, ok) \<leftarrow> in_loop data_descs f ram base;
                 ram \<leftarrow> w8 ram base status_addr (if ok then S_OK else S_IOERR);
                 Some (d\<lparr>disk := Some f\<rparr>, ram)
               })
           else if req_type = T_OUT then
             (case file_seek f byte_off of (f, seek_ok) \<Rightarrow>
               if \<not> seek_ok then do {
                 ram \<leftarrow> w8 ram base status_addr S_IOERR;
                 Some (d\<lparr>disk := Some f\<rparr>, ram)
               } else do {
                 (f, ok) \<leftarrow> out_loop data_descs f ram base;
                 ram \<leftarrow> w8 ram base status_addr (if ok then S_OK else S_IOERR);
                 Some (d\<lparr>disk := Some f\<rparr>, ram)
               })
           else do {
             let ok = (req_type = T_FLUSH);
             ram \<leftarrow> w8 ram base status_addr (if ok then S_OK else S_IOERR);
             Some (d, ram)
           }
     }
   }"

text \<open>
  One iteration of the loop of \<open>process_queue\<close>: \<open>Inl\<close> when the ring is drained, \<open>Inr\<close> the state for
  the next iteration.
\<close>

definition queue_iter :: "virtio_blk \<Rightarrow> u8 list \<Rightarrow> u64 \<Rightarrow> (unit + virtio_blk \<times> u8 list) option" where
  "queue_iter d ram base = do {
     avail_idx \<leftarrow> r16 ram base (avail_addr d + 2);
     if last_avail_idx d = avail_idx then Some (Inl ())
     else do {
       let slot = ucast (last_avail_idx d mod QUEUE_SIZE);
       head \<leftarrow> r16 ram base (avail_addr d + 4 + slot * 2);
       (d, ram) \<leftarrow> do_request d ram base (unat head);
       used_idx \<leftarrow> r16 ram base (used_addr d + 2);
       let elem = used_addr d + 4 + ucast (used_idx mod QUEUE_SIZE) * 8;
       ram \<leftarrow> w32 ram base elem (ucast head);
       ram \<leftarrow> w32 ram base (elem + 4) 0;
       ram \<leftarrow> w16 ram base (used_addr d + 2) (used_idx + 1);
       Some (Inr (d\<lparr>last_avail_idx := last_avail_idx d + 1, irq_status := 1\<rparr>, ram))
     }
   }"

partial_function (option) queue_loop :: "virtio_blk \<Rightarrow> u8 list \<Rightarrow> u64 \<Rightarrow> (virtio_blk \<times> u8 list) option" where
  "queue_loop d ram base = do {
     r \<leftarrow> queue_iter d ram base;
     case r of Inl _ \<Rightarrow> Some (d, ram) | Inr (d, ram) \<Rightarrow> queue_loop d ram base
   }"

definition process_queue :: "virtio_blk \<Rightarrow> u8 list \<Rightarrow> u64 \<Rightarrow> (virtio_blk \<times> u8 list) option" where
  "process_queue d ram base =
    (if queue_ready d = 0 \<or> avail_addr d = 0 \<or> desc_addr d = 0 then Some (d, ram)
     else queue_loop d ram base)"

section \<open>Shape of the state\<close>

text \<open>DMA never changes the size of RAM, and a request changes no device register.\<close>

lemma ram_length_writes:
  "w8 ram base a v8 = Some r8 \<Longrightarrow> length r8 = length ram"
  "w16 ram base a v16 = Some r16' \<Longrightarrow> length r16' = length ram"
  "w32 ram base a v32 = Some r32' \<Longrightarrow> length r32' = length ram"
  by (auto simp: w8_def w16_def w32_def Let_def dest: copy_into_length split: if_splits)

lemma in_loop_length: "in_loop ds f ram base = Some (f', ram', ok) \<Longrightarrow> length ram' = length ram"
  by (induction ds f ram base arbitrary: f' ram' ok rule: in_loop.induct)
    (auto simp: Let_def copy_into_length split: if_splits prod.splits bind_splits)

lemma do_request_frame:
  assumes "do_request d ram base head = Some (d', ram')"
  shows "length ram' = length ram \<and> (\<exists>g. d' = d\<lparr>disk := g\<rparr>)"
  using assms
  by (auto simp: do_request_def Let_def ram_length_writes
      split: if_splits option.splits prod.splits bind_splits
      dest!: ram_length_writes in_loop_length intro: exI [of _ "disk d"])

lemma queue_iter_frame:
  assumes "queue_iter d ram base = Some (Inr (d', ram'))"
  shows "length ram' = length ram \<and>
    (\<exists>g. d' = d\<lparr>disk := g, last_avail_idx := last_avail_idx d + 1, irq_status := 1\<rparr>)"
  using assms
  by (auto simp: queue_iter_def Let_def split: if_splits prod.splits bind_splits
      dest!: ram_length_writes do_request_frame)

lemma queue_loop_length: "queue_loop d ram base = Some r \<Longrightarrow> length (snd r) = length ram"
proof (erule queue_loop.raw_induct [where P = "\<lambda>d ram base r. length (snd r) = length ram", rotated])
  fix loop d ram base r
  assume IH: "\<And>d ram base r. loop d ram base = Some r \<Longrightarrow> length (snd r) = length ram"
    and run: "(queue_iter d ram base \<bind> (\<lambda>q. case q of Inl _ \<Rightarrow> Some (d, ram)
      | Inr (d, ram) \<Rightarrow> loop d ram base)) = Some r"
  then obtain q where q: "queue_iter d ram base = Some q"
    by (auto split: bind_splits)
  show "length (snd r) = length ram"
  proof (cases q)
    case (Inl u)
    then show ?thesis using run q by auto
  next
    case (Inr p)
    then obtain d1 ram1 where "p = (d1, ram1)" by (cases p)
    then show ?thesis
      using run q Inr IH [of d1 ram1 base r] queue_iter_frame [of d ram base d1 ram1] by simp
  qed
qed

lemma process_queue_length:
  "process_queue d ram base = Some (d', ram') \<Longrightarrow> length ram' = length ram"
  by (auto simp: process_queue_def split: if_splits dest: queue_loop_length)

text \<open>\<open>n\<close> iterations of the loop.\<close>

fun queue_iters :: "nat \<Rightarrow> virtio_blk \<Rightarrow> u8 list \<Rightarrow> u64 \<Rightarrow> (virtio_blk \<times> u8 list) option" where
  "queue_iters 0 d ram base = Some (d, ram)"
| "queue_iters (Suc n) d ram base = do {
     r \<leftarrow> queue_iter d ram base;
     case r of Inl _ \<Rightarrow> None | Inr (d, ram) \<Rightarrow> queue_iters n d ram base
   }"

lemma queue_loop_iters:
  "queue_iters n d ram base = Some (d', ram') \<Longrightarrow> queue_loop d ram base = queue_loop d' ram' base"
proof (induction n arbitrary: d ram)
  case (Suc n)
  then show ?case
    by (subst queue_loop.simps) (auto split: bind_splits sum.splits)
qed simp

lemma queue_iters_frame:
  "queue_iters n d ram base = Some (d', ram') \<Longrightarrow>
    length ram' = length ram \<and> avail_addr d' = avail_addr d \<and> used_addr d' = used_addr d \<and>
    last_avail_idx d' = last_avail_idx d + of_nat n \<and> (n = 0 \<or> irq_status d' = 1)"
proof (induction n arbitrary: d ram)
  case (Suc n)
  then obtain d1 ram1 where 1: "queue_iter d ram base = Some (Inr (d1, ram1))"
    and 2: "queue_iters n d1 ram1 base = Some (d', ram')"
    by (auto split: bind_splits sum.splits)
  show ?case
    using queue_iter_frame [OF 1] Suc.IH [OF 2] 2 by (cases n) (auto simp: algebra_simps)
qed simp

section \<open>Read and write requests\<close>

lemma buffer_refused_iff:
  assumes "length ram < 2 ^ 63" "unat len \<le> length ram"
  shows "buffer_refused ram base addr len \<longleftrightarrow> addr < base \<or> length ram < unat (addr - base) + unat len"
proof -
  have n: "unat (of_nat (length ram) :: u64) = length ram"
    using assms(1) by (intro unat_of_nat_u64) simp
  have l: "unat (ucast len :: u64) = unat len"
    by (simp add: unat_ucast_up)
  have le: "(ucast len :: u64) \<le> of_nat (length ram)"
    unfolding word_le_nat_alt n l by (rule assms(2))
  have "buffer_refused ram base addr len \<longleftrightarrow> addr < base \<or> length ram - unat len < unat (addr - base)"
    unfolding buffer_refused_def word_less_nat_alt unat_sub [OF le] n l by (rule refl)
  then show ?thesis
    using assms(2) by (simp only:) linarith
qed

text \<open>
  A data request of three descriptors, header, buffer, status byte, with all of them in RAM and the
  buffer's direction flag as the request type wants it.
\<close>

definition data_request ::
  "virtio_blk \<Rightarrow> u8 list \<Rightarrow> u64 \<Rightarrow> nat \<Rightarrow> u32 \<Rightarrow> u64 \<Rightarrow> u64 \<Rightarrow> u32 \<Rightarrow> u64 \<Rightarrow> bool" where
  "data_request d ram base head ty sector buf len st \<longleftrightarrow>
    (case desc_chain 16 ram base (desc_addr d) head of
       None \<Rightarrow> False
     | Some ds \<Rightarrow> length ds = 3 \<and> r32 ram base (fst (ds ! 0)) = Some ty \<and>
         r64 ram base (fst (ds ! 0) + 8) = Some sector \<and>
         fst (ds ! 1) = buf \<and> fst (snd (ds ! 1)) = len \<and>
         (snd (snd (ds ! 1)) AND DESC_F_WRITE = 0) = (ty = T_OUT) \<and> fst (ds ! 2) = st) \<and>
    ty \<in> {T_IN, T_OUT} \<and> length ram < 2 ^ 63 \<and>
    base \<le> buf \<and> unat (buf - base) + unat len \<le> length ram \<and> unat (st - base) < length ram"

lemma data_requestE:
  assumes "data_request d ram base head ty sector buf len st"
  obtains hdr hl hf fl sl sf where
    "desc_chain 16 ram base (desc_addr d) head = Some [(hdr, hl, hf), (buf, len, fl), (st, sl, sf)]"
    "r32 ram base hdr = Some ty" "r64 ram base (hdr + 8) = Some sector"
    "(fl AND DESC_F_WRITE = 0) = (ty = T_OUT)"
    "base \<le> buf" "unat (buf - base) + unat len \<le> length ram" "unat (st - base) < length ram"
    "buffer_refused ram base buf len = False"
proof -
  have refused: "buffer_refused ram base buf len = False"
    using assms by (simp add: data_request_def buffer_refused_iff not_less)
  obtain ds where ds: "desc_chain 16 ram base (desc_addr d) head = Some ds" and "length ds = 3"
    using assms by (auto simp: data_request_def split: option.splits)
  then obtain hdr hl hf b l fl t sl sf where "ds = [(hdr, hl, hf), (b, l, fl), (t, sl, sf)]"
    by (auto simp: length_Suc_conv numeral_3_eq_3)
  with ds show thesis
    using assms that [of hdr hl hf fl sl sf] refused by (auto simp: data_request_def)
qed

text \<open>A disk that holds the sectors asked for and has no fault ahead.\<close>

definition disk_serves :: "disk_file \<Rightarrow> u64 \<Rightarrow> u32 \<Rightarrow> bool" where
  "disk_serves f sector len \<longleftrightarrow>
    f_faults f = [] \<and> unat sector * 512 + unat len \<le> length (f_data f) \<and> unat sector * 512 < 2 ^ 63"

lemma sector_offset:
  assumes "unat sector * 512 < 2 ^ 63"
  shows "unat (sector * SECTOR_SIZE) = unat sector * 512" "sector * SECTOR_SIZE < 0x8000000000000000"
proof -
  show *: "unat (sector * SECTOR_SIZE) = unat sector * 512"
    using assms by (simp add: SECTOR_SIZE_def unat_mult_lem [THEN iffD1])
  show "sector * SECTOR_SIZE < 0x8000000000000000"
    using assms by (simp add: word_less_nat_alt *)
qed

lemma file_seek_ok:
  "disk_serves f sector len \<Longrightarrow>
    file_seek f (sector * SECTOR_SIZE) = (f\<lparr>f_pos := unat sector * 512\<rparr>, True)"
  by (simp add: disk_serves_def file_seek_def next_fault_def sector_offset)

lemma file_read_ok:
  assumes "f_faults f = []" "f_pos f + n \<le> length (f_data f)"
  shows "file_read_exact f n = (f\<lparr>f_pos := f_pos f + n\<rparr>, take n (drop (f_pos f) (f_data f)), True)"
  using assms by (simp add: file_read_exact_def next_fault_def Let_def)

lemma file_write_ok:
  assumes "f_faults f = []" "f_pos f + length bs \<le> length (f_data f)"
  shows "file_write_all f bs = (f\<lparr>f_data := take (f_pos f) (f_data f) @ bs @
    drop (f_pos f + length bs) (f_data f), f_pos := f_pos f + length bs\<rparr>, True)"
  using assms by (simp add: file_write_all_def next_fault_def Let_def)

lemma do_request_read:
  assumes "data_request d ram base head T_IN sector buf len st"
    and "disk d = Some f" and "disk_serves f sector len"
  shows "do_request d ram base head =
    Some (d\<lparr>disk := Some (f\<lparr>f_pos := unat sector * 512 + unat len\<rparr>)\<rparr>,
      (take (unat (buf - base)) ram @ take (unat len) (drop (unat sector * 512) (f_data f)) @
       drop (unat (buf - base) + unat len) ram)[unat (st - base) := S_OK])"
proof -
  obtain hdr hl hf fl sl sf where
    "desc_chain 16 ram base (desc_addr d) head = Some [(hdr, hl, hf), (buf, len, fl), (st, sl, sf)]"
    "r32 ram base hdr = Some T_IN" "r64 ram base (hdr + 8) = Some sector"
    "(fl AND DESC_F_WRITE = 0) = (T_IN = T_OUT)"
    "base \<le> buf" "unat (buf - base) + unat len \<le> length ram" "unat (st - base) < length ram"
    "buffer_refused ram base buf len = False"
    using assms(1) by (rule data_requestE)
  then show ?thesis
    using assms(2,3) file_seek_ok [OF assms(3)]
    by (simp add: do_request_def file_read_ok disk_serves_def copy_into_fits length_take_drop w8_def
        virtio_consts Let_def del: length_take) simp
qed

lemma do_request_write:
  assumes "data_request d ram base head T_OUT sector buf len st"
    and "disk d = Some f" and "disk_serves f sector len"
  shows "do_request d ram base head =
    Some (d\<lparr>disk := Some (f\<lparr>f_data := take (unat sector * 512) (f_data f) @
        take (unat len) (drop (unat (buf - base)) ram) @
        drop (unat sector * 512 + unat len) (f_data f),
        f_pos := unat sector * 512 + unat len\<rparr>)\<rparr>, ram[unat (st - base) := S_OK])"
proof -
  obtain hdr hl hf fl sl sf where
    "desc_chain 16 ram base (desc_addr d) head = Some [(hdr, hl, hf), (buf, len, fl), (st, sl, sf)]"
    "r32 ram base hdr = Some T_OUT" "r64 ram base (hdr + 8) = Some sector"
    "(fl AND DESC_F_WRITE = 0) = (T_OUT = T_OUT)"
    "base \<le> buf" "unat (buf - base) + unat len \<le> length ram" "unat (st - base) < length ram"
    "buffer_refused ram base buf len = False"
    using assms(1) by (rule data_requestE)
  then show ?thesis
    using assms(2,3) file_seek_ok [OF assms(3)]
    by (simp add: do_request_def file_write_ok disk_serves_def slice_fits length_take_drop w8_def
        virtio_consts Let_def del: length_take)
qed

section \<open>Properties\<close>

text \<open>
  A small guest memory for the witnesses: at \<open>0x80000000\<close> a chain of three descriptors, the request
  header at offset 48, a four-byte buffer at 64, the status byte at 68.
\<close>

definition demo_ram :: "u8 \<Rightarrow> u8 \<Rightarrow> u8 list \<Rightarrow> u8 list" where
  "demo_ram ty flags buf =
    [48, 0, 0, 0x80, 0, 0, 0, 0, 16, 0, 0, 0, 1, 0, 1, 0,
     64, 0, 0, 0x80, 0, 0, 0, 0, 4, 0, 0, 0, flags, 0, 2, 0,
     68, 0, 0, 0x80, 0, 0, 0, 0, 1, 0, 0, 0, 2, 0, 0, 0,
     ty, 0, 0, 0, 0, 0, 0, 0, 0, 0, 0, 0, 0, 0, 0, 0] @ buf @ [0xFF, 0, 0, 0]"

definition demo_disk :: "u8 list \<Rightarrow> disk_file" where
  "demo_disk bs = \<lparr>f_data = bs, f_pos = 0, f_faults = []\<rparr>"

definition demo_blk :: "u8 list \<Rightarrow> virtio_blk" where
  "demo_blk bs = (VirtioBlk_new (Some (demo_disk bs)))\<lparr>desc_addr := 0x80000000\<rparr>"

lemmas desc_chain_numeral =
  desc_chain.simps(2) [where n = "pred_numeral k" for k, folded numeral_eq_Suc]

lemmas chain_eval = desc_chain_numeral r16_def r32_def r64_def slice_def virtio_consts Let_def
  demo_ram_def demo_disk_def demo_blk_def VirtioBlk_new_def

text \<open>
  C24. A read request delivers the disk's bytes: the buffer in guest RAM holds the bytes of the
  sectors asked for, the status byte says success, every other byte of RAM is as it was, and so are
  the disk's contents.
\<close>

theorem read_request_effect:
  assumes "data_request d ram base head T_IN sector buf len st"
    and "disk d = Some f" and "disk_serves f sector len"
    and "do_request d ram base head = r" and "i < length ram"
  shows "\<exists>d' ram'. r = Some (d', ram') \<and> map_option f_data (disk d') = Some (f_data f) \<and>
    length ram' = length ram \<and>
    ram' ! i = (if i = unat (st - base) then S_OK
      else if unat (buf - base) \<le> i \<and> i < unat (buf - base) + unat len
      then f_data f ! (unat sector * 512 + (i - unat (buf - base))) else ram ! i)"
proof -
  have "unat (buf - base) + unat len \<le> length ram"
    using assms(1) by (simp add: data_request_def)
  then show ?thesis
    using do_request_read [OF assms(1-3)] assms(3-5)
    by (auto simp: disk_serves_def nth_list_update nth_append)
qed

theorem read_request_effect_witness:
  "do_request (demo_blk [1, 2, 3, 4, 5]) (demo_ram 0 3 [0, 0, 0, 0]) 0x80000000 0 \<noteq> None"
proof -
  have "data_request (demo_blk [1, 2, 3, 4, 5]) (demo_ram 0 3 [0, 0, 0, 0]) 0x80000000 0 T_IN 0
      0x80000040 4 0x80000044"
    by (simp add: data_request_def chain_eval cong: bind_eval)
  moreover have "disk (demo_blk [1, 2, 3, 4, 5]) = Some (demo_disk [1, 2, 3, 4, 5])"
    by (simp add: demo_blk_def VirtioBlk_new_def)
  moreover have "disk_serves (demo_disk [1, 2, 3, 4, 5]) 0 4"
    by (simp add: disk_serves_def demo_disk_def)
  moreover have "0 < length (demo_ram 0 3 [0, 0, 0, 0])"
    by (simp add: demo_ram_def)
  ultimately show ?thesis
    using read_request_effect [OF _ _ _ refl] by blast
qed

text \<open>
  C22. What a write request stores, a later read request of the same sectors returns: whatever the
  guest does to its memory in between, the buffer of the second request ends up with the bytes the
  first request's buffer held, and both report success.
\<close>

theorem write_then_read:
  assumes "data_request d ram base h T_OUT sector buf len st"
    and "disk d = Some f" and "disk_serves f sector len"
    and "do_request d ram base h = Some (d1, ram1)"
    and "data_request d1 ram2 base h' T_IN sector buf' len st'"
    and "do_request d1 ram2 base h' = Some (d2, ram3)"
    and "unat (st' - base) < unat (buf' - base) \<or> unat (buf' - base) + unat len \<le> unat (st' - base)"
  shows "slice ram3 (unat (buf' - base)) (unat len) = slice ram (unat (buf - base)) (unat len) \<and>
    ram1 ! unat (st - base) = S_OK \<and> ram3 ! unat (st' - base) = S_OK"
proof -
  let ?p = "unat sector * 512" and ?n = "unat len"
  define f1 where "f1 = f\<lparr>f_data := take ?p (f_data f) @ take ?n (drop (unat (buf - base)) ram) @
    drop (?p + ?n) (f_data f), f_pos := ?p + ?n\<rparr>"
  have fits: "unat (buf - base) + ?n \<le> length ram" "unat (st - base) < length ram"
    "unat (buf' - base) + ?n \<le> length ram2" "unat (st' - base) < length ram2"
    using assms(1,5) by (simp_all add: data_request_def)
  have d1: "disk d1 = Some f1" and ram1: "ram1 = ram[unat (st - base) := S_OK]"
    using do_request_write [OF assms(1-3)] assms(4) by (auto simp: f1_def)
  have serves: "disk_serves f1 sector len"
    using assms(3) fits by (auto simp: disk_serves_def f1_def)
  have same: "take ?n (drop ?p (f_data f1)) = take ?n (drop (unat (buf - base)) ram)"
    using assms(3) fits by (simp add: disk_serves_def f1_def)
  have ram3: "ram3 = (take (unat (buf' - base)) ram2 @ take ?n (drop (unat (buf - base)) ram) @
      drop (unat (buf' - base) + ?n) ram2)[unat (st' - base) := S_OK]"
    using do_request_read [OF assms(5) d1 serves] assms(6) same by simp
  have "take ?n (drop (unat (buf' - base)) ram3) = take ?n (drop (unat (buf - base)) ram)"
    using fits assms(7) unfolding ram3
    by (intro nth_equalityI) (auto simp: nth_list_update nth_append)
  then show ?thesis
    using fits ram1 by (simp add: slice_def ram3)
qed

theorem write_then_read_witness:
  "\<exists>d1 ram1 d2 ram3.
    do_request (demo_blk [1, 2, 3, 4, 5]) (demo_ram 1 1 [7, 8, 9, 10]) 0x80000000 0 = Some (d1, ram1) \<and>
    do_request d1 (demo_ram 0 3 [0, 0, 0, 0]) 0x80000000 0 = Some (d2, ram3) \<and>
    slice ram3 64 4 = Some [7, 8, 9, 10]"
proof -
  let ?d = "demo_blk [1, 2, 3, 4, 5]" and ?r = "demo_ram 1 1 [7, 8, 9, 10]"
    and ?r2 = "demo_ram 0 3 [0, 0, 0, 0]"
  have q: "data_request ?d ?r 0x80000000 0 T_OUT 0 0x80000040 4 0x80000044"
    by (simp add: data_request_def chain_eval cong: bind_eval)
  have f: "disk ?d = Some (demo_disk [1, 2, 3, 4, 5])"
    by (simp add: demo_blk_def VirtioBlk_new_def)
  have s: "disk_serves (demo_disk [1, 2, 3, 4, 5]) 0 4"
    by (simp add: disk_serves_def demo_disk_def)
  obtain d1 ram1 f1 where w: "do_request ?d ?r 0x80000000 0 = Some (d1, ram1)"
    and d1: "d1 = ?d\<lparr>disk := Some f1\<rparr>" "f1 = \<lparr>f_data = [7, 8, 9, 10, 5], f_pos = 4, f_faults = []\<rparr>"
    using do_request_write [OF q f s] by (simp add: demo_ram_def demo_disk_def)
  have q2: "data_request d1 ?r2 0x80000000 0 T_IN 0 0x80000040 4 0x80000044"
    by (simp add: d1 data_request_def chain_eval cong: bind_eval)
  have s2: "disk_serves f1 0 4"
    by (simp add: disk_serves_def d1)
  obtain d2 ram3 where r: "do_request d1 ?r2 0x80000000 0 = Some (d2, ram3)"
    using do_request_read [OF q2 _ s2] d1 by simp
  have "slice ram3 64 4 = slice ?r 64 4"
    using write_then_read [OF q f s w q2 r] by simp
  then show ?thesis
    using w r by (simp add: slice_def demo_ram_def)
qed

text \<open>
  C23. The queue is drained and the loop ends: if every one of the
  \<open>n = avail - last_avail_idx (mod 2^16)\<close> iterations the driver has asked for goes through
  and leaves the driver's index at \<open>avail\<close>, a notification performs exactly these \<open>n\<close> iterations,
  catches up with the driver's index and raises the device's interrupt (when \<open>n\<close> is not 0).
\<close>

theorem queue_drains:
  assumes ready: "queue_ready d \<noteq> 0" "avail_addr d \<noteq> 0" "desc_addr d \<noteq> 0"
    and run: "\<And>k. k \<le> unat (avail - last_avail_idx d) \<Longrightarrow>
      \<exists>d' ram'. queue_iters k d ram base = Some (d', ram') \<and>
        r16 ram' base (avail_addr d + 2) = Some avail"
  shows "\<exists>d' ram'. process_queue d ram base = Some (d', ram') \<and>
    queue_iters (unat (avail - last_avail_idx d)) d ram base = Some (d', ram') \<and>
    last_avail_idx d' = avail \<and> (avail = last_avail_idx d \<or> irq_status d' = 1)"
proof -
  let ?n = "unat (avail - last_avail_idx d)"
  obtain d' ram' where n: "queue_iters ?n d ram base = Some (d', ram')"
    and r: "r16 ram' base (avail_addr d + 2) = Some avail"
    using run [of ?n] by blast
  have f: "avail_addr d' = avail_addr d" "last_avail_idx d' = avail" "?n = 0 \<or> irq_status d' = 1"
    using queue_iters_frame [OF n] by simp_all
  have "queue_iter d' ram' base = Some (Inl ())"
    using r f by (simp add: queue_iter_def)
  then have "queue_loop d' ram' base = Some (d', ram')"
    by (simp add: queue_loop.simps)
  then have "process_queue d ram base = Some (d', ram')"
    using ready queue_loop_iters [OF n] by (simp add: process_queue_def)
  then show ?thesis
    using n f by (auto simp: unat_eq_0)
qed

definition demo_queue :: "virtio_blk" where
  "demo_queue = (demo_blk [1, 2, 3, 4, 5])\<lparr>queue_ready := 1, avail_addr := 0x80000048,
     used_addr := 0x80000050\<rparr>"

definition demo_queue_ram :: "u8 list" where
  "demo_queue_ram = demo_ram 0 3 [0, 0, 0, 0] @ [0, 0, 1, 0, 0, 0, 0, 0] @
     [0, 0, 0, 0, 9, 9, 9, 9, 9, 9, 9, 9]"

lemma demo_queue_iter:
  "\<exists>d'. queue_iter demo_queue demo_queue_ram 0x80000000 = Some (Inr (d',
     (demo_ram 0 3 [1, 2, 3, 4])[68 := 0] @ [0, 0, 1, 0, 0, 0, 0, 0] @ [0, 0, 1, 0, 0, 0, 0, 0, 0, 0, 0, 0]))"
proof -
  have q: "data_request demo_queue demo_queue_ram 0x80000000 0 T_IN 0 0x80000040 4 0x80000044"
    by (simp add: data_request_def chain_eval demo_queue_def demo_queue_ram_def cong: bind_eval)
  have sel: "disk demo_queue = Some (demo_disk [1, 2, 3, 4, 5])" "avail_addr demo_queue = 0x80000048"
    "used_addr demo_queue = 0x80000050" "last_avail_idx demo_queue = 0"
    by (simp_all add: demo_queue_def demo_blk_def VirtioBlk_new_def)
  have s: "disk_serves (demo_disk [1, 2, 3, 4, 5]) 0 4"
    by (simp add: demo_disk_def disk_serves_def)
  define ram1 where "ram1 = (demo_ram 0 3 [1, 2, 3, 4])[68 := 0] @ [0, 0, 1, 0, 0, 0, 0, 0] @
      [0, 0, 0, 0, 9, 9, 9, 9, 9, 9, 9, 9]"
  have req: "do_request demo_queue demo_queue_ram 0x80000000 0 =
      Some (demo_queue\<lparr>disk := Some \<lparr>f_data = [1, 2, 3, 4, 5], f_pos = 4, f_faults = []\<rparr>\<rparr>, ram1)"
    using do_request_read [OF q sel(1) s]
    by (simp add: demo_queue_ram_def demo_ram_def demo_disk_def ram1_def S_OK_def)
  have rd: "r16 demo_queue_ram 0x80000000 0x8000004A = Some 1"
    "r16 demo_queue_ram 0x80000000 0x8000004C = Some 0" "r16 ram1 0x80000000 0x80000052 = Some 0"
    by (simp_all add: r16_def slice_def demo_queue_ram_def ram1_def demo_ram_def)
  show ?thesis
    by (simp add: queue_iter_def sel req rd QUEUE_SIZE_def Let_def cong: bind_eval)
      (simp add: w16_def w32_def copy_into_def to_le_bytes_numeral ram1_def demo_ram_def sel Let_def
        cong: bind_eval)
qed

theorem queue_drains_witness:
  "\<exists>d' ram'. process_queue demo_queue demo_queue_ram 0x80000000 = Some (d', ram') \<and>
    last_avail_idx d' = 1 \<and> irq_status d' = 1"
proof -
  obtain d' where i: "queue_iter demo_queue demo_queue_ram 0x80000000 = Some (Inr (d',
     (demo_ram 0 3 [1, 2, 3, 4])[68 := 0] @ [0, 0, 1, 0, 0, 0, 0, 0] @ [0, 0, 1, 0, 0, 0, 0, 0, 0, 0, 0, 0]))"
    using demo_queue_iter by blast
  have "\<exists>d' ram'. queue_iters k demo_queue demo_queue_ram 0x80000000 = Some (d', ram') \<and>
      r16 ram' 0x80000000 (avail_addr demo_queue + 2) = Some 1" if "k \<le> 1" for k
    using that i
    by (cases k) (auto simp: demo_queue_def demo_queue_ram_def demo_ram_def demo_blk_def r16_def slice_def)
  moreover have "queue_ready demo_queue \<noteq> 0" "avail_addr demo_queue \<noteq> 0" "desc_addr demo_queue \<noteq> 0"
    "last_avail_idx demo_queue = 0"
    by (simp_all add: demo_queue_def demo_blk_def VirtioBlk_new_def)
  ultimately show ?thesis
    using queue_drains [of demo_queue 1 demo_queue_ram "0x80000000"] by auto
qed

lemma halves: "set_hi32 (set_lo32 a v) (shr v 32) = v" "set_lo32 (set_hi32 a (shr v 32)) v = v"
  unfolding set_lo32_def set_hi32_def by (rule word64_eqI, simp add: enum_bits)+

text \<open>
  The driver programs each of the three 64-bit queue addresses in halves: after both writes,
  whatever the register held, it holds the address, and writing the low half last gives the same.
\<close>

lemma queue_address_in_halves:
  "desc_addr (fst (VirtioBlk_store (fst (VirtioBlk_store d 0x080 4 v)) 0x084 4 (shr v 32))) = v \<and>
   avail_addr (fst (VirtioBlk_store (fst (VirtioBlk_store d 0x090 4 v)) 0x094 4 (shr v 32))) = v \<and>
   used_addr (fst (VirtioBlk_store (fst (VirtioBlk_store d 0x0a0 4 v)) 0x0a4 4 (shr v 32))) = v \<and>
   desc_addr (fst (VirtioBlk_store (fst (VirtioBlk_store d 0x084 4 (shr v 32))) 0x080 4 v)) = v \<and>
   avail_addr (fst (VirtioBlk_store (fst (VirtioBlk_store d 0x094 4 (shr v 32))) 0x090 4 v)) = v \<and>
   used_addr (fst (VirtioBlk_store (fst (VirtioBlk_store d 0x0a4 4 (shr v 32))) 0x0a0 4 v)) = v"
  by (simp add: VirtioBlk_store_def halves)


text \<open>
  A descriptor whose length exceeds RAM defeats the range check, because its subtraction wraps, and
  the slice that follows panics: a guest can stop the emulator with one request.
\<close>

lemma overlong_buffer_panics:
  "in_loop [(0x80000000, 0x100, 2)] (demo_disk [1]) [0, 0, 0, 0] 0x80000000 = None"
  by (simp add: buffer_refused_def virtio_consts)

end
