(* ===== verification/Bus.thy ===== *)
theory Bus
  imports Clint Plic Uart VirtioBlk
begin

text \<open>
  The system bus: \<open>src/bus.rs\<close>.  It owns guest RAM and the four devices and routes an access by
  its address.  A fault is the source's \<open>anyhow\<close> error with the address and the width it prints;
  an unsupported width and an out-of-range slice panic (\<open>None\<close>).  Loads return the new bus,
  because a device read can change the device.
\<close>

datatype bus_fault = BusFault u64 nat

record bus =
  ram :: "u8 list"
  ram_base :: u64
  clint :: clint
  uart :: uart
  plic :: plic
  virtio_blk :: virtio_blk

definition Bus_new :: "nat \<Rightarrow> u64 \<Rightarrow> bus" where
  "Bus_new sz base = \<lparr>ram = replicate sz 0, ram_base = base, clint = Clint_new,
     uart = Uart_new, plic = Plic_new, virtio_blk = VirtioBlk_new None\<rparr>"

definition checked_add :: "u64 \<Rightarrow> u64 \<Rightarrow> u64 option" where
  "checked_add a b = (if unat a + unat b < 2 ^ 64 then Some (a + b) else None)"

definition Bus_offset :: "bus \<Rightarrow> u64 \<Rightarrow> nat \<Rightarrow> bus_fault + nat" where
  "Bus_offset b addr width =
    (case checked_add addr (of_nat width) of
      None \<Rightarrow> Inl (BusFault addr width)
    | Some end' \<Rightarrow>
        let ram_end = ram_base b + of_nat (length (ram b))
        in if addr < ram_base b \<or> end' > ram_end then Inl (BusFault addr width)
           else Inr (unat (addr - ram_base b)))"

definition Bus_load :: "bus \<Rightarrow> u64 \<Rightarrow> nat \<Rightarrow> (bus \<times> (bus_fault + u64)) option" where
  "Bus_load b addr width =
    (if 0x02000000 \<le> addr \<and> addr \<le> 0x0200FFFF then
       Some (b, Inr (Clint_load (clint b) addr width))
     else if 0x0C000000 \<le> addr \<and> addr \<le> 0x0FFFFFFF then
       (case Plic_load (plic b) addr width of (p, v) \<Rightarrow> Some (b\<lparr>plic := p\<rparr>, Inr v))
     else if 0x10000000 \<le> addr \<and> addr \<le> 0x100000FF then
       (case Uart_load (uart b) addr width of (u, v) \<Rightarrow> Some (b\<lparr>uart := u\<rparr>, Inr v))
     else if 0x10001000 \<le> addr \<and> addr \<le> 0x100011FF then
       Some (b, Inr (VirtioBlk_load (virtio_blk b) (addr - 0x10001000) width))
     else
       (case Bus_offset b addr width of
         Inl e \<Rightarrow> Some (b, Inl e)
       | Inr off \<Rightarrow>
           if width \<in> {1, 2, 4, 8} then do {
             bs \<leftarrow> slice (ram b) off width;
             Some (b, Inr (from_le_bytes bs))
           } else None))"

definition Bus_store :: "bus \<Rightarrow> u64 \<Rightarrow> nat \<Rightarrow> u64 \<Rightarrow> (bus \<times> (bus_fault + unit)) option" where
  "Bus_store b addr width val =
    (if 0x02000000 \<le> addr \<and> addr \<le> 0x0200FFFF then
       Some (b\<lparr>clint := Clint_store (clint b) addr width val\<rparr>, Inr ())
     else if 0x0C000000 \<le> addr \<and> addr \<le> 0x0FFFFFFF then
       Some (b\<lparr>plic := Plic_store (plic b) addr width val\<rparr>, Inr ())
     else if 0x10000000 \<le> addr \<and> addr \<le> 0x100000FF then
       Some (b\<lparr>uart := Uart_store (uart b) addr width val\<rparr>, Inr ())
     else if 0x10001000 \<le> addr \<and> addr \<le> 0x100011FF then
       (case VirtioBlk_store (virtio_blk b) (addr - 0x10001000) width val of
         (d, notify) \<Rightarrow>
           if notify then do {
             (d, r) \<leftarrow> process_queue d (ram b) (ram_base b);
             Some (b\<lparr>virtio_blk := d, ram := r\<rparr>, Inr ())
           } else Some (b\<lparr>virtio_blk := d\<rparr>, Inr ()))
     else
       (case Bus_offset b addr width of
         Inl e \<Rightarrow> Some (b, Inl e)
       | Inr off \<Rightarrow>
           if width \<in> {1, 2, 4, 8} then do {
             r \<leftarrow> copy_into (ram b) off (to_le_bytes width val);
             Some (b\<lparr>ram := r\<rparr>, Inr ())
           } else None))"

section \<open>The memory map\<close>

definition device_addr :: "u64 \<Rightarrow> bool" where
  "device_addr a \<longleftrightarrow> (0x02000000 \<le> a \<and> a \<le> 0x0200FFFF) \<or> (0x0C000000 \<le> a \<and> a \<le> 0x0FFFFFFF) \<or>
     (0x10000000 \<le> a \<and> a \<le> 0x100000FF) \<or> (0x10001000 \<le> a \<and> a \<le> 0x100011FF)"

text \<open>
  The bus the program builds: RAM lies above the devices, below \<open>2^63\<close>, and the interrupt
  controller has its array sizes.
\<close>

definition bus_wf :: "bus \<Rightarrow> bool" where
  "bus_wf b \<longleftrightarrow> plic_wf (plic b) \<and> 0x10001200 \<le> ram_base b \<and>
     unat (ram_base b) + length (ram b) < 2 ^ 63"

text \<open>\<open>n\<close> bytes of RAM from \<open>a\<close>.\<close>

definition in_ram :: "bus \<Rightarrow> u64 \<Rightarrow> nat \<Rightarrow> bool" where
  "in_ram b a n \<longleftrightarrow> ram_base b \<le> a \<and> unat (a - ram_base b) + n \<le> length (ram b)"

lemma in_ram_not_device: "bus_wf b \<Longrightarrow> in_ram b a n \<Longrightarrow> \<not> device_addr a"
  by (auto simp: bus_wf_def in_ram_def device_addr_def word_le_nat_alt)

lemma Bus_offset_eq:
  assumes "bus_wf b" and "width \<le> 8"
  shows "Bus_offset b addr width =
    (if in_ram b addr width then Inr (unat (addr - ram_base b)) else Inl (BusFault addr width))"
proof -
  have w: "unat (of_nat width :: u64) = width"
    using assms(2) by (intro unat_of_nat_u64) simp
  have l: "unat (of_nat (length (ram b)) :: u64) = length (ram b)"
    using assms(1) by (intro unat_of_nat_u64) (simp add: bus_wf_def)
  have re: "unat (ram_base b + of_nat (length (ram b))) = unat (ram_base b) + length (ram b)"
    using assms(1) l by (subst unat_add_lem [THEN iffD1]) (auto simp: bus_wf_def)
  have sub: "ram_base b \<le> addr \<Longrightarrow> unat (addr - ram_base b) = unat addr - unat (ram_base b)"
    by (rule unat_sub)
  show ?thesis
  proof (cases "unat addr + width < 2 ^ 64")
    case True
    then have "unat (addr + of_nat width) = unat addr + width"
      using w by (subst unat_add_lem [THEN iffD1]) auto
    then show ?thesis
      using True w re sub
      by (auto simp: Bus_offset_def checked_add_def Let_def in_ram_def word_le_nat_alt word_less_nat_alt)
  next
    case False
    then have "\<not> in_ram b addr width"
      using assms(1) sub by (auto simp: in_ram_def bus_wf_def word_le_nat_alt)
    then show ?thesis
      using False w by (simp add: Bus_offset_def checked_add_def)
  qed
qed

lemma from_le_bytes_prefix:
  "n + p \<le> length xs \<Longrightarrow> map (\<lambda>i. xs ! (p + i)) [0..<n] = take n (drop p xs)"
  by (intro nth_equalityI) auto

lemma Bus_load_ram:
  assumes "bus_wf b" "in_ram b a n" "n \<in> {1, 2, 4, 8}"
  shows "Bus_load b a n =
    Some (b, Inr (from_le_bytes (take n (drop (unat (a - ram_base b)) (ram b)))))"
  using in_ram_not_device [OF assms(1,2)] assms Bus_offset_eq [of b n a]
  by (auto simp: Bus_load_def device_addr_def in_ram_def slice_fits)

lemma Bus_store_ram:
  assumes "bus_wf b" "in_ram b a n" "n \<in> {1, 2, 4, 8}"
  shows "Bus_store b a n v =
    Some (b\<lparr>ram := take (unat (a - ram_base b)) (ram b) @ to_le_bytes n v @
      drop (unat (a - ram_base b) + n) (ram b)\<rparr>, Inr ())"
  using in_ram_not_device [OF assms(1,2)] assms Bus_offset_eq [of b n a]
  by (auto simp: Bus_store_def device_addr_def in_ram_def copy_into_fits)

text \<open>An access that is neither to a device nor to RAM is refused and changes nothing.\<close>

lemma Bus_fault:
  assumes "bus_wf b" "\<not> device_addr a" "\<not> in_ram b a n" "n \<le> 8"
  shows "Bus_load b a n = Some (b, Inl (BusFault a n))"
    and "Bus_store b a n v = Some (b, Inl (BusFault a n))"
  using assms Bus_offset_eq [of b n a]
  by (auto simp: Bus_load_def Bus_store_def device_addr_def)

lemma Bus_load_total:
  assumes "bus_wf b" "n \<in> {1, 2, 4, 8}"
  shows "\<exists>b' r. Bus_load b a n = Some (b', r) \<and> bus_wf b' \<and>
    ram b' = ram b \<and> ram_base b' = ram_base b"
proof (cases "device_addr a")
  case True
  then show ?thesis
    using assms(1) plic_wf_load [of "plic b" a n]
    by (auto simp: Bus_load_def device_addr_def bus_wf_def split: prod.split)
next
  case False
  then show ?thesis
    using assms Bus_load_ram [of b a n] Bus_fault [of b a n] by (cases "in_ram b a n") auto
qed

lemma Bus_store_wf:
  assumes "bus_wf b" and st: "Bus_store b a n v = Some (b', r)"
  shows "bus_wf b' \<and> ram_base b' = ram_base b \<and> length (ram b') = length (ram b)"
proof -
  consider (clint) "0x02000000 \<le> a \<and> a \<le> 0x0200FFFF"
    | (plic) "\<not> (0x02000000 \<le> a \<and> a \<le> 0x0200FFFF)" "0x0C000000 \<le> a \<and> a \<le> 0x0FFFFFFF"
    | (uart) "\<not> (0x02000000 \<le> a \<and> a \<le> 0x0200FFFF)" "\<not> (0x0C000000 \<le> a \<and> a \<le> 0x0FFFFFFF)"
        "0x10000000 \<le> a \<and> a \<le> 0x100000FF"
    | (virtio) "\<not> (0x02000000 \<le> a \<and> a \<le> 0x0200FFFF)" "\<not> (0x0C000000 \<le> a \<and> a \<le> 0x0FFFFFFF)"
        "\<not> (0x10000000 \<le> a \<and> a \<le> 0x100000FF)" "0x10001000 \<le> a \<and> a \<le> 0x100011FF"
    | (mem) "\<not> (0x02000000 \<le> a \<and> a \<le> 0x0200FFFF)" "\<not> (0x0C000000 \<le> a \<and> a \<le> 0x0FFFFFFF)"
        "\<not> (0x10000000 \<le> a \<and> a \<le> 0x100000FF)" "\<not> (0x10001000 \<le> a \<and> a \<le> 0x100011FF)"
    by argo
  then show ?thesis
  proof cases
    case clint
    then have "b' = b\<lparr>clint := Clint_store (clint b) a n v\<rparr>"
      using st by (simp only: Bus_store_def if_True simp_thms) simp
    then show ?thesis using assms(1) by (simp add: bus_wf_def)
  next
    case plic
    then have "b' = b\<lparr>plic := Plic_store (plic b) a n v\<rparr>"
      using st by (simp only: Bus_store_def if_True if_False simp_thms) simp
    then show ?thesis using assms(1) by (simp add: bus_wf_def plic_wf_store)
  next
    case uart
    then have "b' = b\<lparr>uart := Uart_store (uart b) a n v\<rparr>"
      using st by (simp only: Bus_store_def if_True if_False simp_thms) simp
    then show ?thesis using assms(1) by (simp add: bus_wf_def)
  next
    case virtio
    then have "plic b' = plic b \<and> ram_base b' = ram_base b \<and> length (ram b') = length (ram b)"
      using st unfolding Bus_store_def
      by (simp only: if_True if_False simp_thms)
        (auto split: prod.splits if_splits bind_splits dest: process_queue_length)
    then show ?thesis using assms(1) by (auto simp: bus_wf_def)
  next
    case mem
    then have "plic b' = plic b \<and> ram_base b' = ram_base b \<and> length (ram b') = length (ram b)"
      using st unfolding Bus_store_def
      by (simp only: if_True if_False simp_thms)
        (auto split: sum.splits if_splits bind_splits dest: copy_into_length)
    then show ?thesis using assms(1) by (auto simp: bus_wf_def)
  qed
qed

lemma Bus_store_total:
  assumes "bus_wf b" "n \<in> {1, 2, 4, 8}" "a \<noteq> 0x10001050"
  shows "Bus_store b a n v \<noteq> None"
proof (cases "device_addr a")
  case True
  obtain d' where "VirtioBlk_store (virtio_blk b) (a - 0x10001000) n v = (d', False)"
  proof -
    have "a - 0x10001000 \<noteq> 0x50"
    proof
      assume "a - 0x10001000 = 0x50"
      then have "a = 0x50 + 0x10001000" by (simp only: eq_diff_eq diff_eq_eq)
      then show False using assms(3) by simp
    qed
    then have "snd (VirtioBlk_store (virtio_blk b) (a - 0x10001000) n v) = False"
      by (simp add: VirtioBlk_store_def Let_def)
    then show thesis
      using that by (metis prod.collapse)
  qed
  then show ?thesis
    using True by (auto simp: Bus_store_def device_addr_def)
next
  case False
  then show ?thesis
    using assms Bus_store_ram [of b a n v] Bus_fault [of b a n] by (cases "in_ram b a n") auto
qed

section \<open>Runs of the bus\<close>

text \<open>
  The notify register of the block device is the one address where a store runs the device's queue,
  and so can panic.  \<open>bus_reaches\<close> relates the buses before and after any sequence of accesses.
\<close>

definition NOTIFY_REG :: u64 where
  "NOTIFY_REG = 0x10001050"

inductive bus_reaches :: "bus \<Rightarrow> bus \<Rightarrow> bool" for b where
  bus_reaches_refl: "bus_reaches b b"
| bus_reaches_load: "bus_reaches b b1 \<Longrightarrow> n \<in> {1, 2, 4, 8} \<Longrightarrow> Bus_load b1 a n = Some (b2, r) \<Longrightarrow> bus_reaches b b2"
| bus_reaches_store: "bus_reaches b b1 \<Longrightarrow> n \<in> {1, 2, 4, 8} \<Longrightarrow> Bus_store b1 a n v = Some (b2, w) \<Longrightarrow> bus_reaches b b2"

declare bus_reaches_refl [simp, intro]

lemma bus_reaches_trans:
  assumes "bus_reaches a b" "bus_reaches b c"
  shows "bus_reaches a c"
  using assms(2,1) by (induction rule: bus_reaches.induct) (blast intro: bus_reaches.intros)+

lemma bus_reaches_one:
  "Bus_load b a n = Some (b', r) \<Longrightarrow> n \<in> {1, 2, 4, 8} \<Longrightarrow> bus_reaches b b'"
  "Bus_store b a n v = Some (b', w) \<Longrightarrow> n \<in> {1, 2, 4, 8} \<Longrightarrow> bus_reaches b b'"
  by (blast intro: bus_reaches.intros)+

lemma bus_reaches_same:
  "bus_reaches b c \<Longrightarrow> bus_wf b \<Longrightarrow> bus_wf c \<and> ram_base c = ram_base b \<and> length (ram c) = length (ram b)"
proof (induction rule: bus_reaches.induct)
  case (bus_reaches_load b1 n a b2 r)
  then show ?case using Bus_load_total [of b1 n a] by auto
next
  case (bus_reaches_store b1 n a v b2 w)
  then show ?case using Bus_store_wf [of b1 a n v b2 w] by auto
qed simp

section \<open>The interpretation\<close>

definition ram_peek :: "bus \<Rightarrow> u64 \<Rightarrow> u8" where
  "ram_peek b a = ram b ! unat (a - ram_base b)"

text \<open>The value of a load and the bus after a store, where they succeed.\<close>

definition ram_rd :: "bus \<Rightarrow> u64 \<Rightarrow> nat \<Rightarrow> u64" where
  "ram_rd b a n = (case Bus_load b a n of Some (_, Inr v) \<Rightarrow> v | _ \<Rightarrow> 0)"

definition ram_wr :: "bus \<Rightarrow> u64 \<Rightarrow> nat \<Rightarrow> u64 \<Rightarrow> bus" where
  "ram_wr b a n v = (case Bus_store b a n v of Some (b', _) \<Rightarrow> b' | None \<Rightarrow> b)"

definition ram_mapped :: "bus \<Rightarrow> u64 \<Rightarrow> nat \<Rightarrow> bool" where
  "ram_mapped b a n \<longleftrightarrow> bus_wf b \<and> in_ram b a n"

lemma in_ram_offset:
  assumes "bus_wf b" "in_ram b a n" "i \<le> n" "n \<le> 8"
  shows "unat (a + of_nat i - ram_base b) = unat (a - ram_base b) + i" "ram_base b \<le> a + of_nat i"
proof -
  have i: "unat (of_nat i :: u64) = i"
    using assms by (intro unat_of_nat_u64) simp
  have lt: "unat (a - ram_base b) + unat (of_nat i :: u64) < 2 ^ 63"
    using assms i by (simp add: in_ram_def bus_wf_def)
  then have s: "unat (a - ram_base b + of_nat i) = unat (a - ram_base b) + i"
    using i by (subst unat_add_lem [THEN iffD1]) auto
  then show 1: "unat (a + of_nat i - ram_base b) = unat (a - ram_base b) + i"
    by (simp add: algebra_simps)
  have "unat a = unat (a - ram_base b) + unat (ram_base b)"
    using assms(2) by (simp add: in_ram_def unat_sub word_le_nat_alt)
  then have "unat a + unat (of_nat i :: u64) < 2 ^ 64"
    using assms i by (auto simp: in_ram_def bus_wf_def)
  then have "unat (a + of_nat i) = unat a + i"
    using i by (subst unat_add_lem [THEN iffD1]) auto
  then show "ram_base b \<le> a + of_nat i"
    using assms(2) by (simp add: in_ram_def word_le_nat_alt)
qed

lemma ram_wr_eq:
  assumes "ram_mapped m a n" "n \<in> {1, 2, 4, 8}"
  shows "ram_wr m a n v = m\<lparr>ram := take (unat (a - ram_base m)) (ram m) @ to_le_bytes n v @
      drop (unat (a - ram_base m) + n) (ram m)\<rparr>"
  using assms Bus_store_ram [of m a n v] by (simp add: ram_wr_def ram_mapped_def)

lemma ram_mapped_part:
  "ram_mapped m a n \<Longrightarrow> i + k \<le> n \<Longrightarrow> n \<le> 8 \<Longrightarrow> ram_mapped m (a + of_nat i) k"
  using in_ram_offset [of m a n i] by (simp add: ram_mapped_def in_ram_def)

lemma ram_mapped_wr:
  assumes "ram_mapped m a n" "n \<in> {1, 2, 4, 8}"
  shows "ram_mapped (ram_wr m a n v) b k = ram_mapped m b k"
  using assms by (auto simp: ram_wr_eq ram_mapped_def bus_wf_def in_ram_def)

lemma ram_rd_bytes:
  assumes "ram_mapped m a n" "n \<in> {1, 2, 4, 8}"
  shows "ram_rd m a n = from_le_bytes (map (\<lambda>i. ram_peek m (a + of_nat i)) [0..<n])"
proof -
  let ?o = "unat (a - ram_base m)"
  have n: "n \<le> 8" using assms(2) by auto
  have "map (\<lambda>i. ram_peek m (a + of_nat i)) [0..<n] = map (\<lambda>i. ram m ! (?o + i)) [0..<n]"
    using assms(1) n in_ram_offset(1) [of m a n] by (auto simp: ram_peek_def ram_mapped_def)
  also have "\<dots> = take n (drop ?o (ram m))"
    using assms(1) by (intro from_le_bytes_prefix) (simp add: ram_mapped_def in_ram_def)
  finally show ?thesis
    using Bus_load_ram [of m a n] assms by (simp add: ram_rd_def ram_mapped_def)
qed

lemma unat_diff_window:
  fixes x y :: u64
  assumes "unat y < 2 ^ 63" "n \<le> 8"
  shows "unat (x - y) < n \<longleftrightarrow> unat y \<le> unat x \<and> unat x < unat y + n"
proof (cases "y \<le> x")
  case True
  then show ?thesis
    by (auto simp: unat_sub word_le_nat_alt)
next
  case False
  then have "unat (x - y) = unat x + 2 ^ 64 - unat y"
    by (simp add: unat_sub_if' word_le_nat_alt)
  then show ?thesis
    using False assms by (simp add: word_le_nat_alt)
qed

lemma ram_peek_wr:
  assumes m: "ram_mapped m a n" "n \<in> {1, 2, 4, 8}" and b: "ram_mapped m b 1"
  shows "ram_peek (ram_wr m a n v) b =
    (if unat (b - a) < n then ucast (shr v (8 * unat (b - a))) else ram_peek m b)"
proof -
  let ?a = "unat (a - ram_base m)" and ?b = "unat (b - ram_base m)"
  have fits: "?a + n \<le> length (ram m)" "?b < length (ram m)" "length (ram m) < 2 ^ 63"
    using m b by (auto simp: ram_mapped_def in_ram_def bus_wf_def)
  have diff: "b - a = (b - ram_base m) - (a - ram_base m)"
    by simp
  have win: "unat (b - a) < n \<longleftrightarrow> ?a \<le> ?b \<and> ?b < ?a + n"
    unfolding diff using fits m(2) by (intro unat_diff_window) auto
  have dist: "?a \<le> ?b \<Longrightarrow> unat (b - a) = ?b - ?a"
    using unat_sub [of "a - ram_base m" "b - ram_base m"] by (simp add: word_le_nat_alt)
  have "ram_peek (ram_wr m a n v) b = (take ?a (ram m) @ to_le_bytes n v @ drop (?a + n) (ram m)) ! ?b"
    by (simp add: ram_peek_def ram_wr_eq [OF m])
  also have "\<dots> = (if ?a \<le> ?b \<and> ?b < ?a + n then to_le_bytes n v ! (?b - ?a) else ram m ! ?b)"
    using fits by (auto simp: nth_append)
  finally show ?thesis
    unfolding win by (auto simp: dist to_le_bytes_map ram_peek_def)
qed

interpretation ram: byte_memory ram_peek ram_rd ram_wr ram_mapped
  by unfold_locales
    (fact ram_mapped_part, fact ram_mapped_wr, fact ram_rd_bytes, fact ram_peek_wr)

section \<open>Properties\<close>

lemma Bus_load_ram_rd:
  "ram_mapped b a n \<Longrightarrow> n \<in> {1, 2, 4, 8} \<Longrightarrow> Bus_load b a n = Some (b, Inr (ram_rd b a n))"
  using Bus_load_ram [of b a n] by (simp add: ram_rd_def ram_mapped_def)

lemma Bus_store_ram_wr:
  "ram_mapped b a n \<Longrightarrow> n \<in> {1, 2, 4, 8} \<Longrightarrow> Bus_store b a n v = Some (ram_wr b a n v, Inr ())"
  using Bus_store_ram [of b a n v] by (simp add: ram_wr_def ram_mapped_def)

text \<open>
  C34. RAM remembers: after a store of \<open>n\<close> bytes, a load of any \<open>k\<close> bytes within them returns
  exactly that part of the value, little-endian and zero-extended.
\<close>

theorem ram_store_load:
  assumes "bus_wf b" "in_ram b a n" and "n \<in> {1, 2, 4, 8}" "k \<in> {1, 2, 4, 8}" "i + k \<le> n"
  shows "\<exists>b'. Bus_store b a n v = Some (b', Inr ()) \<and>
    Bus_load b' (a + of_nat i) k = Some (b', Inr (take_bit (8 * k) (shr v (8 * i))))"
proof -
  have m: "ram_mapped b a n"
    using assms by (simp add: ram_mapped_def)
  have "ram_mapped (ram_wr b a n v) (a + of_nat i) k"
    using ram_mapped_part [OF m assms(5)] ram_mapped_wr [OF m assms(3)] assms(3) by auto
  then show ?thesis
    using Bus_store_ram_wr [OF m assms(3)] Bus_load_ram_rd assms(4)
      ram.rd_part_of_wr [OF m assms(3-5)] by auto
qed

theorem ram_store_load_witness:
  "\<exists>b'. Bus_store (Bus_new 16 0x80000000) 0x80000004 8 0x1122334455667788 = Some (b', Inr ()) \<and>
    Bus_load b' 0x80000008 2 = Some (b', Inr 0x3344)"
proof -
  have "bus_wf (Bus_new 16 0x80000000)"
    by (simp add: bus_wf_def Bus_new_def plic_wf_new)
  moreover have "in_ram (Bus_new 16 0x80000000) 0x80000004 8"
    by (simp add: in_ram_def Bus_new_def)
  ultimately show ?thesis
    using ram_store_load [of "Bus_new 16 0x80000000" "0x80000004" 8 2 4 "0x1122334455667788"] by simp
qed

text \<open>
  C35. A store to RAM changes nothing else: every load of RAM that does not overlap it returns what
  it returned before, and no device changes.
\<close>

theorem ram_store_frame:
  assumes "bus_wf b" "in_ram b a n" "n \<in> {1, 2, 4, 8}"
    and "in_ram b c k" "k \<in> {1, 2, 4, 8}" and "unat a + n \<le> unat c \<or> unat c + k \<le> unat a"
  shows "\<exists>b' x. Bus_store b a n v = Some (b', Inr ()) \<and>
    Bus_load b c k = Some (b, Inr x) \<and> Bus_load b' c k = Some (b', Inr x) \<and>
    (clint b', uart b', plic b', virtio_blk b', ram_base b') =
    (clint b, uart b, plic b, virtio_blk b, ram_base b)"
proof -
  have m: "ram_mapped b a n" "ram_mapped b c k"
    using assms by (simp_all add: ram_mapped_def)
  have "n \<le> unat (c + of_nat i - a)" if "i < k" for i
  proof -
    have u: "unat (c + of_nat i - ram_base b) = unat (c - ram_base b) + i"
      using in_ram_offset(1) [OF assms(1,4), of i] that assms(5) by auto
    have s: "unat (a - ram_base b) = unat a - unat (ram_base b)"
      "unat (c - ram_base b) = unat c - unat (ram_base b)"
      using assms(2,4) by (simp_all add: in_ram_def unat_sub)
    have "\<not> unat ((c + of_nat i - ram_base b) - (a - ram_base b)) < n"
      using assms(1-5) by (subst unat_diff_window)
        (use u s that assms(6) in \<open>auto simp: in_ram_def bus_wf_def word_le_nat_alt\<close>)
    moreover have "(c + of_nat i - ram_base b) - (a - ram_base b) = c + of_nat i - a"
      by simp
    ultimately show ?thesis by (simp only: not_less)
  qed
  then have "ram_rd (ram_wr b a n v) c k = ram_rd b c k"
    by (rule ram.rd_wr_disjoint [OF m(1) assms(3) m(2) assms(5)])
  moreover have "ram_mapped (ram_wr b a n v) c k"
    using m ram_mapped_wr [OF m(1) assms(3)] by simp
  ultimately show ?thesis
    using Bus_store_ram_wr [OF m(1) assms(3)] Bus_load_ram_rd m(2) assms(5)
    by (auto simp: ram_wr_eq [OF m(1) assms(3)])
qed

theorem ram_store_frame_witness:
  "\<exists>b' x. Bus_store (Bus_new 16 0x80000000) 0x80000004 4 7 = Some (b', Inr ()) \<and>
    Bus_load b' 0x80000002 2 = Some (b', Inr x)"
proof -
  have "bus_wf (Bus_new 16 0x80000000)"
    by (simp add: bus_wf_def Bus_new_def plic_wf_new)
  moreover have "in_ram (Bus_new 16 0x80000000) 0x80000004 4" "in_ram (Bus_new 16 0x80000000) 0x80000002 2"
    by (simp_all add: in_ram_def Bus_new_def)
  ultimately show ?thesis
    using ram_store_frame [of "Bus_new 16 0x80000000" "0x80000004" 4 "0x80000002" 2 7] by auto
qed

text \<open>
  C36. Accesses fault exactly off the memory map: a load or store of a supported width is refused if
  and only if its address is no device's and its bytes are not all in RAM, the refusal leaves the bus
  as it was, and no access panics except through the block device's notify register.
\<close>

theorem bus_faults_exactly:
  assumes "bus_wf b" "n \<in> {1, 2, 4, 8}"
  shows "(\<exists>b' v. Bus_load b a n = Some (b', Inr v)) = (device_addr a \<or> in_ram b a n)
    \<and> (\<not> device_addr a \<and> \<not> in_ram b a n \<longrightarrow>
        Bus_load b a n = Some (b, Inl (BusFault a n)) \<and>
        Bus_store b a n v = Some (b, Inl (BusFault a n)))
    \<and> (a \<noteq> 0x10001050 \<longrightarrow>
        (\<exists>b'. Bus_store b a n v = Some (b', Inr ())) = (device_addr a \<or> in_ram b a n))"
proof -
  have n: "n \<le> 8" using assms(2) by auto
  have dev: "\<exists>b' v. Bus_load b a n = Some (b', Inr v)" if "device_addr a"
    using that by (auto simp: Bus_load_def device_addr_def split: prod.split)
  have sto: "\<exists>b'. Bus_store b a n v = Some (b', Inr ())" if dev_a: "device_addr a" "a \<noteq> 0x10001050"
  proof -
    obtain b' r where r: "Bus_store b a n v = Some (b', r)"
      using Bus_store_total [of b n a v, OF assms dev_a(2)] by (cases "Bus_store b a n v") auto
    then show ?thesis
      by (cases r) (use dev_a(1) in \<open>auto simp: Bus_store_def device_addr_def
        split: if_splits prod.splits bind_splits\<close>)
  qed
  show ?thesis
    using dev sto Bus_load_ram [of b a n] Bus_store_ram [of b a n v] Bus_fault [of b a n] assms n
    by (cases "device_addr a"; cases "in_ram b a n") auto
qed

theorem bus_faults_exactly_witness:
  "Bus_load (Bus_new 16 0x80000000) 0x8000000C 8 =
    Some (Bus_new 16 0x80000000, Inl (BusFault 0x8000000C 8))"
proof -
  have "bus_wf (Bus_new 16 0x80000000)"
    by (simp add: bus_wf_def Bus_new_def plic_wf_new)
  moreover have "\<not> device_addr 0x8000000C" "\<not> in_ram (Bus_new 16 0x80000000) 0x8000000C 8"
    by (simp_all add: device_addr_def in_ram_def Bus_new_def)
  ultimately show ?thesis
    using bus_faults_exactly [of "Bus_new 16 0x80000000" 8 "0x8000000C" 0] by simp
qed

end
