(* ===== verification/Mmu.thy ===== *)
theory Mmu
  imports Bus
begin

text \<open>
  Address translation: \<open>src/cpu/mmu.rs\<close>, with the privilege mode of \<open>src/cpu/mod.rs\<close>.  The TLB is a
  list of 64 entries; \<open>walk\<close> is the loop over the levels of the page table, by recursion on the
  number of levels that remain (\<open>rem + 1\<close>).  A translation returns the MMU and the bus too, because
  it fills the TLB and writes the accessed and dirty bits back to the page table.
\<close>

datatype (plugins only: code) priv_mode = PrivMode_U | PrivMode_S | PrivMode_M

text \<open>\<open>mode as u64\<close>.\<close>

fun priv_code :: "priv_mode \<Rightarrow> u64" where
  "priv_code PrivMode_U = 0"
| "priv_code PrivMode_S = 1"
| "priv_code PrivMode_M = 3"

datatype (plugins only: code) access_type = AccessType_Fetch | AccessType_Load | AccessType_Store

text \<open>The fault's cause and trap value.\<close>

datatype (plugins only: code) mmu_fault = MmuFault u64 u64

definition PTE_V :: u64 where "PTE_V = 1"
definition PTE_R :: u64 where "PTE_R = 2"
definition PTE_W :: u64 where "PTE_W = 4"
definition PTE_X :: u64 where "PTE_X = 8"
definition PTE_U :: u64 where "PTE_U = 16"
definition PTE_G :: u64 where "PTE_G = 32"
definition PTE_A :: u64 where "PTE_A = 64"
definition PTE_D :: u64 where "PTE_D = 128"

lemmas PTE_defs = PTE_V_def PTE_R_def PTE_W_def PTE_X_def PTE_U_def PTE_G_def PTE_A_def PTE_D_def

definition TLB_SIZE :: nat where
  "TLB_SIZE = 64"

record tlb_entry =
  tlb_valid :: bool
  tlb_vpn :: u64
  tlb_ppn :: u64
  tlb_perm :: u64
  tlb_asid :: u16
  tlb_pte_addr :: u64

record mmu =
  tlb :: "tlb_entry list"

definition Mmu_new :: mmu where
  "Mmu_new = \<lparr>tlb = replicate TLB_SIZE \<lparr>tlb_valid = False, tlb_vpn = 0, tlb_ppn = 0, tlb_perm = 0,
     tlb_asid = 0, tlb_pte_addr = 0\<rparr>\<rparr>"

definition Mmu_flush :: "mmu \<Rightarrow> mmu" where
  "Mmu_flush m = m\<lparr>tlb := map (\<lambda>e. e\<lparr>tlb_valid := False\<rparr>) (tlb m)\<rparr>"

fun pf_cause :: "access_type \<Rightarrow> u64" where
  "pf_cause AccessType_Fetch = 12"
| "pf_cause AccessType_Load = 13"
| "pf_cause AccessType_Store = 15"

fun af_cause :: "access_type \<Rightarrow> u64" where
  "af_cause AccessType_Fetch = 1"
| "af_cause AccessType_Load = 5"
| "af_cause AccessType_Store = 7"

definition check_perms ::
  "u64 \<Rightarrow> u64 \<Rightarrow> priv_mode \<Rightarrow> access_type \<Rightarrow> u64 \<Rightarrow> mmu_fault + unit" where
  "check_perms perm mstatus mode access tval =
    (let fault = MmuFault (pf_cause access) tval;
         u_bit = (perm AND PTE_U \<noteq> 0)
     in
     if mode = PrivMode_U \<and> \<not> u_bit then Inl fault
     else if mode = PrivMode_S \<and> u_bit \<and> shr mstatus 18 AND 1 = 0 then Inl fault
     else case access of
         AccessType_Fetch \<Rightarrow> if perm AND PTE_X = 0 then Inl fault else Inr ()
       | AccessType_Load \<Rightarrow>
           let mxr = shr mstatus 19 AND 1
           in if perm AND PTE_R = 0 \<and> \<not> (mxr \<noteq> 0 \<and> perm AND PTE_X \<noteq> 0) then Inl fault else Inr ()
       | AccessType_Store \<Rightarrow> if perm AND PTE_W = 0 then Inl fault else Inr ())"

text \<open>The permission bits after an access: accessed, and dirty for a store.\<close>

definition set_ad :: "access_type \<Rightarrow> u64 \<Rightarrow> u64" where
  "set_ad access p = (if access = AccessType_Store then p OR PTE_A OR PTE_D else p OR PTE_A)"

definition tlb_index :: "u64 \<Rightarrow> nat" where
  "tlb_index vpn = unat (vpn AND (of_nat TLB_SIZE - 1))"

type_synonym translation = "(mmu \<times> bus) \<times> (mmu_fault + u64)"

text \<open>The physical page number of an entry.\<close>

definition pte_ppn :: "u64 \<Rightarrow> u64" where
  "pte_ppn pte = shr pte 10 AND 0x0FFFFFFFFFFF"

text \<open>
  The leaf of a walk, found at \<open>pte_addr\<close> with \<open>rem\<close> levels below it: alignment of a superpage,
  permissions, accessed and dirty bits, the physical address, the TLB (for 4K pages only).
\<close>

definition walk_leaf ::
  "nat \<Rightarrow> mmu \<Rightarrow> bus \<Rightarrow> u64 \<Rightarrow> u64 \<Rightarrow> u16 \<Rightarrow> priv_mode \<Rightarrow> u64 \<Rightarrow> u64 \<Rightarrow> access_type \<Rightarrow> translation option" where
  "walk_leaf rem m b pte_addr pte asid mode mstatus addr access =
    (let ppn = pte_ppn pte in
     if rem > 0 \<and> ppn AND (shl 1 (rem * 9) - 1) \<noteq> 0 then
       Some ((m, b), Inl (MmuFault (pf_cause access) addr))
     else
       (case check_perms (pte AND 0xFF) mstatus mode access addr of
         Inl f \<Rightarrow> Some ((m, b), Inl f)
       | Inr _ \<Rightarrow> do {
           let new_pte = set_ad access pte;
           (b, w) \<leftarrow> (if new_pte \<noteq> pte then Bus_store b pte_addr 8 new_pte else Some (b, Inr ()));
           case w of
             Inl _ \<Rightarrow> Some ((m, b), Inl (MmuFault (af_cause access) addr))
           | Inr _ \<Rightarrow>
               let page_bits = 12 + rem * 9;
                   page_size = shl 1 page_bits;
                   pa = shl (shr ppn (rem * 9)) page_bits OR (addr AND (page_size - 1));
                   vpn = shr addr 12;
                   m = (if rem = 0
                        then m\<lparr>tlb := (tlb m)[tlb_index vpn :=
                          \<lparr>tlb_valid = True, tlb_vpn = vpn, tlb_ppn = ppn,
                           tlb_perm = new_pte AND 0xFF, tlb_asid = asid,
                           tlb_pte_addr = pte_addr\<rparr>]\<rparr>
                        else m)
               in Some ((m, b), Inr pa)
         }))"

fun walk :: "nat \<Rightarrow> mmu \<Rightarrow> bus \<Rightarrow> u64 \<Rightarrow> u16 \<Rightarrow> priv_mode \<Rightarrow> u64 \<Rightarrow> u64 \<Rightarrow> access_type \<Rightarrow> translation option" where
  "walk 0 m b table_pa asid mode mstatus addr access =
     Some ((m, b), Inl (MmuFault (pf_cause access) addr))"
| "walk (Suc rem) m b table_pa asid mode mstatus addr access = do {
     let vpn_part = shr addr (12 + rem * 9) AND 0x1FF;
     let pte_addr = table_pa + vpn_part * 8;
     (b, r) \<leftarrow> Bus_load b pte_addr 8;
     case r of
       Inl _ \<Rightarrow> Some ((m, b), Inl (MmuFault (af_cause access) addr))
     | Inr pte \<Rightarrow>
         if pte AND PTE_V = 0 \<or> (pte AND PTE_W \<noteq> 0 \<and> pte AND PTE_R = 0) then
           Some ((m, b), Inl (MmuFault (pf_cause access) addr))
         else if pte AND (PTE_R OR PTE_X) \<noteq> 0 then
           walk_leaf rem m b pte_addr pte asid mode mstatus addr access
         else walk rem m b (shl (pte_ppn pte) 12) asid mode mstatus addr access
   }"

definition satp_levels :: "u64 \<Rightarrow> nat" where
  "satp_levels satp = (if shr satp 60 = 8 then 3 else if shr satp 60 = 10 then 5 else 0)"

text \<open>The cached path: permission check, accessed and dirty bits, physical address.\<close>

definition tlb_hit :: "mmu \<Rightarrow> bus \<Rightarrow> nat \<Rightarrow> priv_mode \<Rightarrow> u64 \<Rightarrow> u64 \<Rightarrow> access_type \<Rightarrow> translation option" where
  "tlb_hit m b idx mode mstatus addr access =
    (let e = tlb m ! idx in
     case check_perms (tlb_perm e) mstatus mode access addr of
       Inl f \<Rightarrow> Some ((m, b), Inl f)
     | Inr _ \<Rightarrow>
         let new_perm = set_ad access (tlb_perm e);
             pa = shl (tlb_ppn e) 12 OR (addr AND 0xFFF)
         in if new_perm \<noteq> tlb_perm e then do {
              let new_pte = shl (tlb_ppn e) 10 OR new_perm;
              (b, _) \<leftarrow> Bus_store b (tlb_pte_addr e) 8 new_pte;
              Some ((m\<lparr>tlb := (tlb m)[idx := e\<lparr>tlb_perm := new_perm\<rparr>]\<rparr>, b), Inr pa)
            } else Some ((m, b), Inr pa))"

definition Mmu_translate ::
  "mmu \<Rightarrow> bus \<Rightarrow> u64 \<Rightarrow> priv_mode \<Rightarrow> u64 \<Rightarrow> u64 \<Rightarrow> access_type \<Rightarrow> translation option" where
  "Mmu_translate m b satp mode mstatus addr access =
    (let levels = satp_levels satp in
     if levels = 0 then Some ((m, b), Inr addr)
     else if mode = PrivMode_M then Some ((m, b), Inr addr)
     else
       let vpn = shr addr 12;
           asid = ucast (shr satp 44 AND 0xFFFF);
           sign_bit = 12 + levels * 9 - 1;
           top = sar addr sign_bit
       in
       if top \<noteq> 0 \<and> top \<noteq> -1 then Some ((m, b), Inl (MmuFault (pf_cause access) addr))
       else
         let idx = tlb_index vpn;
             e = tlb m ! idx
         in if tlb_valid e \<and> tlb_vpn e = vpn \<and> (tlb_asid e = asid \<or> tlb_perm e AND PTE_G \<noteq> 0)
            then tlb_hit m b idx mode mstatus addr access
            else walk levels m b (shl (satp AND 0x0FFFFFFFFFFF) 12) asid mode mstatus addr access)"

section \<open>Permission checks and addresses\<close>

lemma check_perms_fault: "check_perms perm mstatus mode access tval = Inl f \<Longrightarrow>
    f = MmuFault (pf_cause access) tval"
  by (cases access) (auto simp: check_perms_def Let_def split: if_splits)

text \<open>The physical address of a leaf: the page's number and the offset within the page.\<close>

definition leaf_pa :: "u64 \<Rightarrow> nat \<Rightarrow> u64 \<Rightarrow> u64" where
  "leaf_pa ppn rem addr =
    shl (shr ppn (rem * 9)) (12 + rem * 9) OR (addr AND (shl 1 (12 + rem * 9) - 1))"

lemma mask_minus_one: "n < 64 \<Longrightarrow> shl 1 n - 1 = (mask n :: u64)"
  by (simp add: mask_eq_exp_minus_1 push_bit_eq_mult)

lemma leaf_pa_offset:
  assumes "rem < 5"
  shows "take_bit (12 + rem * 9) (leaf_pa ppn rem addr) = take_bit (12 + rem * 9) addr"
  using assms unfolding leaf_pa_def
  by (subst mask_minus_one, simp) (rule bit_word_eqI, auto simp: bit_simps)

lemma leaf_pa_page: "leaf_pa ppn 0 addr = shl ppn 12 OR (addr AND 0xFFF)"
  by (simp add: leaf_pa_def)

section \<open>The walk\<close>

text \<open>
  Every way a walk can end.  A fault carries the address and one of the two causes; a success comes
  from a valid leaf entry that grants the access.
\<close>

definition granted :: "u64 \<Rightarrow> u64 \<Rightarrow> priv_mode \<Rightarrow> access_type \<Rightarrow> bool" where
  "granted perm mstatus mode access \<longleftrightarrow> check_perms perm mstatus mode access 0 = Inr ()"

lemma check_perms_granted: "check_perms perm mstatus mode access tval = Inr u \<longleftrightarrow> granted perm mstatus mode access"
  by (cases access) (auto simp: granted_def check_perms_def Let_def split: if_splits)

definition leaf_entry :: "u64 \<Rightarrow> u16 \<Rightarrow> u64 \<Rightarrow> access_type \<Rightarrow> u64 \<Rightarrow> tlb_entry" where
  "leaf_entry addr asid pte access pte_addr =
    \<lparr>tlb_valid = True, tlb_vpn = shr addr 12, tlb_ppn = pte_ppn pte,
     tlb_perm = set_ad access pte AND 0xFF, tlb_asid = asid, tlb_pte_addr = pte_addr\<rparr>"

definition good_leaf :: "u64 \<Rightarrow> nat \<Rightarrow> u64 \<Rightarrow> priv_mode \<Rightarrow> access_type \<Rightarrow> bool" where
  "good_leaf pte rem mstatus mode access \<longleftrightarrow>
    pte AND PTE_V \<noteq> 0 \<and> (pte AND PTE_W = 0 \<or> pte AND PTE_R \<noteq> 0) \<and> pte AND (PTE_R OR PTE_X) \<noteq> 0 \<and>
    \<not> (rem > 0 \<and> pte_ppn pte AND (shl 1 (rem * 9) - 1) \<noteq> 0) \<and>
    granted (pte AND 0xFF) mstatus mode access"

lemma walk_leaf_fault:
  assumes "walk_leaf rem m b pte_addr pte asid mode mstatus addr access = Some ((m', b'), Inl f)"
  shows "m' = m \<and> f \<in> {MmuFault (pf_cause access) addr, MmuFault (af_cause access) addr}"
  using assms
  by (auto simp: walk_leaf_def Let_def split: bind_splits sum.splits if_splits prod.splits
      dest: check_perms_fault)

lemma walk_leaf_success:
  assumes "walk_leaf rem m b pte_addr pte asid mode mstatus addr access = Some ((m', b'), Inr pa)"
  shows "\<not> (rem > 0 \<and> pte_ppn pte AND (shl 1 (rem * 9) - 1) \<noteq> 0) \<and>
    granted (pte AND 0xFF) mstatus mode access \<and>
    pa = leaf_pa (pte_ppn pte) rem addr \<and>
    m' = (if rem = 0 then m\<lparr>tlb := (tlb m)[tlb_index (shr addr 12) :=
            leaf_entry addr asid pte access pte_addr]\<rparr> else m) \<and>
    (b' = b \<and> set_ad access pte = pte \<or> Bus_store b pte_addr 8 (set_ad access pte) = Some (b', Inr ()))"
  using assms
  by (auto simp: walk_leaf_def Let_def leaf_pa_def leaf_entry_def check_perms_granted
      split: bind_splits sum.splits if_splits prod.splits)

lemma walk_fault:
  assumes "walk n m b table asid mode mstatus addr access = Some ((m', b'), Inl f)"
  shows "m' = m \<and> f \<in> {MmuFault (pf_cause access) addr, MmuFault (af_cause access) addr}"
  using assms
proof (induction n arbitrary: b table)
  case (Suc rem)
  then show ?case
    by (auto simp: Let_def split: bind_splits sum.splits if_splits dest: walk_leaf_fault)
qed simp

text \<open>
  The entry a walk ends at, read off the bus level by level: \<open>reads_leaf b addr n table slot pte k\<close> says
  that from \<open>table\<close>, of height \<open>n\<close>, the entries that \<open>addr\<close> selects are usable and lead to the leaf \<open>pte\<close>
  at \<open>slot\<close> with \<open>k\<close> levels below it.
\<close>

definition pte_slot :: "u64 \<Rightarrow> nat \<Rightarrow> u64 \<Rightarrow> u64" where
  "pte_slot table rem addr = table + (shr addr (12 + rem * 9) AND 0x1FF) * 8"

definition pte_usable :: "u64 \<Rightarrow> bool" where
  "pte_usable pte \<longleftrightarrow> pte AND PTE_V \<noteq> 0 \<and> (pte AND PTE_W = 0 \<or> pte AND PTE_R \<noteq> 0)"

definition pte_leaf :: "u64 \<Rightarrow> bool" where
  "pte_leaf pte \<longleftrightarrow> pte AND (PTE_R OR PTE_X) \<noteq> 0"

inductive reads_leaf :: "bus \<Rightarrow> u64 \<Rightarrow> nat \<Rightarrow> u64 \<Rightarrow> u64 \<Rightarrow> u64 \<Rightarrow> nat \<Rightarrow> bool" where
  leaf: "Bus_load b (pte_slot table rem addr) 8 = Some (b', Inr pte) \<Longrightarrow> pte_usable pte \<Longrightarrow> pte_leaf pte \<Longrightarrow>
    reads_leaf b addr (Suc rem) table (pte_slot table rem addr) pte rem"
| node: "Bus_load b (pte_slot table rem addr) 8 = Some (b', Inr pte) \<Longrightarrow> pte_usable pte \<Longrightarrow> \<not> pte_leaf pte \<Longrightarrow>
    reads_leaf b' addr rem (shl (pte_ppn pte) 12) slot leaf_pte k \<Longrightarrow>
    reads_leaf b addr (Suc rem) table slot leaf_pte k"

lemma walk_success:
  assumes "walk n m b table asid mode mstatus addr access = Some ((m', b'), Inr pa)"
  shows "\<exists>rem pte pte_addr. rem < n \<and> reads_leaf b addr n table pte_addr pte rem \<and>
    good_leaf pte rem mstatus mode access \<and> pa = leaf_pa (pte_ppn pte) rem addr \<and>
    m' = (if rem = 0 then m\<lparr>tlb := (tlb m)[tlb_index (shr addr 12) :=
            leaf_entry addr asid pte access pte_addr]\<rparr> else m)"
  using assms
proof (induction n arbitrary: b table)
  case 0
  then show ?case by simp
next
  case (Suc rem)
  let ?pa = "pte_slot table rem addr"
  obtain b1 pte where l: "Bus_load b ?pa 8 = Some (b1, Inr pte)"
    using Suc.prems by (auto simp: Let_def pte_slot_def split: bind_splits sum.splits)
  then have v: "pte_usable pte"
    using Suc.prems by (auto simp: Let_def pte_slot_def pte_usable_def split: if_splits)
  then have u: "pte AND PTE_V \<noteq> 0" "pte AND PTE_W = 0 \<or> pte AND PTE_R \<noteq> 0"
    by (simp_all add: pte_usable_def)
  show ?case
  proof (cases "pte_leaf pte")
    case False
    then have "walk rem m b1 (shl (pte_ppn pte) 12) asid mode mstatus addr access =
        Some ((m', b'), Inr pa)"
      using Suc.prems l u by (auto simp: Let_def pte_slot_def pte_leaf_def)
    from Suc.IH [OF this] obtain rem' pte' pte_addr' where "rem' < rem"
      and "reads_leaf b1 addr rem (shl (pte_ppn pte) 12) pte_addr' pte' rem'"
      and "good_leaf pte' rem' mstatus mode access" and "pa = leaf_pa (pte_ppn pte') rem' addr"
      and "m' = (if rem' = 0 then m\<lparr>tlb := (tlb m)[tlb_index (shr addr 12) :=
            leaf_entry addr asid pte' access pte_addr']\<rparr> else m)"
      by blast
    then show ?thesis
      using reads_leaf.node [OF l v False]
      by (intro exI [of _ rem'] exI [of _ pte'] exI [of _ pte_addr']) simp
  next
    case True
    then have "walk_leaf rem m b1 ?pa pte asid mode mstatus addr access = Some ((m', b'), Inr pa)"
      using Suc.prems l u by (auto simp: Let_def pte_slot_def pte_leaf_def)
    from walk_leaf_success [OF this] True u reads_leaf.leaf [OF l v True] show ?thesis
      by (intro exI [of _ rem] exI [of _ pte] exI [of _ ?pa]) (simp add: good_leaf_def pte_leaf_def)
  qed
qed

section \<open>The TLB invariant\<close>

text \<open>
  A valid entry sits in the slot of its virtual page, has been checked as a leaf (valid, accessed),
  keeps its fields within their widths, and its page-table address is not the block device's notify
  register, the one address where a store is more than a store.
\<close>

definition entry_ok :: "nat \<Rightarrow> tlb_entry \<Rightarrow> bool" where
  "entry_ok i e \<longleftrightarrow> (tlb_valid e \<longrightarrow> tlb_index (tlb_vpn e) = i \<and> tlb_perm e AND PTE_V \<noteq> 0 \<and>
     tlb_perm e AND PTE_A \<noteq> 0 \<and> tlb_perm e AND 0xFF = tlb_perm e \<and>
     tlb_ppn e AND 0x0FFFFFFFFFFF = tlb_ppn e \<and> tlb_pte_addr e \<noteq> NOTIFY_REG)"

definition mmu_wf :: "mmu \<Rightarrow> bool" where
  "mmu_wf m \<longleftrightarrow> length (tlb m) = TLB_SIZE \<and> (\<forall>i < TLB_SIZE. entry_ok i (tlb m ! i))"

lemma mmu_wf_new: "mmu_wf Mmu_new"
  by (simp add: mmu_wf_def Mmu_new_def entry_ok_def)

lemma mmu_wf_flush [wf_intros]: "mmu_wf m \<Longrightarrow> mmu_wf (Mmu_flush m)"
  by (auto simp: mmu_wf_def Mmu_flush_def entry_ok_def)

lemma mmu_wf_update:
  "mmu_wf m \<Longrightarrow> entry_ok i e \<Longrightarrow> mmu_wf (m\<lparr>tlb := (tlb m)[i := e]\<rparr>)"
  by (cases "i < TLB_SIZE") (auto simp: mmu_wf_def nth_list_update)

lemma tlb_index_less: "tlb_index vpn < TLB_SIZE"
proof -
  have "vpn AND 63 = take_bit 6 vpn"
    by (rule word64_eqI) (simp add: enum_bits)
  then show ?thesis
    using take_bit_nat_less_exp [of 6 "unat vpn"]
    by (simp add: tlb_index_def TLB_SIZE_def unsigned_take_bit_eq)
qed

lemma PTE_bits:
  "p AND PTE_V \<noteq> 0 \<longleftrightarrow> bit p 0" "p AND PTE_R \<noteq> 0 \<longleftrightarrow> bit p 1" "p AND PTE_W \<noteq> 0 \<longleftrightarrow> bit p 2"
  "p AND PTE_X \<noteq> 0 \<longleftrightarrow> bit p 3" "p AND PTE_U \<noteq> 0 \<longleftrightarrow> bit p 4" "p AND PTE_G \<noteq> 0 \<longleftrightarrow> bit p 5"
  "p AND PTE_A \<noteq> 0 \<longleftrightarrow> bit p 6" "p AND PTE_D \<noteq> 0 \<longleftrightarrow> bit p 7"
  using and_mask_neq_zero [of p 0] and_mask_neq_zero [of p 1] and_mask_neq_zero [of p 2]
    and_mask_neq_zero [of p 3] and_mask_neq_zero [of p 4] and_mask_neq_zero [of p 5]
    and_mask_neq_zero [of p 6] and_mask_neq_zero [of p 7]
  by (simp_all add: PTE_defs)

lemma bit_set_ad: "bit (set_ad access p) n \<longleftrightarrow> bit p n \<or> n = 6 \<or> (n = 7 \<and> access = AccessType_Store)"
proof (cases "n < 64")
  case True
  have "list_all (\<lambda>n. bit (set_ad access p) n \<longleftrightarrow>
      bit p n \<or> n = 6 \<or> (n = 7 \<and> access = AccessType_Store)) [0..<64]"
    by (simp add: set_ad_def PTE_defs enum_bits)
  with True show ?thesis by (simp add: list_all_iff)
qed (auto dest: bit_imp_le_length)

lemma bit_low8: "bit (p AND 0xFF) n \<longleftrightarrow> n < 8 \<and> bit p n" for p :: u64
proof -
  have "p AND 0xFF = take_bit 8 p"
    by (rule word64_eqI) (simp add: enum_bits)
  then show ?thesis by (simp add: bit_simps)
qed

lemma and_same: "(p AND c) AND c = p AND c" for p c :: u64
  by (simp add: and.assoc)

text \<open>The permission bits of a cached entry, by bit: the entry's low eight, accessed and maybe dirty.\<close>

lemma cached_perm:
  "(set_ad access pte AND 0xFF) AND PTE_V \<noteq> 0 \<longleftrightarrow> pte AND PTE_V \<noteq> 0"
  "(set_ad access pte AND 0xFF) AND PTE_A \<noteq> 0"
  "(set_ad access pte AND 0xFF) AND 0xFF = set_ad access pte AND 0xFF"
  by (simp_all only: PTE_bits bit_low8 bit_set_ad and_same) simp_all

lemma pte_ppn_same: "pte_ppn pte AND 0x0FFFFFFFFFFF = pte_ppn pte"
  by (simp only: pte_ppn_def and_same)

lemma leaf_entry_ok:
  "pte AND PTE_V \<noteq> 0 \<Longrightarrow> pte_addr \<noteq> NOTIFY_REG \<Longrightarrow>
    entry_ok (tlb_index (shr addr 12)) (leaf_entry addr asid pte access pte_addr)"
  unfolding entry_ok_def leaf_entry_def tlb_entry.simps
  using cached_perm [of access pte] pte_ppn_same [of pte] by blast

lemma set_ad_low8: "p AND 0xFF = p \<Longrightarrow> set_ad access p AND 0xFF = set_ad access p"
  by (simp add: set_ad_def PTE_defs and.commute [of _ 255] bit.conj_disj_distrib)

lemma hit_entry_ok: "entry_ok i e \<Longrightarrow> entry_ok i (e\<lparr>tlb_perm := set_ad access (tlb_perm e)\<rparr>)"
  by (auto simp: entry_ok_def PTE_bits bit_set_ad set_ad_low8)

text \<open>Loading the notify register gives 0, so it never passes for a page-table entry.\<close>

lemma load_notify:
  "Bus_load b NOTIFY_REG 8 = Some (b, Inr 0)"
  by (simp add: Bus_load_def NOTIFY_REG_def VirtioBlk_load_def)

section \<open>A translation returns and keeps the machine well-formed\<close>

lemma store_or_skip:
  assumes "bus_wf b" "a \<noteq> NOTIFY_REG"
  shows "\<exists>b' w. (if c then Bus_store b a 8 v else Some (b, Inr ())) = Some (b', w) \<and> bus_reaches b b'"
proof (cases c)
  case True
  obtain b' w where "Bus_store b a 8 v = Some (b', w)"
    using Bus_store_total [of b 8 a v] assms by (auto simp: NOTIFY_REG_def)
  then show ?thesis
    using True bus_reaches_one(2) [of b a 8 v b' w] by simp
qed simp

lemma walk_leaf_keeps:
  assumes "mmu_wf m" "bus_wf b" "pte AND PTE_V \<noteq> 0" "pte_addr \<noteq> NOTIFY_REG"
  shows "\<exists>m' b' r. walk_leaf rem m b pte_addr pte asid mode mstatus addr access = Some ((m', b'), r) \<and>
    mmu_wf m' \<and> bus_reaches b b'"
proof -
  obtain b' w where s: "(if set_ad access pte \<noteq> pte then Bus_store b pte_addr 8 (set_ad access pte)
      else Some (b, Inr ())) = Some (b', w)" and b': "bus_reaches b b'"
    using store_or_skip [OF assms(2,4)] by blast
  have e: "mmu_wf (m\<lparr>tlb := (tlb m)[tlb_index (shr addr 12) := leaf_entry addr asid pte access pte_addr]\<rparr>)"
    using assms by (intro mmu_wf_update leaf_entry_ok)
  show ?thesis
    using s b' assms(1,2) e unfolding walk_leaf_def Let_def leaf_entry_def
    by (cases w) (auto split: sum.splits)
qed

lemma walk_keeps:
  assumes "mmu_wf m" "bus_wf b"
  shows "\<exists>m' b' r. walk n m b table asid mode mstatus addr access = Some ((m', b'), r) \<and>
    mmu_wf m' \<and> bus_reaches b b'"
  using assms
proof (induction n arbitrary: b table)
  case 0
  then show ?case by simp
next
  case (Suc rem)
  let ?pa = "table + (shr addr (12 + rem * 9) AND 0x1FF) * 8"
  obtain b1 r where l: "Bus_load b ?pa 8 = Some (b1, r)" and b1: "bus_wf b1" "bus_reaches b b1"
    using Bus_load_total [of b 8 ?pa] Suc.prems bus_reaches_one(1) [of b ?pa 8] by auto
  show ?case
  proof (cases r)
    case (Inl e)
    then show ?thesis
      using l b1 Suc.prems by (simp add: Let_def)
  next
    case (Inr pte)
    have notify: "?pa \<noteq> NOTIFY_REG" if "pte AND PTE_V \<noteq> 0"
      using that l Inr load_notify [of b] by auto
    consider (bad) "pte AND PTE_V = 0 \<or> (pte AND PTE_W \<noteq> 0 \<and> pte AND PTE_R = 0)"
      | (leaf) "pte AND PTE_V \<noteq> 0" "\<not> (pte AND PTE_W \<noteq> 0 \<and> pte AND PTE_R = 0)" "pte AND (PTE_R OR PTE_X) \<noteq> 0"
      | (next_level) "pte AND PTE_V \<noteq> 0" "\<not> (pte AND PTE_W \<noteq> 0 \<and> pte AND PTE_R = 0)" "pte AND (PTE_R OR PTE_X) = 0"
      by blast
    then show ?thesis
    proof cases
      case bad
      then show ?thesis
        using l b1 Inr Suc.prems by (simp add: Let_def)
    next
      case leaf
      obtain m' b' r' where "walk_leaf rem m b1 ?pa pte asid mode mstatus addr access = Some ((m', b'), r')"
        "mmu_wf m'" "bus_reaches b1 b'"
        using walk_leaf_keeps [OF Suc.prems(1) b1(1) leaf(1) notify [OF leaf(1)]] by blast
      then show ?thesis
        using leaf l Inr bus_reaches_trans [OF b1(2)] by (auto simp: Let_def)
    next
      case next_level
      obtain m' b' r' where "walk rem m b1 (shl (pte_ppn pte) 12) asid mode mstatus addr access = Some ((m', b'), r')"
        "mmu_wf m'" "bus_reaches b1 b'"
        using Suc.IH [OF Suc.prems(1) b1(1), of "shl (pte_ppn pte) 12"] by blast
      then show ?thesis
        using next_level l Inr bus_reaches_trans [OF b1(2)] by (auto simp: Let_def)
    qed
  qed
qed

lemma tlb_hit_keeps:
  assumes "mmu_wf m" "bus_wf b" "idx < TLB_SIZE" "tlb_valid (tlb m ! idx)"
  shows "\<exists>m' b' r. tlb_hit m b idx mode mstatus addr access = Some ((m', b'), r) \<and>
    mmu_wf m' \<and> bus_reaches b b'"
proof -
  let ?e = "tlb m ! idx"
  have e: "entry_ok idx ?e" and n: "tlb_pte_addr ?e \<noteq> NOTIFY_REG"
    using assms by (auto simp: mmu_wf_def entry_ok_def)
  have u: "mmu_wf (m\<lparr>tlb := (tlb m)[idx := ?e\<lparr>tlb_perm := set_ad access (tlb_perm ?e)\<rparr>]\<rparr>)"
    using assms(1) e by (intro mmu_wf_update hit_entry_ok)
  obtain b' w where s: "Bus_store b (tlb_pte_addr ?e) 8 (shl (tlb_ppn ?e) 10 OR set_ad access (tlb_perm ?e))
      = Some (b', w)" and b': "bus_reaches b b'"
    using store_or_skip [OF assms(2) n, of True "shl (tlb_ppn ?e) 10 OR set_ad access (tlb_perm ?e)"]
    by auto
  show ?thesis
    using s b' u assms(1,2) unfolding tlb_hit_def Let_def
    by (auto split: sum.splits)
qed

lemma translate_keeps:
  assumes "mmu_wf m" "bus_wf b"
  shows "\<exists>m' b' r. Mmu_translate m b satp mode mstatus addr access = Some ((m', b'), r) \<and>
    mmu_wf m' \<and> bus_reaches b b'"
  using walk_keeps [OF assms] tlb_hit_keeps [OF assms tlb_index_less [of "shr addr 12"]] assms
  by (auto simp: Mmu_translate_def Let_def)

section \<open>Page tables\<close>

text \<open>
  What a page table means, with no walk, no TLB and no accessed or dirty bits: \<open>leaf_at\<close> relates a
  table of a given height to the leaf entry that maps the address, when its entries are in RAM.
\<close>

inductive leaf_at :: "bus \<Rightarrow> u64 \<Rightarrow> nat \<Rightarrow> u64 \<Rightarrow> u64 \<Rightarrow> u64 \<Rightarrow> nat \<Rightarrow> bool" for b addr where
  leaf: "ram_rd b (pte_slot table rem addr) 8 = pte \<Longrightarrow> pte_usable pte \<Longrightarrow> pte_leaf pte \<Longrightarrow>
    leaf_at b addr (Suc rem) table (pte_slot table rem addr) pte rem"
| node: "ram_rd b (pte_slot table rem addr) 8 = pte \<Longrightarrow> pte_usable pte \<Longrightarrow> \<not> pte_leaf pte \<Longrightarrow>
    leaf_at b addr rem (shl (pte_ppn pte) 12) pte_addr leaf_pte k \<Longrightarrow>
    leaf_at b addr (Suc rem) table pte_addr leaf_pte k"

inductive_cases leaf_atE: "leaf_at b addr (Suc rem) table pte_addr pte k"

inductive_simps leaf_at_0: "leaf_at b addr 0 table pte_addr pte k"

text \<open>Every entry that the address selects is in RAM.\<close>

fun tables_in_ram :: "bus \<Rightarrow> u64 \<Rightarrow> nat \<Rightarrow> u64 \<Rightarrow> bool" where
  "tables_in_ram b addr 0 table \<longleftrightarrow> True"
| "tables_in_ram b addr (Suc rem) table \<longleftrightarrow> ram_mapped b (pte_slot table rem addr) 8 \<and>
     (let pte = ram_rd b (pte_slot table rem addr) 8
      in pte_usable pte \<and> \<not> pte_leaf pte \<longrightarrow> tables_in_ram b addr rem (shl (pte_ppn pte) 12))"

lemma walk_unfold:
  "ram_mapped b (pte_slot table rem addr) 8 \<Longrightarrow>
    walk (Suc rem) m b table asid mode mstatus addr access =
      (let pte = ram_rd b (pte_slot table rem addr) 8
       in if \<not> pte_usable pte then Some ((m, b), Inl (MmuFault (pf_cause access) addr))
          else if pte_leaf pte
            then walk_leaf rem m b (pte_slot table rem addr) pte asid mode mstatus addr access
          else walk rem m b (shl (pte_ppn pte) 12) asid mode mstatus addr access)"
  using Bus_load_ram_rd [of b "pte_slot table rem addr" 8]
  by (auto simp: pte_slot_def pte_usable_def pte_leaf_def Let_def)

declare walk.simps(2) [simp del]

definition leaf_bus :: "bus \<Rightarrow> u64 \<Rightarrow> u64 \<Rightarrow> access_type \<Rightarrow> bus" where
  "leaf_bus b pte_addr pte access =
    (if set_ad access pte \<noteq> pte then ram_wr b pte_addr 8 (set_ad access pte) else b)"

lemma walk_leaf_good:
  assumes "ram_mapped b pte_addr 8" "good_leaf pte rem mstatus mode access"
  shows "\<exists>m'. walk_leaf rem m b pte_addr pte asid mode mstatus addr access =
    Some ((m', leaf_bus b pte_addr pte access), Inr (leaf_pa (pte_ppn pte) rem addr))"
proof -
  have "check_perms (pte AND 0xFF) mstatus mode access addr = Inr ()"
    using assms(2) by (simp add: good_leaf_def check_perms_granted)
  then show ?thesis
    using assms Bus_store_ram_wr [OF assms(1)]
    by (auto simp: walk_leaf_def good_leaf_def leaf_bus_def leaf_pa_def Let_def)
qed

lemma walk_leaf_bad:
  assumes "pte_usable pte" "pte_leaf pte" "\<not> good_leaf pte rem mstatus mode access"
  shows "walk_leaf rem m b pte_addr pte asid mode mstatus addr access =
    Some ((m, b), Inl (MmuFault (pf_cause access) addr))"
proof -
  consider "rem > 0 \<and> pte_ppn pte AND (shl 1 (rem * 9) - 1) \<noteq> 0"
    | "\<not> (rem > 0 \<and> pte_ppn pte AND (shl 1 (rem * 9) - 1) \<noteq> 0)"
      "\<not> granted (pte AND 0xFF) mstatus mode access"
    using assms unfolding good_leaf_def pte_usable_def pte_leaf_def by blast
  then show ?thesis
  proof cases
    case 1
    then show ?thesis by (simp add: walk_leaf_def)
  next
    case 2
    then obtain f where f: "check_perms (pte AND 0xFF) mstatus mode access addr = Inl f"
      using check_perms_granted [of "pte AND 0xFF" mstatus mode access addr]
      by (cases "check_perms (pte AND 0xFF) mstatus mode access addr") auto
    then have "f = MmuFault (pf_cause access) addr" by (rule check_perms_fault)
    with f 2 show ?thesis by (auto simp: walk_leaf_def Let_def)
  qed
qed

lemma leaf_at_mapped:
  assumes "leaf_at b addr n table pte_addr pte k" "tables_in_ram b addr n table"
  shows "ram_mapped b pte_addr 8 \<and> pte_usable pte \<and> pte_leaf pte"
  using assms by (induction rule: leaf_at.induct) (auto simp: Let_def)

text \<open>A table maps an address at most once.\<close>

lemma leaf_at_unique:
  assumes "leaf_at b addr n table pa pte k" "leaf_at b addr n table pa' pte' k'"
  shows "pa' = pa \<and> pte' = pte \<and> k' = k"
  using assms
proof (induction n arbitrary: table)
  case 0
  then show ?case by (simp add: leaf_at_0)
next
  case (Suc rem)
  show ?case
    by (rule leaf_atE [OF Suc.prems(1)]; rule leaf_atE [OF Suc.prems(2)]) (use Suc.IH in blast)+
qed

lemma walk_mapped:
  assumes "tables_in_ram b addr n table" "leaf_at b addr n table pte_addr pte k"
    "good_leaf pte k mstatus mode access"
  shows "\<exists>m'. walk n m b table asid mode mstatus addr access =
    Some ((m', leaf_bus b pte_addr pte access), Inr (leaf_pa (pte_ppn pte) k addr))"
  using assms(2,1,3)
proof (induction rule: leaf_at.induct)
  case (leaf table rem pte)
  then show ?case
    using walk_leaf_good [of b "pte_slot table rem addr" pte rem mstatus mode access m asid addr]
    by (simp add: walk_unfold Let_def)
next
  case node
  then show ?case
    by (simp add: walk_unfold Let_def)
qed

lemma walk_unmapped:
  assumes "tables_in_ram b addr n table"
    "\<not> (\<exists>pte_addr pte k. leaf_at b addr n table pte_addr pte k \<and> good_leaf pte k mstatus mode access)"
  shows "walk n m b table asid mode mstatus addr access =
    Some ((m, b), Inl (MmuFault (pf_cause access) addr))"
  using assms
proof (induction n arbitrary: table)
  case (Suc rem)
  let ?pte = "ram_rd b (pte_slot table rem addr) 8"
  consider "\<not> pte_usable ?pte" | "pte_usable ?pte" "pte_leaf ?pte" | "pte_usable ?pte" "\<not> pte_leaf ?pte"
    by blast
  then show ?case
  proof cases
    case 1
    then show ?thesis using Suc.prems(1) by (simp add: walk_unfold Let_def)
  next
    case 2
    then have "\<not> good_leaf ?pte rem mstatus mode access"
      using Suc.prems(2) leaf_at.leaf [OF refl] by blast
    then show ?thesis
      using 2 Suc.prems(1) by (simp add: walk_unfold Let_def walk_leaf_bad)
  next
    case 3
    have "walk rem m b (shl (pte_ppn ?pte) 12) asid mode mstatus addr access =
        Some ((m, b), Inl (MmuFault (pf_cause access) addr))"
      using 3 Suc.prems by (intro Suc.IH) (auto simp: Let_def intro: leaf_at.node [OF refl])
    then show ?thesis
      using 3 Suc.prems(1) by (simp add: walk_unfold Let_def)
  qed
qed simp

text \<open>The conditions under which a translation walks the table.\<close>

definition canonical :: "u64 \<Rightarrow> u64 \<Rightarrow> bool" where
  "canonical satp addr \<longleftrightarrow> (let top = sar addr (11 + satp_levels satp * 9) in top = 0 \<or> top = -1)"

definition root_table :: "u64 \<Rightarrow> u64" where
  "root_table satp = shl (satp AND 0x0FFFFFFFFFFF) 12"

definition paged :: "u64 \<Rightarrow> priv_mode \<Rightarrow> bool" where
  "paged satp mode \<longleftrightarrow> satp_levels satp \<noteq> 0 \<and> mode \<noteq> PrivMode_M"

definition tlb_has :: "mmu \<Rightarrow> u64 \<Rightarrow> u64 \<Rightarrow> bool" where
  "tlb_has m satp addr \<longleftrightarrow>
    (let e = tlb m ! tlb_index (shr addr 12)
     in tlb_valid e \<and> tlb_vpn e = shr addr 12 \<and>
        (tlb_asid e = ucast (shr satp 44 AND 0xFFFF) \<or> tlb_perm e AND PTE_G \<noteq> 0))"

lemma translate_cases:
  "Mmu_translate m b satp mode mstatus addr access =
    (if \<not> paged satp mode then Some ((m, b), Inr addr)
     else if \<not> canonical satp addr then Some ((m, b), Inl (MmuFault (pf_cause access) addr))
     else if tlb_has m satp addr then tlb_hit m b (tlb_index (shr addr 12)) mode mstatus addr access
     else walk (satp_levels satp) m b (root_table satp)
       (ucast (shr satp 44 AND 0xFFFF)) mode mstatus addr access)"
  by (auto simp: Mmu_translate_def paged_def canonical_def tlb_has_def root_table_def Let_def)

lemma flush_forgets_all: "mmu_wf m \<Longrightarrow> \<not> tlb_has (Mmu_flush m) satp addr"
  using tlb_index_less [of "shr addr 12"]
  by (simp add: tlb_has_def Mmu_flush_def mmu_wf_def Let_def)

section \<open>The TLB agrees with the walk\<close>

text \<open>The permission rule of the architecture, by bits of the entry and of \<open>mstatus\<close> (SUM, MXR).\<close>

definition permits :: "u64 \<Rightarrow> u64 \<Rightarrow> priv_mode \<Rightarrow> access_type \<Rightarrow> bool" where
  "permits perm mstatus mode access \<longleftrightarrow>
    (mode = PrivMode_U \<longrightarrow> bit perm 4) \<and> (mode = PrivMode_S \<and> bit perm 4 \<longrightarrow> bit mstatus 18) \<and>
    (case access of AccessType_Fetch \<Rightarrow> bit perm 3
     | AccessType_Load \<Rightarrow> bit perm 1 \<or> (bit mstatus 19 \<and> bit perm 3)
     | AccessType_Store \<Rightarrow> bit perm 2)"

lemma PTE_bits_0:
  "p AND PTE_V = 0 \<longleftrightarrow> \<not> bit p 0" "p AND PTE_R = 0 \<longleftrightarrow> \<not> bit p 1" "p AND PTE_W = 0 \<longleftrightarrow> \<not> bit p 2"
  "p AND PTE_X = 0 \<longleftrightarrow> \<not> bit p 3" "p AND PTE_U = 0 \<longleftrightarrow> \<not> bit p 4"
  using PTE_bits [of p] by blast+

lemma granted_permits: "granted perm mstatus mode access \<longleftrightarrow> permits perm mstatus mode access"
  unfolding granted_def check_perms_def permits_def Let_def PTE_bits_0 bit_tests
  by (cases access; cases mode) auto

lemma granted_set_ad: "granted (set_ad access p) mstatus mode access' = granted p mstatus mode access'"
  by (simp add: granted_permits permits_def bit_set_ad split: access_type.split)

lemma granted_leaf:
  "granted (set_ad access p AND 0xFF) mstatus mode access' = granted (p AND 0xFF) mstatus mode access'"
  by (simp only: granted_permits permits_def bit_set_ad bit_low8) (cases access', simp_all)

lemma set_ad_idem: "set_ad access (set_ad access p) = set_ad access p"
  by (rule bit_word_eqI) (auto simp: bit_set_ad)

lemma set_ad_leaf: "set_ad access (set_ad access p AND 0xFF) = set_ad access p AND 0xFF"
  by (rule bit_word_eqI) (simp only: bit_set_ad bit_low8, auto)

lemma tlb_hit_settled:
  assumes "granted (tlb_perm (tlb m ! i)) mstatus mode access"
    and "set_ad access (tlb_perm (tlb m ! i)) = tlb_perm (tlb m ! i)"
  shows "tlb_hit m b i mode mstatus addr access =
    Some ((m, b), Inr (shl (tlb_ppn (tlb m ! i)) 12 OR (addr AND 0xFFF)))"
proof -
  have "check_perms (tlb_perm (tlb m ! i)) mstatus mode access addr = Inr ()"
    using assms(1) by (simp add: check_perms_granted)
  then show ?thesis
    using assms(2) by (simp add: tlb_hit_def Let_def)
qed

lemma tlb_hit_success:
  assumes "tlb_hit m b i mode mstatus addr access = Some ((m', b'), Inr pa)"
  shows "granted (tlb_perm (tlb m ! i)) mstatus mode access \<and>
    pa = shl (tlb_ppn (tlb m ! i)) 12 OR (addr AND 0xFFF) \<and>
    m' = m\<lparr>tlb := (tlb m)[i := (tlb m ! i)\<lparr>tlb_perm := set_ad access (tlb_perm (tlb m ! i))\<rparr>]\<rparr>"
  using assms
  by (auto simp: tlb_hit_def Let_def check_perms_granted split: sum.splits if_splits bind_splits prod.splits)

lemma tlb_hit_fault:
  "tlb_hit m b i mode mstatus addr access = Some ((m', b'), Inl f) \<Longrightarrow>
    m' = m \<and> f = MmuFault (pf_cause access) addr"
  by (auto simp: tlb_hit_def Let_def split: sum.splits if_splits bind_splits prod.splits
      dest: check_perms_fault)

lemma translate_walked:
  assumes "paged satp mode" "canonical satp addr" "\<not> tlb_has m satp addr"
    and "Mmu_translate m b satp mode mstatus addr access = Some ((m', b'), Inr pa)"
  shows "\<exists>rem pte pte_addr. rem < satp_levels satp \<and>
    reads_leaf b addr (satp_levels satp) (root_table satp) pte_addr pte rem \<and>
    good_leaf pte rem mstatus mode access \<and> pa = leaf_pa (pte_ppn pte) rem addr \<and>
    m' = (if rem = 0 then m\<lparr>tlb := (tlb m)[tlb_index (shr addr 12) :=
            leaf_entry addr (ucast (shr satp 44 AND 0xFFFF)) pte access pte_addr]\<rparr> else m)"
  using assms walk_success by (auto simp: translate_cases)

lemma leaf_hit:
  assumes "length (tlb m) = TLB_SIZE" "good_leaf pte 0 mstatus mode access"
    and "m' = m\<lparr>tlb := (tlb m)[tlb_index (shr addr 12) := leaf_entry addr asid pte access pte_addr]\<rparr>"
  shows "tlb_hit m' b (tlb_index (shr addr 12)) mode mstatus addr access =
    Some ((m', b), Inr (leaf_pa (pte_ppn pte) 0 addr))"
proof -
  have e: "tlb m' ! tlb_index (shr addr 12) = leaf_entry addr asid pte access pte_addr"
    using assms(1,3) tlb_index_less [of "shr addr 12"] by simp
  show ?thesis
    using tlb_hit_settled [of m' "tlb_index (shr addr 12)" mstatus mode access b addr] assms(2)
    unfolding e leaf_pa_page
    by (simp add: leaf_entry_def granted_leaf set_ad_leaf good_leaf_def del: bit.conj_disj_distrib)
qed

lemma tlb_has_settled:
  assumes "tlb_has m satp addr" "length (tlb m) = TLB_SIZE"
    and "tlb_hit m b (tlb_index (shr addr 12)) mode mstatus addr access = Some ((m', b'), Inr pa)"
  shows "tlb_hit m' b' (tlb_index (shr addr 12)) mode mstatus addr access = Some ((m', b'), Inr pa)"
proof -
  let ?i = "tlb_index (shr addr 12)"
  have h: "granted (tlb_perm (tlb m ! ?i)) mstatus mode access"
    "pa = shl (tlb_ppn (tlb m ! ?i)) 12 OR (addr AND 0xFFF)"
    "tlb m' ! ?i = (tlb m ! ?i)\<lparr>tlb_perm := set_ad access (tlb_perm (tlb m ! ?i))\<rparr>"
    using tlb_hit_success [OF assms(3)] assms(2) tlb_index_less [of "shr addr 12"] by auto
  then show ?thesis
    by (subst tlb_hit_settled) (simp_all add: granted_set_ad set_ad_idem)
qed

section \<open>Properties\<close>

text \<open>
  C30. A translation always returns, faulting or not, in every privilege mode and paging mode, and
  keeps the machine well-formed: the TLB invariant, the device and RAM invariants of the bus, and
  the size and place of RAM.  In particular no page table can make it write the block device's
  notify register.
\<close>

theorem translation_returns:
  assumes "mmu_wf m" "bus_wf b"
  shows "\<exists>m' b' r. Mmu_translate m b satp mode mstatus addr access = Some ((m', b'), r) \<and>
    mmu_wf m' \<and> bus_wf b' \<and> ram_base b' = ram_base b \<and> length (ram b') = length (ram b)"
  using translate_keeps [OF assms] bus_reaches_same [OF _ assms(2)] by blast

theorem translation_returns_witness:
  "\<exists>m' b' r. Mmu_translate Mmu_new (Bus_new 16 0x80000000) (shl 8 60) PrivMode_S 0 0x1000 AccessType_Load =
    Some ((m', b'), r) \<and> mmu_wf m'"
proof -
  have "bus_wf (Bus_new 16 0x80000000)"
    by (simp add: bus_wf_def Bus_new_def plic_wf_new)
  from translation_returns [OF mmu_wf_new this] show ?thesis by blast
qed

text \<open>A TLB with one entry: page 0 at frame \<open>0x80000\<close>, writable, accessed and not yet dirty.\<close>

definition demo_entry :: tlb_entry where
  "demo_entry = \<lparr>tlb_valid = True, tlb_vpn = 0, tlb_ppn = 0x80000, tlb_perm = 0x4F, tlb_asid = 0,
    tlb_pte_addr = 0x80000000\<rparr>"

definition demo_tlb :: mmu where
  "demo_tlb = Mmu_new\<lparr>tlb := (tlb Mmu_new)[0 := demo_entry]\<rparr>"

definition demo_dirty :: mmu where
  "demo_dirty = demo_tlb\<lparr>tlb := (tlb demo_tlb)[0 := demo_entry\<lparr>tlb_perm := 0xCF\<rparr>]\<rparr>"

lemma demo_translation:
  "mmu_wf demo_tlb" "paged 0x8000000000080000 PrivMode_S"
  "tlb_has demo_tlb 0x8000000000080000 0x123" "tlb_has demo_dirty 0x8000000000080000 0x123"
  "tlb demo_tlb ! 0 = demo_entry" "tlb demo_dirty ! 0 = demo_entry\<lparr>tlb_perm := 0xCF\<rparr>" "tlb_index 0 = 0"
  "Mmu_translate demo_tlb (Bus_new 8 0x80000000) 0x8000000000080000 PrivMode_S 0 0x123 AccessType_Store =
    Some ((demo_dirty, ram_wr (Bus_new 8 0x80000000) 0x80000000 8 0x200000CF), Inr 0x80000123)"
proof -
  let ?b = "Bus_new 8 0x80000000"
  show i: "tlb_index 0 = 0" by (simp add: tlb_index_def)
  show e: "tlb demo_tlb ! 0 = demo_entry" "tlb demo_dirty ! 0 = demo_entry\<lparr>tlb_perm := 0xCF\<rparr>"
    by (simp_all add: demo_tlb_def demo_dirty_def Mmu_new_def TLB_SIZE_def)
  show "mmu_wf demo_tlb"
    unfolding demo_tlb_def
    by (rule mmu_wf_update [OF mmu_wf_new])
      (simp add: entry_ok_def demo_entry_def i NOTIFY_REG_def PTE_defs)
  have m: "ram_mapped ?b 0x80000000 8"
    by (simp add: ram_mapped_def bus_wf_def in_ram_def Bus_new_def plic_wf_new)
  show c: "paged 0x8000000000080000 PrivMode_S"
    "tlb_has demo_tlb 0x8000000000080000 0x123" "tlb_has demo_dirty 0x8000000000080000 0x123"
    by (simp_all add: paged_def satp_levels_def tlb_has_def i e demo_entry_def)
  have d: "canonical 0x8000000000080000 0x123"
    by (simp add: canonical_def satp_levels_def signed_drop_bit_word_numeral)
  have "granted 0x4F 0 PrivMode_S AccessType_Store"
    by (simp add: granted_permits permits_def enum_bits)
  then have ck: "check_perms 0x4F 0 PrivMode_S AccessType_Store 0x123 = Inr ()"
    by (simp add: check_perms_granted)
  have h: "tlb_hit demo_tlb ?b 0 PrivMode_S 0 0x123 AccessType_Store =
      Some ((demo_dirty, ram_wr ?b 0x80000000 8 0x200000CF), Inr 0x80000123)"
    unfolding tlb_hit_def e Let_def demo_dirty_def
    using Bus_store_ram_wr [OF m, of "0x200000CF"] by (simp add: demo_entry_def ck set_ad_def PTE_defs)
  show "Mmu_translate demo_tlb ?b 0x8000000000080000 PrivMode_S 0 0x123 AccessType_Store =
      Some ((demo_dirty, ram_wr ?b 0x80000000 8 0x200000CF), Inr 0x80000123)"
    using c d h by (simp only: translate_cases) (simp add: i)
qed

lemma leaf_pa_low:
  assumes "rem < 5"
  shows "take_bit 12 (leaf_pa ppn rem addr) = take_bit 12 addr"
proof -
  have "take_bit 12 (take_bit (12 + rem * 9) (leaf_pa ppn rem addr)) =
      take_bit 12 (take_bit (12 + rem * 9) addr)"
    by (simp only: leaf_pa_offset [OF assms])
  then show ?thesis by simp
qed




text \<open>A table of one entry: a gigabyte page at \<open>0x80000000\<close>, readable, writable and executable.\<close>

definition giga_bus :: bus where
  "giga_bus = (Bus_new 8 0x80000000)\<lparr>ram := [0xCF, 0, 0, 0x20, 0, 0, 0, 0]\<rparr>"


text \<open>
  C7. A cached translation is the walked one: when a translation succeeds and leaves an entry for
  the page in the TLB, the same access translates to the same address again, from the TLB, and
  changes neither the TLB nor memory.
\<close>

theorem retranslation_stable:
  assumes "mmu_wf m" "Mmu_translate m b satp mode mstatus addr access = Some ((m', b'), Inr pa)"
    and "tlb_has m' satp addr"
  shows "Mmu_translate m' b' satp mode mstatus addr access = Some ((m', b'), Inr pa)"
proof (cases "paged satp mode")
  case False
  then show ?thesis using assms(2) by (auto simp: translate_cases)
next
  case paged: True
  then have c: "canonical satp addr"
    using assms(2) by (auto simp: translate_cases split: if_splits)
  have len: "length (tlb m) = TLB_SIZE"
    using assms(1) by (simp add: mmu_wf_def)
  have "tlb_hit m' b' (tlb_index (shr addr 12)) mode mstatus addr access = Some ((m', b'), Inr pa)"
  proof (cases "tlb_has m satp addr")
    case True
    then have "tlb_hit m b (tlb_index (shr addr 12)) mode mstatus addr access = Some ((m', b'), Inr pa)"
      using assms(2) paged c by (simp add: translate_cases)
    then show ?thesis by (rule tlb_has_settled [OF True len])
  next
    case False
    from translate_walked [OF paged c False assms(2)] obtain rem pte pte_addr where
      r: "good_leaf pte rem mstatus mode access" "pa = leaf_pa (pte_ppn pte) rem addr"
      "m' = (if rem = 0 then m\<lparr>tlb := (tlb m)[tlb_index (shr addr 12) :=
            leaf_entry addr (ucast (shr satp 44 AND 0xFFFF)) pte access pte_addr]\<rparr> else m)"
      by blast
    have "rem = 0"
      using r(3) False assms(3) by (auto split: if_splits)
    then show ?thesis
      using r leaf_hit [OF len] by simp
  qed
  then show ?thesis
    using paged c assms(3) by (simp add: translate_cases)
qed

theorem retranslation_stable_witness:
  "\<exists>m' b'. Mmu_translate m' b' 0x8000000000080000 PrivMode_S 0 0x123 AccessType_Store =
    Some ((m', b'), Inr 0x80000123) \<and> tlb_perm (tlb m' ! 0) = 0xCF"
  using retranslation_stable [OF demo_translation(1,8,4)] demo_translation(6) by auto

end
