(* ===== verification/Decode.thy ===== *)
theory Decode
  imports Prelude
begin

text \<open>
  The instruction decoder: \<open>src/cpu/decode.rs\<close>.  The enum \<open>Instruction\<close> has one variant per
  mnemonic; the datatype \<open>instruction\<close> groups the variants with the same operands, so that
  \<open>Instruction::Add { rd, rs1, rs2 }\<close> is \<open>RType Add rd rs1 rs2\<close> and likewise for the other groups,
  every mnemonic keeping its name.  Immediates are the source's \<open>i64\<close> (a 64-bit word read signed),
  register numbers and shift amounts are \<open>nat\<close>.  A \<open>match\<close> on constants is a lookup in a table
  with the arms' order; \<open>unreachable!\<close> is \<open>None\<close>.
\<close>

datatype (plugins only: code) illegal_instruction = IllegalInstruction u32

datatype (plugins only: code) r_op = Add | Sub | Sll | Slt | Sltu | Xor | Srl | Sra | Or | And
  | Addw | Subw | Sllw | Srlw | Sraw

datatype (plugins only: code) m_op = Mul | Mulh | Mulhsu | Mulhu | Div | Divu | Rem | Remu
  | Mulw | Divw | Divuw | Remw | Remuw

datatype (plugins only: code) amo_op = AmoswapD | AmoswapW | AmoaddD | AmoaddW | AmoxorD | AmoxorW | AmoandD | AmoandW
  | AmoorD | AmoorW | AmominD | AmominW | AmomaxD | AmomaxW | AmominuD | AmominuW
  | AmomaxuD | AmomaxuW

datatype (plugins only: code) i_op = Addi | Slti | Sltiu | Xori | Ori | Andi | Addiw

datatype (plugins only: code) shift_op = Slli | Srli | Srai | Slliw | Srliw | Sraiw

datatype (plugins only: code) load_op = Lb | Lh | Lw | Ld | Lbu | Lhu | Lwu

datatype (plugins only: code) store_op = Sb | Sh | Sw | Sd

datatype (plugins only: code) branch_op = Beq | Bne | Blt | Bge | Bltu | Bgeu

datatype (plugins only: code) csr_op = Csrrw | Csrrs | Csrrc

datatype (plugins only: code) csri_op = Csrrwi | Csrrsi | Csrrci

text \<open>
  Operands: \<open>RType op rd rs1 rs2\<close> and so for \<open>MType\<close>, \<open>Amo\<close>, \<open>ScD\<close>, \<open>ScW\<close>; \<open>LrD rd rs1\<close>;
  \<open>IType op rd rs1 imm\<close>, \<open>Shift op rd rs1 shamt\<close>, \<open>Load op rd rs1 imm\<close>, \<open>Store op rs1 rs2 imm\<close>,
  \<open>Branch op rs1 rs2 imm\<close>, \<open>Csr op rd rs1 csr\<close>, \<open>CsrI op rd uimm csr\<close>, \<open>Flw fd rs1 imm\<close>,
  \<open>Fsw rs1 fs2 imm\<close>, \<open>OpFp funct7 rs2 rs1 rm rd\<close>, \<open>Fma opcode fmt rs3 rs2 rs1 rd\<close>.
\<close>

datatype (plugins only: code) instruction =
    RType r_op nat nat nat
  | MType m_op nat nat nat
  | LrD nat nat
  | LrW nat nat
  | ScD nat nat nat
  | ScW nat nat nat
  | Amo amo_op nat nat nat
  | IType i_op nat nat i64
  | Shift shift_op nat nat nat
  | Load load_op nat nat i64
  | Store store_op nat nat i64
  | Branch branch_op nat nat i64
  | Jal nat i64
  | Jalr nat nat i64
  | Lui nat i64
  | Auipc nat i64
  | Fence
  | Ecall
  | Ebreak
  | Mret
  | Sret
  | Wfi
  | SfenceVma
  | CsrR csr_op nat nat u16
  | CsrI csri_op nat u32 u16
  | Flw nat nat i64
  | Fld nat nat i64
  | Fsw nat nat i64
  | Fsd nat nat i64
  | OpFp u8 nat nat u8 nat
  | Fma u8 u8 nat nat nat nat

type_synonym decoded = "(illegal_instruction + instruction) option"

section \<open>Fields\<close>

definition i_imm :: "u32 \<Rightarrow> i64" where
  "i_imm inst = scast (sar inst 20)"

definition s_imm :: "u32 \<Rightarrow> i64" where
  "s_imm inst =
    (let raw = shl (shr inst 25) 5 OR (shr inst 7 AND 0x1f)
     in scast (sar (shl raw 20) 20))"

definition b_imm :: "u32 \<Rightarrow> i64" where
  "b_imm inst =
    (let raw = shl (shr inst 31) 12 OR shl (shr inst 7 AND 0x1) 11
           OR shl (shr inst 25 AND 0x3f) 5 OR shl (shr inst 8 AND 0xf) 1
     in scast (sar (shl raw 19) 19))"

definition u_imm :: "u32 \<Rightarrow> i64" where
  "u_imm inst = scast (inst AND 0xFFFFF000)"

definition j_imm :: "u32 \<Rightarrow> i64" where
  "j_imm inst =
    (let raw = shl (shr inst 31) 20 OR (inst AND 0x000FF000)
           OR shl (shr inst 20 AND 0x1) 11 OR shl (shr inst 21 AND 0x3ff) 1
     in scast (sar (shl raw 11) 11))"

definition inst_reg :: "u32 \<Rightarrow> nat \<Rightarrow> nat" where
  "inst_reg inst lo = unat (shr inst lo AND 0x1f)"

text \<open>A \<open>match\<close> whose arms are constants and whose default is an illegal instruction.\<close>

definition match_table :: "u32 \<Rightarrow> ('k \<times> instruction) list \<Rightarrow> 'k \<Rightarrow> decoded" where
  "match_table inst arms k =
    (case map_of arms k of Some i \<Rightarrow> Ok i | None \<Rightarrow> Err (IllegalInstruction inst))"

section \<open>32-bit instructions\<close>

definition decode_op :: "u32 \<Rightarrow> u32 \<Rightarrow> u32 \<Rightarrow> nat \<Rightarrow> nat \<Rightarrow> nat \<Rightarrow> decoded" where
  "decode_op inst funct3 funct7 rd rs1 rs2 = match_table inst
    [((0x0, 0x00), RType Add rd rs1 rs2),
     ((0x0, 0x20), RType Sub rd rs1 rs2),
     ((0x1, 0x00), RType Sll rd rs1 rs2),
     ((0x2, 0x00), RType Slt rd rs1 rs2),
     ((0x3, 0x00), RType Sltu rd rs1 rs2),
     ((0x4, 0x00), RType Xor rd rs1 rs2),
     ((0x5, 0x00), RType Srl rd rs1 rs2),
     ((0x5, 0x20), RType Sra rd rs1 rs2),
     ((0x6, 0x00), RType Or rd rs1 rs2),
     ((0x7, 0x00), RType And rd rs1 rs2),
     ((0x0, 0x01), MType Mul rd rs1 rs2),
     ((0x1, 0x01), MType Mulh rd rs1 rs2),
     ((0x2, 0x01), MType Mulhsu rd rs1 rs2),
     ((0x3, 0x01), MType Mulhu rd rs1 rs2),
     ((0x4, 0x01), MType Div rd rs1 rs2),
     ((0x5, 0x01), MType Divu rd rs1 rs2),
     ((0x6, 0x01), MType Rem rd rs1 rs2),
     ((0x7, 0x01), MType Remu rd rs1 rs2)] (funct3, funct7)"

definition decode_op_32 :: "u32 \<Rightarrow> u32 \<Rightarrow> u32 \<Rightarrow> nat \<Rightarrow> nat \<Rightarrow> nat \<Rightarrow> decoded" where
  "decode_op_32 inst funct3 funct7 rd rs1 rs2 = match_table inst
    [((0x0, 0x00), RType Addw rd rs1 rs2),
     ((0x0, 0x20), RType Subw rd rs1 rs2),
     ((0x1, 0x00), RType Sllw rd rs1 rs2),
     ((0x5, 0x00), RType Srlw rd rs1 rs2),
     ((0x5, 0x20), RType Sraw rd rs1 rs2),
     ((0x0, 0x01), MType Mulw rd rs1 rs2),
     ((0x4, 0x01), MType Divw rd rs1 rs2),
     ((0x5, 0x01), MType Divuw rd rs1 rs2),
     ((0x6, 0x01), MType Remw rd rs1 rs2),
     ((0x7, 0x01), MType Remuw rd rs1 rs2)] (funct3, funct7)"

definition decode_op_imm :: "u32 \<Rightarrow> u32 \<Rightarrow> nat \<Rightarrow> nat \<Rightarrow> decoded" where
  "decode_op_imm inst funct3 rd rs1 =
    (let imm = i_imm inst; shamt = unat (shr inst 20 AND 0x3f) in
     if funct3 = 0x0 then Ok (IType Addi rd rs1 imm)
     else if funct3 = 0x2 then Ok (IType Slti rd rs1 imm)
     else if funct3 = 0x3 then Ok (IType Sltiu rd rs1 imm)
     else if funct3 = 0x4 then Ok (IType Xori rd rs1 imm)
     else if funct3 = 0x6 then Ok (IType Ori rd rs1 imm)
     else if funct3 = 0x7 then Ok (IType Andi rd rs1 imm)
     else if funct3 = 0x1 then Ok (Shift Slli rd rs1 shamt)
     else if funct3 = 0x5 then
       (if shr inst 30 AND 1 = 0 then Ok (Shift Srli rd rs1 shamt)
        else Ok (Shift Srai rd rs1 shamt))
     else None)"

definition decode_op_imm_32 :: "u32 \<Rightarrow> u32 \<Rightarrow> nat \<Rightarrow> nat \<Rightarrow> decoded" where
  "decode_op_imm_32 inst funct3 rd rs1 =
    (let shamt = unat (shr inst 20 AND 0x1f) in
     if funct3 = 0x0 then Ok (IType Addiw rd rs1 (i_imm inst))
     else if funct3 = 0x1 then Ok (Shift Slliw rd rs1 shamt)
     else if funct3 = 0x5 then
       (if shr inst 30 AND 1 = 0 then Ok (Shift Srliw rd rs1 shamt)
        else Ok (Shift Sraiw rd rs1 shamt))
     else Err (IllegalInstruction inst))"

definition decode_load :: "u32 \<Rightarrow> u32 \<Rightarrow> nat \<Rightarrow> nat \<Rightarrow> decoded" where
  "decode_load inst funct3 rd rs1 =
    (let imm = i_imm inst in match_table inst
      [(0x0, Load Lb rd rs1 imm), (0x1, Load Lh rd rs1 imm), (0x2, Load Lw rd rs1 imm),
       (0x3, Load Ld rd rs1 imm), (0x4, Load Lbu rd rs1 imm), (0x5, Load Lhu rd rs1 imm),
       (0x6, Load Lwu rd rs1 imm)] funct3)"

definition decode_load_fp :: "u32 \<Rightarrow> u32 \<Rightarrow> nat \<Rightarrow> nat \<Rightarrow> decoded" where
  "decode_load_fp inst funct3 rd rs1 =
    (let imm = i_imm inst in match_table inst [(0x2, Flw rd rs1 imm), (0x3, Fld rd rs1 imm)] funct3)"

definition decode_store_fp :: "u32 \<Rightarrow> u32 \<Rightarrow> nat \<Rightarrow> nat \<Rightarrow> decoded" where
  "decode_store_fp inst funct3 rs1 rs2 =
    (let imm = s_imm inst in match_table inst [(0x2, Fsw rs1 rs2 imm), (0x3, Fsd rs1 rs2 imm)] funct3)"

definition decode_store :: "u32 \<Rightarrow> u32 \<Rightarrow> nat \<Rightarrow> nat \<Rightarrow> decoded" where
  "decode_store inst funct3 rs1 rs2 =
    (let imm = s_imm inst in match_table inst
      [(0x0, Store Sb rs1 rs2 imm), (0x1, Store Sh rs1 rs2 imm), (0x2, Store Sw rs1 rs2 imm),
       (0x3, Store Sd rs1 rs2 imm)] funct3)"

definition decode_branch :: "u32 \<Rightarrow> u32 \<Rightarrow> nat \<Rightarrow> nat \<Rightarrow> decoded" where
  "decode_branch inst funct3 rs1 rs2 =
    (let imm = b_imm inst in match_table inst
      [(0x0, Branch Beq rs1 rs2 imm), (0x1, Branch Bne rs1 rs2 imm), (0x4, Branch Blt rs1 rs2 imm),
       (0x5, Branch Bge rs1 rs2 imm), (0x6, Branch Bltu rs1 rs2 imm),
       (0x7, Branch Bgeu rs1 rs2 imm)] funct3)"

definition decode_amo :: "u32 \<Rightarrow> u32 \<Rightarrow> nat \<Rightarrow> nat \<Rightarrow> nat \<Rightarrow> decoded" where
  "decode_amo inst funct3 rd rs1 rs2 =
    (let funct5 = shr inst 27 AND 0x1f; is_double = (funct3 AND 0x1 = 1) in match_table inst
      [((0x02, True), LrD rd rs1), ((0x02, False), LrW rd rs1),
       ((0x03, True), ScD rd rs1 rs2), ((0x03, False), ScW rd rs1 rs2),
       ((0x01, True), Amo AmoswapD rd rs1 rs2), ((0x01, False), Amo AmoswapW rd rs1 rs2),
       ((0x00, True), Amo AmoaddD rd rs1 rs2), ((0x00, False), Amo AmoaddW rd rs1 rs2),
       ((0x04, True), Amo AmoxorD rd rs1 rs2), ((0x04, False), Amo AmoxorW rd rs1 rs2),
       ((0x0C, True), Amo AmoandD rd rs1 rs2), ((0x0C, False), Amo AmoandW rd rs1 rs2),
       ((0x08, True), Amo AmoorD rd rs1 rs2), ((0x08, False), Amo AmoorW rd rs1 rs2),
       ((0x10, True), Amo AmominD rd rs1 rs2), ((0x10, False), Amo AmominW rd rs1 rs2),
       ((0x14, True), Amo AmomaxD rd rs1 rs2), ((0x14, False), Amo AmomaxW rd rs1 rs2),
       ((0x18, True), Amo AmominuD rd rs1 rs2), ((0x18, False), Amo AmominuW rd rs1 rs2),
       ((0x1C, True), Amo AmomaxuD rd rs1 rs2), ((0x1C, False), Amo AmomaxuW rd rs1 rs2)]
      (funct5, is_double))"

definition decode_system :: "u32 \<Rightarrow> u32 \<Rightarrow> nat \<Rightarrow> nat \<Rightarrow> decoded" where
  "decode_system inst funct3 rd rs1 =
    (let csr = ucast (shr inst 20 AND 0xfff) :: u16 in
     if funct3 = 0x0 then
       (if (csr, rs1, rd) = (0x000, 0, 0) then Ok Ecall
        else if (csr, rs1, rd) = (0x001, 0, 0) then Ok Ebreak
        else if (csr, rs1, rd) = (0x102, 0, 0) then Ok Sret
        else if (csr, rs1, rd) = (0x302, 0, 0) then Ok Mret
        else if (csr, rs1, rd) = (0x105, 0, 0) then Ok Wfi
        else if rd = 0 \<and> shr csr 5 = 0x09 then Ok SfenceVma
        else Err (IllegalInstruction inst))
     else match_table inst
      [(0x1, CsrR Csrrw rd rs1 csr), (0x2, CsrR Csrrs rd rs1 csr), (0x3, CsrR Csrrc rd rs1 csr),
       (0x5, CsrI Csrrwi rd (of_nat rs1) csr), (0x6, CsrI Csrrsi rd (of_nat rs1) csr),
       (0x7, CsrI Csrrci rd (of_nat rs1) csr)] funct3)"

definition decode :: "u32 \<Rightarrow> decoded" where
  "decode inst =
    (let opcode = inst AND 0x7f;
         funct3 = shr inst 12 AND 0x7;
         funct7 = shr inst 25 AND 0x7f;
         rd = inst_reg inst 7;
         rs1 = inst_reg inst 15;
         rs2 = inst_reg inst 20
     in
     if opcode = 0x33 then decode_op inst funct3 funct7 rd rs1 rs2
     else if opcode = 0x3B then decode_op_32 inst funct3 funct7 rd rs1 rs2
     else if opcode = 0x13 then decode_op_imm inst funct3 rd rs1
     else if opcode = 0x1B then decode_op_imm_32 inst funct3 rd rs1
     else if opcode = 0x03 then decode_load inst funct3 rd rs1
     else if opcode = 0x07 then decode_load_fp inst funct3 rd rs1
     else if opcode = 0x27 then decode_store_fp inst funct3 rs1 rs2
     else if opcode = 0x53 then Ok (OpFp (ucast funct7) rs2 rs1 (ucast funct3) rd)
     else if opcode = 0x43 \<or> opcode = 0x47 \<or> opcode = 0x4B \<or> opcode = 0x4F then
       (let fmt = ucast (shr inst 25 AND 0x3); rs3 = unat (shr inst 27 AND 0x1F)
        in Ok (Fma (ucast opcode) fmt rs3 rs2 rs1 rd))
     else if opcode = 0x23 then decode_store inst funct3 rs1 rs2
     else if opcode = 0x63 then decode_branch inst funct3 rs1 rs2
     else if opcode = 0x6F then Ok (Jal rd (j_imm inst))
     else if opcode = 0x67 then Ok (Jalr rd rs1 (i_imm inst))
     else if opcode = 0x37 then Ok (Lui rd (u_imm inst))
     else if opcode = 0x17 then Ok (Auipc rd (u_imm inst))
     else if opcode = 0x2F then decode_amo inst funct3 rd rs1 rs2
     else if opcode = 0x0F then Ok Fence
     else if opcode = 0x73 then decode_system inst funct3 rd rs1
     else Err (IllegalInstruction inst))"

section \<open>Compressed instructions\<close>

text \<open>A compressed register field: three bits that name \<open>x8\<close> to \<open>x15\<close>.\<close>

definition rvc_rp :: "u32 \<Rightarrow> nat \<Rightarrow> nat" where
  "rvc_rp w shift = unat (8 + (shr w shift AND 0x7))"

definition rvc_q0 :: "u32 \<Rightarrow> u32 \<Rightarrow> decoded" where
  "rvc_q0 w funct3 =
    (let rd_p = rvc_rp w 2;
         rs1_p = rvc_rp w 7;
         uimm_w = shl (shr w 6 AND 1) 2 OR shl (shr w 10 AND 7) 3 OR shl (shr w 5 AND 1) 6;
         uimm_d = shl (shr w 10 AND 7) 3 OR shl (shr w 5 AND 3) 6
     in
     if funct3 = 0b000 then
       (let uimm = shl (shr w 6 AND 1) 2 OR shl (shr w 5 AND 1) 3 OR shl (shr w 11 AND 3) 4
              OR shl (shr w 7 AND 0xf) 6
        in if uimm = 0 then Err (IllegalInstruction w)
           else Ok (IType Addi rd_p 2 (ucast uimm)))
     else if funct3 = 0b001 then Ok (Fld rd_p rs1_p (ucast uimm_d))
     else if funct3 = 0b010 then Ok (Load Lw rd_p rs1_p (ucast uimm_w))
     else if funct3 = 0b011 then Ok (Load Ld rd_p rs1_p (ucast uimm_d))
     else if funct3 = 0b101 then Ok (Fsd rs1_p (rvc_rp w 2) (ucast uimm_d))
     else if funct3 = 0b110 then Ok (Store Sw rs1_p (rvc_rp w 2) (ucast uimm_w))
     else if funct3 = 0b111 then Ok (Store Sd rs1_p (rvc_rp w 2) (ucast uimm_d))
     else Err (IllegalInstruction w))"

text \<open>Sign extension of an assembled immediate: or in \<open>msk\<close> when bit \<open>b\<close> is set.\<close>

definition rvc_sext :: "u32 \<Rightarrow> nat \<Rightarrow> i64 \<Rightarrow> i64" where
  "rvc_sext raw b msk = (if shr raw b AND 1 = 1 then ucast raw OR msk else ucast raw)"

text \<open>Quadrant 01, \<open>funct3 = 100\<close>: shifts, \<open>C.ANDI\<close> and the register operations.\<close>

definition rvc_q1_alu :: "u32 \<Rightarrow> decoded" where
  "rvc_q1_alu w =
    (let funct2 = shr w 10 AND 0x3;
         rd_p = rvc_rp w 7;
         rs2_p = rvc_rp w 2;
         shamt = unat (shl (shr w 12 AND 1) 5 OR (shr w 2 AND 0x1f));
         simm = rvc_sext (shl (shr w 12 AND 1) 5 OR (shr w 2 AND 0x1f)) 5 (-64)
     in
     if funct2 = 0b00 then Ok (Shift Srli rd_p rd_p shamt)
     else if funct2 = 0b01 then Ok (Shift Srai rd_p rd_p shamt)
     else if funct2 = 0b10 then Ok (IType Andi rd_p rd_p simm)
     else if funct2 = 0b11 then
       (let bit12 = shr w 12 AND 1; funct = shr w 5 AND 0x3
        in match_table w
          [((0, 0b00), RType Sub rd_p rd_p rs2_p),
           ((0, 0b01), RType Xor rd_p rd_p rs2_p),
           ((0, 0b10), RType Or rd_p rd_p rs2_p),
           ((0, 0b11), RType And rd_p rd_p rs2_p),
           ((1, 0b00), RType Subw rd_p rd_p rs2_p),
           ((1, 0b01), RType Addw rd_p rd_p rs2_p)] (bit12, funct))
     else None)"

text \<open>The offset of \<open>C.BEQZ\<close> and \<open>C.BNEZ\<close>, and that of \<open>C.J\<close>.\<close>

definition rvc_branch_imm :: "u32 \<Rightarrow> i64" where
  "rvc_branch_imm w =
    (let raw = shl (shr w 12 AND 1) 8 OR shl (shr w 10 AND 3) 3 OR shl (shr w 5 AND 3) 6
           OR shl (shr w 3 AND 3) 1 OR shl (shr w 2 AND 1) 5
     in rvc_sext raw 8 (NOT 0xff))"

definition rvc_jump_imm :: "u32 \<Rightarrow> i64" where
  "rvc_jump_imm w =
    (let raw = shl (shr w 12 AND 1) 11 OR shl (shr w 11 AND 1) 4 OR shl (shr w 9 AND 3) 8
           OR shl (shr w 8 AND 1) 10 OR shl (shr w 7 AND 1) 6 OR shl (shr w 6 AND 1) 7
           OR shl (shr w 3 AND 7) 1 OR shl (shr w 2 AND 1) 5
     in rvc_sext raw 11 (NOT 0x7ff))"

definition rvc_q1 :: "u32 \<Rightarrow> u32 \<Rightarrow> decoded" where
  "rvc_q1 w funct3 =
    (let rd_rs1 = unat (shr w 7 AND 0x1f);
         imm6 = rvc_sext (shl (shr w 12 AND 1) 5 OR (shr w 2 AND 0x1f)) 5 (-64)
     in
     if funct3 = 0b000 then Ok (IType Addi rd_rs1 rd_rs1 imm6)
     else if funct3 = 0b001 then
       (if rd_rs1 = 0 then Err (IllegalInstruction w) else Ok (IType Addiw rd_rs1 rd_rs1 imm6))
     else if funct3 = 0b010 then Ok (IType Addi rd_rs1 0 imm6)
     else if funct3 = 0b011 then
       (if rd_rs1 = 2 then
          (let raw = shl (shr w 12 AND 1) 9 OR shl (shr w 3 AND 3) 7 OR shl (shr w 5 AND 1) 6
                 OR shl (shr w 2 AND 1) 5 OR shl (shr w 6 AND 1) 4;
               nzimm = rvc_sext raw 9 (NOT 0x3ff)
           in if nzimm = 0 then Err (IllegalInstruction w) else Ok (IType Addi 2 2 nzimm))
        else if rd_rs1 \<noteq> 0 then
          (let raw = shl (shr w 12 AND 1) 17 OR shl (shr w 2 AND 0x1f) 12;
               nzimm = rvc_sext raw 17 (NOT 0x3ffff)
           in if nzimm = 0 then Err (IllegalInstruction w) else Ok (Lui rd_rs1 nzimm))
        else Err (IllegalInstruction w))
     else if funct3 = 0b100 then rvc_q1_alu w
     else if funct3 = 0b101 then Ok (Jal 0 (rvc_jump_imm w))
     else if funct3 = 0b110 then Ok (Branch Beq (rvc_rp w 7) 0 (rvc_branch_imm w))
     else if funct3 = 0b111 then Ok (Branch Bne (rvc_rp w 7) 0 (rvc_branch_imm w))
     else Err (IllegalInstruction w))"

definition rvc_q2 :: "u32 \<Rightarrow> u32 \<Rightarrow> decoded" where
  "rvc_q2 w funct3 =
    (let rd_rs1 = unat (shr w 7 AND 0x1f);
         rs2 = unat (shr w 2 AND 0x1f);
         uimm_ldsp = shl (shr w 12 AND 1) 5 OR shl (shr w 5 AND 3) 3 OR shl (shr w 2 AND 7) 6;
         uimm_sdsp = shl (shr w 10 AND 7) 3 OR shl (shr w 7 AND 7) 6
     in
     if funct3 = 0b000 then
       Ok (Shift Slli rd_rs1 rd_rs1 (unat (shl (shr w 12 AND 1) 5 OR (shr w 2 AND 0x1f))))
     else if funct3 = 0b001 then Ok (Fld rd_rs1 2 (ucast uimm_ldsp))
     else if funct3 = 0b010 then
       (if rd_rs1 = 0 then Err (IllegalInstruction w)
        else let uimm = shl (shr w 12 AND 1) 5 OR shl (shr w 4 AND 7) 2 OR shl (shr w 2 AND 3) 6
          in Ok (Load Lw rd_rs1 2 (ucast uimm)))
     else if funct3 = 0b011 then
       (if rd_rs1 = 0 then Err (IllegalInstruction w)
        else Ok (Load Ld rd_rs1 2 (ucast uimm_ldsp)))
     else if funct3 = 0b100 then
       (let bit12 = shr w 12 AND 1 in
        if bit12 = 0 \<and> rs2 = 0 \<and> rd_rs1 \<noteq> 0 then Ok (Jalr 0 rd_rs1 0)
        else if bit12 = 0 \<and> rs2 \<noteq> 0 then Ok (RType Add rd_rs1 0 rs2)
        else if bit12 = 1 \<and> rd_rs1 = 0 \<and> rs2 = 0 then Ok Ebreak
        else if bit12 = 1 \<and> rs2 = 0 \<and> rd_rs1 \<noteq> 0 then Ok (Jalr 1 rd_rs1 0)
        else if bit12 = 1 \<and> rd_rs1 \<noteq> 0 \<and> rs2 \<noteq> 0 then Ok (RType Add rd_rs1 rd_rs1 rs2)
        else Err (IllegalInstruction w))
     else if funct3 = 0b101 then Ok (Fsd 2 rs2 (ucast uimm_sdsp))
     else if funct3 = 0b110 then
       (let uimm = shl (shr w 9 AND 0xf) 2 OR shl (shr w 7 AND 3) 6
        in Ok (Store Sw 2 rs2 (ucast uimm)))
     else if funct3 = 0b111 then Ok (Store Sd 2 rs2 (ucast uimm_sdsp))
     else Err (IllegalInstruction w))"

definition decode_rvc :: "u16 \<Rightarrow> decoded" where
  "decode_rvc inst =
    (let w = ucast inst :: u32;
         quad = w AND 0x3;
         funct3 = shr w 13 AND 0x7
     in
     if quad = 0b00 then rvc_q0 w funct3
     else if quad = 0b01 then rvc_q1 w funct3
     else if quad = 0b10 then rvc_q2 w funct3
     else None)"

section \<open>Encodable instructions\<close>

text \<open>\<open>fits n imm\<close>: the immediate is the sign extension of its low \<open>n\<close> bits.\<close>

definition fits :: "nat \<Rightarrow> i64 \<Rightarrow> bool" where
  "fits n imm \<longleftrightarrow> signed_take_bit (n - 1) imm = imm"

definition is_w_shift :: "shift_op \<Rightarrow> bool" where
  "is_w_shift op \<longleftrightarrow> op \<in> {Slliw, Srliw, Sraiw}"

text \<open>
  The instructions with an encoding: register numbers below 32, shift amounts below the operand
  width, immediates that fit their format (branch and jump offsets even, upper immediates with 12
  low zeros), field values of their widths.
\<close>

fun encodable :: "instruction \<Rightarrow> bool" where
  "encodable (RType op rd rs1 rs2) = (rd < 32 \<and> rs1 < 32 \<and> rs2 < 32)"
| "encodable (MType op rd rs1 rs2) = (rd < 32 \<and> rs1 < 32 \<and> rs2 < 32)"
| "encodable (LrD rd rs1) = (rd < 32 \<and> rs1 < 32)"
| "encodable (LrW rd rs1) = (rd < 32 \<and> rs1 < 32)"
| "encodable (ScD rd rs1 rs2) = (rd < 32 \<and> rs1 < 32 \<and> rs2 < 32)"
| "encodable (ScW rd rs1 rs2) = (rd < 32 \<and> rs1 < 32 \<and> rs2 < 32)"
| "encodable (Amo op rd rs1 rs2) = (rd < 32 \<and> rs1 < 32 \<and> rs2 < 32)"
| "encodable (IType op rd rs1 imm) = (rd < 32 \<and> rs1 < 32 \<and> fits 12 imm)"
| "encodable (Shift op rd rs1 shamt) =
    (rd < 32 \<and> rs1 < 32 \<and> shamt < (if is_w_shift op then 32 else 64))"
| "encodable (Load op rd rs1 imm) = (rd < 32 \<and> rs1 < 32 \<and> fits 12 imm)"
| "encodable (Store op rs1 rs2 imm) = (rs1 < 32 \<and> rs2 < 32 \<and> fits 12 imm)"
| "encodable (Branch op rs1 rs2 imm) = (rs1 < 32 \<and> rs2 < 32 \<and> fits 13 imm \<and> \<not> bit imm 0)"
| "encodable (Jal rd imm) = (rd < 32 \<and> fits 21 imm \<and> \<not> bit imm 0)"
| "encodable (Jalr rd rs1 imm) = (rd < 32 \<and> rs1 < 32 \<and> fits 12 imm)"
| "encodable (Lui rd imm) = (rd < 32 \<and> fits 32 imm \<and> take_bit 12 imm = 0)"
| "encodable (Auipc rd imm) = (rd < 32 \<and> fits 32 imm \<and> take_bit 12 imm = 0)"
| "encodable (CsrR op rd rs1 csr) = (rd < 32 \<and> rs1 < 32 \<and> csr < 0x1000)"
| "encodable (CsrI op rd uimm csr) = (rd < 32 \<and> uimm < 32 \<and> csr < 0x1000)"
| "encodable (Flw fd rs1 imm) = (fd < 32 \<and> rs1 < 32 \<and> fits 12 imm)"
| "encodable (Fld fd rs1 imm) = (fd < 32 \<and> rs1 < 32 \<and> fits 12 imm)"
| "encodable (Fsw rs1 fs2 imm) = (rs1 < 32 \<and> fs2 < 32 \<and> fits 12 imm)"
| "encodable (Fsd rs1 fs2 imm) = (rs1 < 32 \<and> fs2 < 32 \<and> fits 12 imm)"
| "encodable (OpFp funct7 rs2 rs1 rm rd) =
    (funct7 < 128 \<and> rs2 < 32 \<and> rs1 < 32 \<and> rm < 8 \<and> rd < 32)"
| "encodable (Fma opcode fmt rs3 rs2 rs1 rd) =
    (opcode \<in> {0x43, 0x47, 0x4B, 0x4F} \<and> fmt < 4 \<and> rs3 < 32 \<and> rs2 < 32 \<and> rs1 < 32 \<and> rd < 32)"
| "encodable _ = True"

section \<open>Fields of an encoding\<close>

lemma u32_masks:
  "(x :: u32) AND 0x7f = take_bit 7 x" "x AND 0x1f = take_bit 5 x" "x AND 0x7 = take_bit 3 x"
  "x AND 0x3f = take_bit 6 x" "x AND 0xfff = take_bit 12 x" "x AND 0x3 = take_bit 2 x"
  by (rule word32_eqI, simp add: enum_bits)+

text \<open>
  The layout shared by the R, I, S and B formats: opcode, a five-bit field at bit 7, \<open>funct3\<close>,
  \<open>rs1\<close> and the twelve bits from bit 20 (for R, S and B: \<open>rs2\<close> below a seven-bit field).
\<close>

definition enc :: "u32 \<Rightarrow> u32 \<Rightarrow> u32 \<Rightarrow> u32 \<Rightarrow> u32 \<Rightarrow> u32" where
  "enc opcode f5 funct3 r1 hi =
    take_bit 7 opcode OR shl (take_bit 5 f5) 7 OR shl (take_bit 3 funct3) 12
    OR shl (take_bit 5 r1) 15 OR shl hi 20"

definition hi_r :: "u32 \<Rightarrow> u32 \<Rightarrow> u32" where
  "hi_r r2 f7 = take_bit 5 r2 OR shl f7 5"

lemma enc_fields:
  "enc opcode f5 funct3 r1 hi AND 0x7f = take_bit 7 opcode"
  "shr (enc opcode f5 funct3 r1 hi) 12 AND 0x7 = take_bit 3 funct3"
  "shr (enc opcode f5 funct3 r1 hi) 7 AND 0x1f = take_bit 5 f5"
  "shr (enc opcode f5 funct3 r1 hi) 15 AND 0x1f = take_bit 5 r1"
  "shr (enc opcode f5 funct3 r1 hi) 20 AND 0x1f = take_bit 5 hi"
  "shr (enc opcode f5 funct3 r1 hi) 20 AND 0x3f = take_bit 6 hi"
  "shr (enc opcode f5 funct3 r1 hi) 20 AND 0xfff = take_bit 12 hi"
  "shr (enc opcode f5 funct3 r1 hi) 25 AND 0x7f = take_bit 7 (shr hi 5)"
  "shr (enc opcode f5 funct3 r1 hi) 25 AND 0x3 = take_bit 2 (shr hi 5)"
  "shr (enc opcode f5 funct3 r1 hi) 27 AND 0x1f = take_bit 5 (shr hi 7)"
  "shr (enc opcode f5 funct3 r1 hi) 30 AND 1 = of_bool (bit hi 10)"
  unfolding enc_def by (rule word32_eqI, simp add: enum_bits)+

lemma hi_r_fields:
  "take_bit 5 (hi_r r2 f7) = take_bit 5 r2"
  "take_bit 7 (shr (hi_r r2 f7) 5) = take_bit 7 f7"
  "take_bit 2 (shr (hi_r r2 f7) 5) = take_bit 2 f7"
  "take_bit 5 (shr (hi_r r2 f7) 7) = take_bit 5 (shr f7 2)"
  unfolding hi_r_def by (rule word32_eqI, simp add: enum_bits)+

lemma enc_imms:
  "i_imm (enc opcode f5 funct3 r1 (ucast imm)) = signed_take_bit 11 imm"
  "s_imm (enc opcode (ucast imm) funct3 r1 (hi_r r2 (ucast (shr imm 5)))) = signed_take_bit 11 imm"
  "\<not> bit imm 0 \<Longrightarrow> b_imm (enc opcode (ucast ((imm AND 0x1e) OR (shr imm 11 AND 1))) funct3 r1
     (hi_r r2 (ucast ((shr imm 5 AND 0x3f) OR shl (shr imm 12 AND 1) 6)))) = signed_take_bit 12 imm"
  unfolding i_imm_def s_imm_def b_imm_def enc_def hi_r_def Let_def
  by (rule word64_eqI, simp add: enum_bits, (simp add: numeral_2_eq_2)?)+

definition enc_u :: "u32 \<Rightarrow> u32 \<Rightarrow> i64 \<Rightarrow> u32" where
  "enc_u opcode f5 imm = take_bit 7 opcode OR shl (take_bit 5 f5) 7 OR (ucast imm AND 0xFFFFF000)"

definition enc_j :: "u32 \<Rightarrow> u32 \<Rightarrow> i64 \<Rightarrow> u32" where
  "enc_j opcode f5 imm = take_bit 7 opcode OR shl (take_bit 5 f5) 7 OR
    ucast (shl (shr imm 20 AND 1) 31 OR shl (shr imm 1 AND 0x3ff) 21 OR
      shl (shr imm 11 AND 1) 20 OR (imm AND 0xFF000))"

lemma enc_uj_fields:
  "enc_u opcode f5 imm AND 0x7f = take_bit 7 opcode"
  "enc_j opcode f5 imm AND 0x7f = take_bit 7 opcode"
  "shr (enc_u opcode f5 imm) 7 AND 0x1f = take_bit 5 f5"
  "shr (enc_j opcode f5 imm) 7 AND 0x1f = take_bit 5 f5"
  unfolding enc_u_def enc_j_def by (rule word32_eqI, simp add: enum_bits)+

lemma enc_uj_imms:
  "take_bit 12 imm = 0 \<Longrightarrow> u_imm (enc_u opcode f5 imm) = signed_take_bit 31 imm"
  "\<not> bit imm 0 \<Longrightarrow> j_imm (enc_j opcode f5 imm) = signed_take_bit 20 imm"
proof -
  assume "take_bit 12 imm = 0"
  then have "\<not> bit (take_bit 12 imm) k" for k
    by simp
  then have "\<not> bit imm k" if "k < 12" for k
    using that by (simp add: bit_take_bit_iff)
  then show "u_imm (enc_u opcode f5 imm) = signed_take_bit 31 imm"
    unfolding u_imm_def enc_u_def by (intro word64_eqI) (simp add: enum_bits)
next
  assume "\<not> bit imm 0"
  then show "j_imm (enc_j opcode f5 imm) = signed_take_bit 20 imm"
    unfolding j_imm_def enc_j_def Let_def
    by (intro word64_eqI) (simp add: enum_bits, (simp add: numeral_2_eq_2)?)
qed

section \<open>The assembler\<close>

text \<open>\<open>funct3\<close> and \<open>funct7\<close> (or \<open>funct5\<close>) of the mnemonics, and their opcodes.\<close>

fun r_code :: "r_op \<Rightarrow> u32 \<times> u32 \<times> u32" where
  "r_code Add = (0x33, 0, 0)" | "r_code Sub = (0x33, 0, 0x20)" | "r_code Sll = (0x33, 1, 0)"
| "r_code Slt = (0x33, 2, 0)" | "r_code Sltu = (0x33, 3, 0)" | "r_code Xor = (0x33, 4, 0)"
| "r_code Srl = (0x33, 5, 0)" | "r_code Sra = (0x33, 5, 0x20)" | "r_code Or = (0x33, 6, 0)"
| "r_code And = (0x33, 7, 0)" | "r_code Addw = (0x3B, 0, 0)" | "r_code Subw = (0x3B, 0, 0x20)"
| "r_code Sllw = (0x3B, 1, 0)" | "r_code Srlw = (0x3B, 5, 0)" | "r_code Sraw = (0x3B, 5, 0x20)"

fun m_code :: "m_op \<Rightarrow> u32 \<times> u32" where
  "m_code Mul = (0x33, 0)" | "m_code Mulh = (0x33, 1)" | "m_code Mulhsu = (0x33, 2)"
| "m_code Mulhu = (0x33, 3)" | "m_code Div = (0x33, 4)" | "m_code Divu = (0x33, 5)"
| "m_code Rem = (0x33, 6)" | "m_code Remu = (0x33, 7)" | "m_code Mulw = (0x3B, 0)"
| "m_code Divw = (0x3B, 4)" | "m_code Divuw = (0x3B, 5)" | "m_code Remw = (0x3B, 6)"
| "m_code Remuw = (0x3B, 7)"

fun amo_code :: "amo_op \<Rightarrow> u32 \<times> u32" where
  "amo_code AmoswapD = (3, 0x01)" | "amo_code AmoswapW = (2, 0x01)"
| "amo_code AmoaddD = (3, 0x00)" | "amo_code AmoaddW = (2, 0x00)"
| "amo_code AmoxorD = (3, 0x04)" | "amo_code AmoxorW = (2, 0x04)"
| "amo_code AmoandD = (3, 0x0C)" | "amo_code AmoandW = (2, 0x0C)"
| "amo_code AmoorD = (3, 0x08)" | "amo_code AmoorW = (2, 0x08)"
| "amo_code AmominD = (3, 0x10)" | "amo_code AmominW = (2, 0x10)"
| "amo_code AmomaxD = (3, 0x14)" | "amo_code AmomaxW = (2, 0x14)"
| "amo_code AmominuD = (3, 0x18)" | "amo_code AmominuW = (2, 0x18)"
| "amo_code AmomaxuD = (3, 0x1C)" | "amo_code AmomaxuW = (2, 0x1C)"

fun i_code :: "i_op \<Rightarrow> u32 \<times> u32" where
  "i_code Addi = (0x13, 0)" | "i_code Slti = (0x13, 2)" | "i_code Sltiu = (0x13, 3)"
| "i_code Xori = (0x13, 4)" | "i_code Ori = (0x13, 6)" | "i_code Andi = (0x13, 7)"
| "i_code Addiw = (0x1B, 0)"

fun shift_code :: "shift_op \<Rightarrow> u32 \<times> u32 \<times> u32" where
  "shift_code Slli = (0x13, 1, 0)" | "shift_code Srli = (0x13, 5, 0)"
| "shift_code Srai = (0x13, 5, 0x400)" | "shift_code Slliw = (0x1B, 1, 0)"
| "shift_code Srliw = (0x1B, 5, 0)" | "shift_code Sraiw = (0x1B, 5, 0x400)"

fun load_code :: "load_op \<Rightarrow> u32" where
  "load_code Lb = 0" | "load_code Lh = 1" | "load_code Lw = 2" | "load_code Ld = 3"
| "load_code Lbu = 4" | "load_code Lhu = 5" | "load_code Lwu = 6"

fun store_code :: "store_op \<Rightarrow> u32" where
  "store_code Sb = 0" | "store_code Sh = 1" | "store_code Sw = 2" | "store_code Sd = 3"

fun branch_code :: "branch_op \<Rightarrow> u32" where
  "branch_code Beq = 0" | "branch_code Bne = 1" | "branch_code Blt = 4" | "branch_code Bge = 5"
| "branch_code Bltu = 6" | "branch_code Bgeu = 7"

fun csr_code :: "csr_op \<Rightarrow> u32" where
  "csr_code Csrrw = 1" | "csr_code Csrrs = 2" | "csr_code Csrrc = 3"

fun csri_code :: "csri_op \<Rightarrow> u32" where
  "csri_code Csrrwi = 5" | "csri_code Csrrsi = 6" | "csri_code Csrrci = 7"

definition enc_s :: "u32 \<Rightarrow> u32 \<Rightarrow> nat \<Rightarrow> nat \<Rightarrow> i64 \<Rightarrow> u32" where
  "enc_s opcode f3 rs1 rs2 imm =
    enc opcode (ucast imm) f3 (of_nat rs1) (hi_r (of_nat rs2) (ucast (shr imm 5)))"

definition enc_b :: "u32 \<Rightarrow> u32 \<Rightarrow> nat \<Rightarrow> nat \<Rightarrow> i64 \<Rightarrow> u32" where
  "enc_b opcode f3 rs1 rs2 imm =
    enc opcode (ucast ((imm AND 0x1e) OR (shr imm 11 AND 1))) f3 (of_nat rs1)
      (hi_r (of_nat rs2) (ucast ((shr imm 5 AND 0x3f) OR shl (shr imm 12 AND 1) 6)))"

lemma enc_b_fields:
  "enc_b opcode f3 rs1 rs2 imm AND 0x7f = take_bit 7 opcode"
  "shr (enc_b opcode f3 rs1 rs2 imm) 12 AND 0x7 = take_bit 3 f3"
  "shr (enc_b opcode f3 rs1 rs2 imm) 15 AND 0x1f = take_bit 5 (of_nat rs1)"
  "shr (enc_b opcode f3 rs1 rs2 imm) 20 AND 0x1f = take_bit 5 (of_nat rs2)"
  "\<not> bit imm 0 \<Longrightarrow> b_imm (enc_b opcode f3 rs1 rs2 imm) = signed_take_bit 12 imm"
  unfolding enc_b_def by (simp_all only: enc_fields hi_r_fields) (rule enc_imms(3))

definition fma_f7 :: "u8 \<Rightarrow> nat \<Rightarrow> u32" where
  "fma_f7 fmt rs3 = take_bit 2 (ucast fmt) OR shl (of_nat rs3) 2"

lemma fma_f7_fields:
  "take_bit 2 (fma_f7 fmt rs3) = take_bit 2 (ucast fmt)"
  "take_bit 5 (shr (fma_f7 fmt rs3) 2) = take_bit 5 (of_nat rs3)"
  unfolding fma_f7_def by (rule word32_eqI, simp add: enum_bits)+

fun encode :: "instruction \<Rightarrow> u32" where
  "encode (RType op rd rs1 rs2) = (case r_code op of (opc, f3, f7) \<Rightarrow>
     enc opc (of_nat rd) f3 (of_nat rs1) (hi_r (of_nat rs2) f7))"
| "encode (MType op rd rs1 rs2) = (case m_code op of (opc, f3) \<Rightarrow>
     enc opc (of_nat rd) f3 (of_nat rs1) (hi_r (of_nat rs2) 1))"
| "encode (LrD rd rs1) = enc 0x2F (of_nat rd) 3 (of_nat rs1) (hi_r 0 0x08)"
| "encode (LrW rd rs1) = enc 0x2F (of_nat rd) 2 (of_nat rs1) (hi_r 0 0x08)"
| "encode (ScD rd rs1 rs2) = enc 0x2F (of_nat rd) 3 (of_nat rs1) (hi_r (of_nat rs2) 0x0C)"
| "encode (ScW rd rs1 rs2) = enc 0x2F (of_nat rd) 2 (of_nat rs1) (hi_r (of_nat rs2) 0x0C)"
| "encode (Amo op rd rs1 rs2) = (case amo_code op of (f3, f5) \<Rightarrow>
     enc 0x2F (of_nat rd) f3 (of_nat rs1) (hi_r (of_nat rs2) (shl f5 2)))"
| "encode (IType op rd rs1 imm) = (case i_code op of (opc, f3) \<Rightarrow>
     enc opc (of_nat rd) f3 (of_nat rs1) (ucast imm))"
| "encode (Shift op rd rs1 shamt) = (case shift_code op of (opc, f3, hi) \<Rightarrow>
     enc opc (of_nat rd) f3 (of_nat rs1) (take_bit 6 (of_nat shamt) OR hi))"
| "encode (Load op rd rs1 imm) = enc 0x03 (of_nat rd) (load_code op) (of_nat rs1) (ucast imm)"
| "encode (Store op rs1 rs2 imm) = enc_s 0x23 (store_code op) rs1 rs2 imm"
| "encode (Branch op rs1 rs2 imm) =
     enc_b 0x63 (branch_code op) rs1 rs2 imm"
| "encode (Jal rd imm) = enc_j 0x6F (of_nat rd) imm"
| "encode (Jalr rd rs1 imm) = enc 0x67 (of_nat rd) 0 (of_nat rs1) (ucast imm)"
| "encode (Lui rd imm) = enc_u 0x37 (of_nat rd) imm"
| "encode (Auipc rd imm) = enc_u 0x17 (of_nat rd) imm"
| "encode Fence = 0x0F"
| "encode Ecall = 0x73"
| "encode Ebreak = 0x00100073"
| "encode Mret = 0x30200073"
| "encode Sret = 0x10200073"
| "encode Wfi = 0x10500073"
| "encode SfenceVma = 0x12000073"
| "encode (CsrR op rd rs1 csr) = enc 0x73 (of_nat rd) (csr_code op) (of_nat rs1) (ucast csr)"
| "encode (CsrI op rd uimm csr) = enc 0x73 (of_nat rd) (csri_code op) uimm (ucast csr)"
| "encode (Flw fd rs1 imm) = enc 0x07 (of_nat fd) 2 (of_nat rs1) (ucast imm)"
| "encode (Fld fd rs1 imm) = enc 0x07 (of_nat fd) 3 (of_nat rs1) (ucast imm)"
| "encode (Fsw rs1 fs2 imm) = enc_s 0x27 2 rs1 fs2 imm"
| "encode (Fsd rs1 fs2 imm) = enc_s 0x27 3 rs1 fs2 imm"
| "encode (OpFp funct7 rs2 rs1 rm rd) =
     enc 0x53 (of_nat rd) (ucast rm) (of_nat rs1) (hi_r (of_nat rs2) (ucast funct7))"
| "encode (Fma opcode fmt rs3 rs2 rs1 rd) =
     enc (ucast opcode) (of_nat rd) 0 (of_nat rs1)
       (hi_r (of_nat rs2) (fma_f7 fmt rs3))"

section \<open>Decoding what was assembled\<close>

lemma unat_field [simp]: "r < 32 \<Longrightarrow> unat (take_bit 5 (of_nat r :: u32)) = r"
  by (simp add: unsigned_take_bit_eq unat_of_nat take_bit_nat_eq_self)

lemmas decode_eval = decode_def decode_op_def decode_op_32_def decode_op_imm_def
  decode_op_imm_32_def decode_load_def decode_load_fp_def decode_store_fp_def decode_store_def
  decode_branch_def decode_amo_def decode_system_def match_table_def inst_reg_def Let_def
  enc_fields hi_r_fields enc_uj_fields enc_b_fields enc_s_def fits_def

lemma decode_encode_r: "encodable (RType op rd rs1 rs2) \<Longrightarrow>
    decode (encode (RType op rd rs1 rs2)) = Ok (RType op rd rs1 rs2)"
  by (cases op) (simp_all add: decode_eval)

lemma decode_encode_m: "encodable (MType op rd rs1 rs2) \<Longrightarrow>
    decode (encode (MType op rd rs1 rs2)) = Ok (MType op rd rs1 rs2)"
  by (cases op) (simp_all add: decode_eval)

lemma decode_encode_i: "encodable (IType op rd rs1 imm) \<Longrightarrow>
    decode (encode (IType op rd rs1 imm)) = Ok (IType op rd rs1 imm)"
  by (cases op) (simp_all add: decode_eval enc_imms)

lemma unat_shamt [simp]:
  "n < 64 \<Longrightarrow> unat (take_bit 6 (of_nat n :: u32)) = n"
  by (simp add: unsigned_take_bit_eq unat_of_nat take_bit_nat_eq_self)

lemma shift_fields:
  "take_bit 6 (take_bit 6 (x :: u32) OR 0x400) = take_bit 6 x"
  "take_bit 5 (take_bit 6 (x :: u32) OR 0x400) = take_bit 5 x"
  "bit (take_bit 6 (x :: u32) OR 0x400) 10" "\<not> bit (take_bit 6 (x :: u32)) 10"
  by (rule word32_eqI, simp add: enum_bits)+ (simp_all add: bit_simps)

lemma decode_encode_shift: "encodable (Shift op rd rs1 shamt) \<Longrightarrow>
    decode (encode (Shift op rd rs1 shamt)) = Ok (Shift op rd rs1 shamt)"
  by (cases op) (simp_all add: decode_eval is_w_shift_def shift_fields)

lemma decode_encode_load: "encodable (Load op rd rs1 imm) \<Longrightarrow>
    decode (encode (Load op rd rs1 imm)) = Ok (Load op rd rs1 imm)"
  by (cases op) (simp_all add: decode_eval enc_imms)

lemma decode_encode_store: "encodable (Store op rs1 rs2 imm) \<Longrightarrow>
    decode (encode (Store op rs1 rs2 imm)) = Ok (Store op rs1 rs2 imm)"
  by (cases op) (simp_all add: decode_eval enc_imms)

lemma decode_encode_branch: "encodable (Branch op rs1 rs2 imm) \<Longrightarrow>
    decode (encode (Branch op rs1 rs2 imm)) = Ok (Branch op rs1 rs2 imm)"
  by (cases op) (simp_all add: decode_eval enc_imms)

lemma decode_encode_amo: "encodable (Amo op rd rs1 rs2) \<Longrightarrow>
    decode (encode (Amo op rd rs1 rs2)) = Ok (Amo op rd rs1 rs2)"
  by (cases op) (simp_all add: decode_eval)

lemma decode_encode_lrsc:
  "encodable (LrD rd rs1) \<Longrightarrow> decode (encode (LrD rd rs1)) = Ok (LrD rd rs1)"
  "encodable (LrW rd rs1) \<Longrightarrow> decode (encode (LrW rd rs1)) = Ok (LrW rd rs1)"
  "encodable (ScD rd rs1 rs2) \<Longrightarrow> decode (encode (ScD rd rs1 rs2)) = Ok (ScD rd rs1 rs2)"
  "encodable (ScW rd rs1 rs2) \<Longrightarrow> decode (encode (ScW rd rs1 rs2)) = Ok (ScW rd rs1 rs2)"
  by (simp_all add: decode_eval)

lemma decode_encode_jump:
  "encodable (Jal rd imm) \<Longrightarrow> decode (encode (Jal rd imm)) = Ok (Jal rd imm)"
  "encodable (Jalr rd rs1 imm) \<Longrightarrow> decode (encode (Jalr rd rs1 imm)) = Ok (Jalr rd rs1 imm)"
  "encodable (Lui rd imm) \<Longrightarrow> decode (encode (Lui rd imm)) = Ok (Lui rd imm)"
  "encodable (Auipc rd imm) \<Longrightarrow> decode (encode (Auipc rd imm)) = Ok (Auipc rd imm)"
  by (simp_all add: decode_eval enc_imms enc_uj_imms)

lemma decode_encode_fp_mem:
  "encodable (Flw fd rs1 imm) \<Longrightarrow> decode (encode (Flw fd rs1 imm)) = Ok (Flw fd rs1 imm)"
  "encodable (Fld fd rs1 imm) \<Longrightarrow> decode (encode (Fld fd rs1 imm)) = Ok (Fld fd rs1 imm)"
  "encodable (Fsw rs1 fs2 imm) \<Longrightarrow> decode (encode (Fsw rs1 fs2 imm)) = Ok (Fsw rs1 fs2 imm)"
  "encodable (Fsd rs1 fs2 imm) \<Longrightarrow> decode (encode (Fsd rs1 fs2 imm)) = Ok (Fsd rs1 fs2 imm)"
  by (simp_all add: decode_eval enc_imms)

lemma ucast_take_back:
  fixes b :: "'a::len word"
  assumes "b < 2 ^ k" and "LENGTH('a) \<le> LENGTH('b)"
  shows "ucast (take_bit k (ucast b :: 'b::len word)) = b"
proof (rule bit_word_eqI)
  fix n
  assume "n < LENGTH('a)"
  moreover have "bit b n = bit (take_bit k b) n"
    using less_mask_eq [OF assms(1)] by (simp add: take_bit_eq_mask)
  ultimately show "bit (ucast (take_bit k (ucast b :: 'b word)) :: 'a word) n = bit b n"
    using assms(2) by (auto simp: bit_simps)
qed

lemma field_below:
  "(b :: u8) < 128 \<Longrightarrow> ucast (take_bit 7 (ucast b :: u32)) = b"
  "b < 8 \<Longrightarrow> ucast (take_bit 3 (ucast b :: u32)) = b"
  "b < 4 \<Longrightarrow> ucast (take_bit 2 (ucast b :: u32)) = b"
  "(c :: u16) < 0x1000 \<Longrightarrow> ucast (take_bit 12 (ucast c :: u32)) = c"
  using ucast_take_back [of b 7, where 'b = 32] ucast_take_back [of b 3, where 'b = 32]
    ucast_take_back [of b 2, where 'b = 32] ucast_take_back [of c 12, where 'b = 32]
  by simp_all

lemma decode_encode_system:
  "decode (encode Fence) = Ok Fence" "decode (encode Ecall) = Ok Ecall"
  "decode (encode Ebreak) = Ok Ebreak" "decode (encode Mret) = Ok Mret"
  "decode (encode Sret) = Ok Sret" "decode (encode Wfi) = Ok Wfi"
  "decode (encode SfenceVma) = Ok SfenceVma"
  by (simp_all add: decode_eval)

lemma decode_encode_csr:
  "encodable (CsrR op' rd rs1 csr) \<Longrightarrow> decode (encode (CsrR op' rd rs1 csr)) = Ok (CsrR op' rd rs1 csr)"
  "encodable (CsrI op rd uimm csr) \<Longrightarrow> decode (encode (CsrI op rd uimm csr)) = Ok (CsrI op rd uimm csr)"
proof -
  have "uimm < 32 \<Longrightarrow> take_bit 5 uimm = uimm"
    using less_mask_eq [of uimm 5] by (simp add: take_bit_eq_mask)
  then show "encodable (CsrI op rd uimm csr) \<Longrightarrow>
      decode (encode (CsrI op rd uimm csr)) = Ok (CsrI op rd uimm csr)"
    by (cases op) (simp_all add: decode_eval field_below)
  show "encodable (CsrR op' rd rs1 csr) \<Longrightarrow>
      decode (encode (CsrR op' rd rs1 csr)) = Ok (CsrR op' rd rs1 csr)"
    by (cases op') (simp_all add: decode_eval field_below)
qed

lemma decode_encode_op_fp: "encodable (OpFp funct7 rs2 rs1 rm rd) \<Longrightarrow>
    decode (encode (OpFp funct7 rs2 rs1 rm rd)) = Ok (OpFp funct7 rs2 rs1 rm rd)"
  by (simp add: decode_eval field_below)

lemma decode_encode_fma:
  assumes "encodable (Fma opcode fmt rs3 rs2 rs1 rd)"
  shows "decode (encode (Fma opcode fmt rs3 rs2 rs1 rd)) = Ok (Fma opcode fmt rs3 rs2 rs1 rd)"
proof -
  consider "opcode = 0x43" | "opcode = 0x47" | "opcode = 0x4B" | "opcode = 0x4F"
    using assms by auto
  then show ?thesis
    by cases (use assms in \<open>simp_all add: decode_eval field_below fma_f7_fields\<close>)
qed

section \<open>What the decoder returns\<close>

lemma take_bit_3_cases: "take_bit 3 (w :: u32) \<in> {0, 1, 2, 3, 4, 5, 6, 7}"
proof -
  have "take_bit 3 w \<le> 7"
    using take_bit_nat_less_exp [of 3 "unat w"] by (simp add: word_le_nat_alt unsigned_take_bit_eq)
  then have "take_bit 3 w \<in> set (map of_nat [unat (0 :: u32)..<Suc (unat (7 :: u32))])"
    by (intro word_interval_cases) simp_all
  then show ?thesis
    by (simp add: upt_rec)
qed

lemma match_table_total [simp]: "match_table inst arms k \<noteq> None"
  by (simp add: match_table_def split: option.split)

lemma match_table_Ok:
  "match_table inst arms k = Ok i \<Longrightarrow> list_all (\<lambda>(k, i). P i) arms \<Longrightarrow> P i"
  by (auto simp: match_table_def list_all_iff split: option.splits dest!: map_of_SomeD)

lemma match_table_Err: "match_table inst arms k = Err e \<Longrightarrow> e = IllegalInstruction inst"
  by (auto simp: match_table_def split: option.splits)

lemma inst_reg_less: "inst_reg inst lo < 32"
  using take_bit_nat_less_exp [of 5 "unat (shr inst lo)"]
  by (simp add: inst_reg_def u32_masks unsigned_take_bit_eq)

lemma unat_field_less: "unat (take_bit k (w :: u32)) < 2 ^ k"
  using take_bit_nat_less_exp [of k "unat w"] by (simp add: unsigned_take_bit_eq)

lemma ucast_field_less: "k < 16 \<Longrightarrow> unat (ucast (take_bit k (w :: u32)) :: u16) < 2 ^ k"
  "k < 8 \<Longrightarrow> unat (ucast (take_bit k (w :: u32)) :: u8) < 2 ^ k"
  using unat_field_less [of k w]
  by (simp_all add: unsigned_ucast_eq unsigned_take_bit_eq)

lemma fits_imms:
  "fits 12 (i_imm inst)" "fits 12 (s_imm inst)" "fits 13 (b_imm inst)" "\<not> bit (b_imm inst) 0"
  "fits 21 (j_imm inst)" "\<not> bit (j_imm inst) 0" "fits 32 (u_imm inst)" "take_bit 12 (u_imm inst) = 0"
  unfolding fits_def i_imm_def s_imm_def b_imm_def j_imm_def u_imm_def Let_def
  by (simp_all add: bit_simps bit_times_2) (rule word64_eqI, simp add: enum_bits)+

lemma fits_uimm:
  assumes "x < (0x800 :: u32)"
  shows "fits 12 (ucast x)"
proof -
  have "\<not> bit x n" if "11 \<le> n" for n
  proof -
    have "take_bit 11 x = x"
      using less_mask_eq [of x 11] assms by (simp add: take_bit_eq_mask)
    then have "bit x n = bit (take_bit 11 x) n" by simp
    then show ?thesis using that by (simp add: bit_take_bit_iff)
  qed
  then show ?thesis
    unfolding fits_def by (intro bit_word_eqI) (auto simp: bit_simps min_def)
qed

lemma decode_fits: "decode_op_imm inst f3 rd rs1 = Ok i \<Longrightarrow> rd < 32 \<Longrightarrow> rs1 < 32 \<Longrightarrow> encodable i"
  "decode_op_imm_32 inst f3 rd rs1 = Ok i \<Longrightarrow> rd < 32 \<Longrightarrow> rs1 < 32 \<Longrightarrow> encodable i"
  using unat_field_less [of 6 "shr inst 20"] unat_field_less [of 5 "shr inst 20"]
  by (auto simp: decode_op_imm_def decode_op_imm_32_def Let_def fits_imms is_w_shift_def u32_masks
      split: if_splits)

lemma decode_groups_encodable:
  "decode_op inst f3 f7 rd rs1 rs2 = Ok i \<Longrightarrow> rd < 32 \<Longrightarrow> rs1 < 32 \<Longrightarrow> rs2 < 32 \<Longrightarrow> encodable i"
  "decode_op_32 inst f3 f7 rd rs1 rs2 = Ok i \<Longrightarrow> rd < 32 \<Longrightarrow> rs1 < 32 \<Longrightarrow> rs2 < 32 \<Longrightarrow> encodable i"
  "decode_amo inst f3 rd rs1 rs2 = Ok i \<Longrightarrow> rd < 32 \<Longrightarrow> rs1 < 32 \<Longrightarrow> rs2 < 32 \<Longrightarrow> encodable i"
  "decode_load inst f3 rd rs1 = Ok i \<Longrightarrow> rd < 32 \<Longrightarrow> rs1 < 32 \<Longrightarrow> encodable i"
  "decode_load_fp inst f3 rd rs1 = Ok i \<Longrightarrow> rd < 32 \<Longrightarrow> rs1 < 32 \<Longrightarrow> encodable i"
  "decode_store_fp inst f3 rs1 rs2 = Ok i \<Longrightarrow> rs1 < 32 \<Longrightarrow> rs2 < 32 \<Longrightarrow> encodable i"
  "decode_store inst f3 rs1 rs2 = Ok i \<Longrightarrow> rs1 < 32 \<Longrightarrow> rs2 < 32 \<Longrightarrow> encodable i"
  "decode_branch inst f3 rs1 rs2 = Ok i \<Longrightarrow> rs1 < 32 \<Longrightarrow> rs2 < 32 \<Longrightarrow> encodable i"
  unfolding decode_op_def decode_op_32_def decode_amo_def decode_load_def decode_load_fp_def
    decode_store_fp_def decode_store_def decode_branch_def Let_def
  by (erule match_table_Ok, simp add: fits_imms)+

lemma decode_system_encodable:
  assumes "decode_system inst f3 rd rs1 = Ok i" "rd < 32" "rs1 < 32"
  shows "encodable i"
proof -
  have csr: "ucast (shr inst 20 AND 0xfff) < (0x1000 :: u16)"
    using ucast_field_less(1) [of 12 "shr inst 20"] by (simp add: u32_masks word_less_nat_alt)
  have uimm: "of_nat rs1 < (32 :: u32)"
    using assms(3) by (simp add: word_less_nat_alt unat_of_nat take_bit_nat_eq_self)
  show ?thesis
  proof (cases "f3 = 0")
    case True
    then show ?thesis
      using assms(1) by (auto simp: decode_system_def Let_def split: if_splits)
  next
    case False
    then show ?thesis
      using assms unfolding decode_system_def Let_def
      by (simp only: if_False) (erule match_table_Ok, simp add: csr uimm)
  qed
qed

lemma decode_fp_encodable:
  "rd < 32 \<Longrightarrow> rs1 < 32 \<Longrightarrow> rs2 < 32 \<Longrightarrow>
    encodable (OpFp (ucast (shr (inst :: u32) 25 AND 0x7f)) rs2 rs1 (ucast (shr inst 12 AND 0x7)) rd)"
  "rd < 32 \<Longrightarrow> rs1 < 32 \<Longrightarrow> rs2 < 32 \<Longrightarrow> opcode \<in> {0x43, 0x47, 0x4B, 0x4F} \<Longrightarrow>
    encodable (Fma (ucast (opcode :: u32)) (ucast (shr (inst :: u32) 25 AND 0x3)) (unat (shr inst 27 AND 0x1F)) rs2 rs1 rd)"
  using ucast_field_less(2) [of 7 "shr inst 25"] ucast_field_less(2) [of 3 "shr inst 12"]
    ucast_field_less(2) [of 2 "shr inst 25"] unat_field_less [of 5 "shr inst 27"]
  by (auto simp: u32_masks word_less_nat_alt)

text \<open>Walking down an if-chain that returned a value.\<close>

lemma if_eqE: "(if c then a else b) = x \<Longrightarrow> (c \<Longrightarrow> a = x \<Longrightarrow> P) \<Longrightarrow> (\<not> c \<Longrightarrow> b = x \<Longrightarrow> P) \<Longrightarrow> P"
  by (cases c) simp_all

lemma decode_encodable:
  assumes "decode inst = Ok i"
  shows "encodable i"
proof -
  note r = inst_reg_less [of inst]
  from assms show ?thesis
    unfolding decode_def Let_def
    apply (elim if_eqE)
    apply (erule decode_groups_encodable(1), (rule r)+)
    apply (erule decode_groups_encodable(2), (rule r)+)
    apply (erule decode_fits(1), (rule r)+)
    apply (erule decode_fits(2), (rule r)+)
    apply (erule decode_groups_encodable(4), (rule r)+)
    apply (erule decode_groups_encodable(5), (rule r)+)
    apply (erule decode_groups_encodable(6), (rule r)+)
    apply (simp only: option.inject sum.inject, hypsubst, rule decode_fp_encodable(1), (rule r)+)
    apply (simp only: option.inject sum.inject, hypsubst, rule decode_fp_encodable(2), (rule r)+, blast)
    apply (erule decode_groups_encodable(7), (rule r)+)
    apply (erule decode_groups_encodable(8), (rule r)+)
    apply (simp only: option.inject sum.inject, hypsubst, simp add: fits_imms r)+
    apply (erule decode_groups_encodable(3), (rule r)+)
    apply (simp only: option.inject sum.inject, hypsubst, simp)
    apply (erule decode_system_encodable, (rule r)+)
    apply simp
    done
qed

lemma decode_op_imm_total: "decode_op_imm inst (shr inst 12 AND 7) rd rs1 \<noteq> None"
  using take_bit_3_cases [of "shr inst 12"]
  by (elim insertE) (simp_all add: decode_op_imm_def Let_def u32_masks)

lemma if_total: "(c \<Longrightarrow> a \<noteq> None) \<Longrightarrow> (\<not> c \<Longrightarrow> b \<noteq> None) \<Longrightarrow> (if c then a else b) \<noteq> None"
  by simp

lemma decode_groups_total:
  "decode_op inst f3 f7 rd rs1 rs2 \<noteq> None" "decode_op_32 inst f3 f7 rd rs1 rs2 \<noteq> None"
  "decode_amo inst f3 rd rs1 rs2 \<noteq> None" "decode_load inst f3 rd rs1 \<noteq> None"
  "decode_load_fp inst f3 rd rs1 \<noteq> None" "decode_store_fp inst f3 rs1 rs2 \<noteq> None"
  "decode_store inst f3 rs1 rs2 \<noteq> None" "decode_branch inst f3 rs1 rs2 \<noteq> None"
  "decode_op_imm_32 inst f3 rd rs1 \<noteq> None" "decode_system inst f3 rd rs1 \<noteq> None"
  unfolding decode_op_def decode_op_32_def decode_amo_def decode_load_def decode_load_fp_def
    decode_store_fp_def decode_store_def decode_branch_def decode_op_imm_32_def decode_system_def Let_def
  by (intro if_total match_table_total option.distinct(2))+

lemma decode_total: "decode inst \<noteq> None"
  unfolding decode_def Let_def
  by (intro if_total decode_groups_total decode_op_imm_total option.distinct(2))

lemma decode_groups_illegal:
  "decode_op inst f3 f7 rd rs1 rs2 = Err e \<Longrightarrow> e = IllegalInstruction inst"
  "decode_op_32 inst f3 f7 rd rs1 rs2 = Err e \<Longrightarrow> e = IllegalInstruction inst"
  "decode_amo inst f3 rd rs1 rs2 = Err e \<Longrightarrow> e = IllegalInstruction inst"
  "decode_load inst f3 rd rs1 = Err e \<Longrightarrow> e = IllegalInstruction inst"
  "decode_load_fp inst f3 rd rs1 = Err e \<Longrightarrow> e = IllegalInstruction inst"
  "decode_store_fp inst f3 rs1 rs2 = Err e \<Longrightarrow> e = IllegalInstruction inst"
  "decode_store inst f3 rs1 rs2 = Err e \<Longrightarrow> e = IllegalInstruction inst"
  "decode_branch inst f3 rs1 rs2 = Err e \<Longrightarrow> e = IllegalInstruction inst"
  "decode_op_imm inst f3 rd rs1 = Err e \<Longrightarrow> e = IllegalInstruction inst"
  "decode_op_imm_32 inst f3 rd rs1 = Err e \<Longrightarrow> e = IllegalInstruction inst"
  unfolding decode_op_def decode_op_32_def decode_amo_def decode_load_def decode_load_fp_def
    decode_store_fp_def decode_store_def decode_branch_def decode_op_imm_def decode_op_imm_32_def Let_def
  by (erule match_table_Err)+ (auto split: if_splits)

lemma decode_system_illegal: "decode_system inst f3 rd rs1 = Err e \<Longrightarrow> e = IllegalInstruction inst"
  unfolding decode_system_def Let_def
  by (elim if_eqE) (simp_all, erule match_table_Err)

lemma decode_illegal: "decode inst = Err e \<Longrightarrow> e = IllegalInstruction inst"
  unfolding decode_def Let_def
  by (elim if_eqE) (simp_all add: decode_groups_illegal decode_system_illegal)

section \<open>Compressed instructions are abbreviations\<close>

lemma rvc_rp_range: "8 \<le> rvc_rp w s \<and> rvc_rp w s < 16"
  using take_bit_3_cases [of "shr w s"] by (auto simp: rvc_rp_def u32_masks)

lemma rvc_rp_less [simp]: "rvc_rp w s < 32"
  using rvc_rp_range [of w s] by simp

lemma rvc_reg_less [simp]: "unat (shr (w :: u32) k AND 0x1f) < 32"
  using unat_field_less [of 5 "shr w k"] by (simp add: u32_masks)

text \<open>The unsigned offsets, the shift amount, and the signed immediates.\<close>

lemma rvc_fits_unsigned:
  "fits 12 (ucast (shl (shr w 6 AND 1) 2 OR shl (shr w 5 AND 1) 3 OR shl (shr w 11 AND 3) 4
      OR shl (shr w 7 AND 0xf) 6 :: u32))"
  "fits 12 (ucast (shl (shr w 6 AND 1) 2 OR shl (shr w 10 AND 7) 3 OR shl (shr w 5 AND 1) 6 :: u32))"
  "fits 12 (ucast (shl (shr w 10 AND 7) 3 OR shl (shr w 5 AND 3) 6 :: u32))"
  "fits 12 (ucast (shl (shr w 12 AND 1) 5 OR shl (shr w 5 AND 3) 3 OR shl (shr w 2 AND 7) 6 :: u32))"
  "fits 12 (ucast (shl (shr w 10 AND 7) 3 OR shl (shr w 7 AND 7) 6 :: u32))"
  "fits 12 (ucast (shl (shr w 12 AND 1) 5 OR shl (shr w 4 AND 7) 2 OR shl (shr w 2 AND 3) 6 :: u32))"
  "fits 12 (ucast (shl (shr w 9 AND 0xf) 2 OR shl (shr w 7 AND 3) 6 :: u32))"
  unfolding fits_def by (rule word64_eqI, simp add: enum_bits)+

lemma rvc_shamt_less [simp]: "unat (shl (shr w 12 AND 1) 5 OR (shr w 2 AND 0x1f) :: u32) < 64"
proof -
  have "shl (shr w 12 AND 1) 5 OR (shr w 2 AND 0x1f) =
      take_bit 6 (shl (shr w 12 AND 1) 5 OR (shr w 2 AND 0x1f) :: u32)"
    by (rule word32_eqI) (simp add: enum_bits)
  then show ?thesis
    using unat_field_less [of 6 "shl (shr w 12 AND 1) 5 OR (shr w 2 AND 0x1f) :: u32"] by simp
qed

lemma fits_zero: "fits 12 0"
  by (simp add: fits_def)

lemma rvc_fits_signed:
  "fits 12 (rvc_sext (shl (shr w 12 AND 1) 5 OR (shr w 2 AND 0x1f)) 5 (-64))"
  "fits 12 (rvc_sext (shl (shr w 12 AND 1) 9 OR shl (shr w 3 AND 3) 7 OR shl (shr w 5 AND 1) 6
      OR shl (shr w 2 AND 1) 5 OR shl (shr w 6 AND 1) 4) 9 (- 0x400))"
  "fits 32 (rvc_sext (shl (shr w 12 AND 1) 17 OR shl (shr w 2 AND 0x1f) 12) 17 (- 0x40000))"
  "take_bit 12 (rvc_sext (shl (shr w 12 AND 1) 17 OR shl (shr w 2 AND 0x1f) 12) 17 (- 0x40000)) = 0"
  "fits 13 (rvc_branch_imm w)" "\<not> bit (rvc_branch_imm w) 0"
  "fits 21 (rvc_jump_imm w)" "\<not> bit (rvc_jump_imm w) 0"
  unfolding fits_def rvc_sext_def rvc_branch_imm_def rvc_jump_imm_def Let_def bit_test_iff
  by (cases "bit w 12"; (simp add: bit_simps bit_times_2; fail | rule word64_eqI, simp add: enum_bits))+

text \<open>\<open>all_ok P r\<close>: if \<open>r\<close> is an instruction, it has \<open>P\<close>; with rules that follow the if-chains.\<close>

definition all_ok :: "(instruction \<Rightarrow> bool) \<Rightarrow> decoded \<Rightarrow> bool" where
  "all_ok P r \<longleftrightarrow> (\<forall>i. r = Ok i \<longrightarrow> P i)"

lemma all_ok_if: "(c \<Longrightarrow> all_ok P a) \<Longrightarrow> (\<not> c \<Longrightarrow> all_ok P b) \<Longrightarrow> all_ok P (if c then a else b)"
  by simp

lemma all_ok_simps [simp]: "all_ok P (Ok i) = P i" "all_ok P (Err e)" "all_ok P None"
  by (simp_all add: all_ok_def)

lemma all_ok_table: "list_all (\<lambda>(k, i). P i) arms \<Longrightarrow> all_ok P (match_table inst arms k)"
  by (auto simp: all_ok_def dest: match_table_Ok)

lemma rvc_q0_encodable: "all_ok encodable (rvc_q0 w f3)"
  unfolding rvc_q0_def Let_def
  by (intro all_ok_if; simp add: rvc_fits_unsigned del: push_bit_and)

lemma rvc_q1_alu_encodable: "all_ok encodable (rvc_q1_alu w)"
  unfolding rvc_q1_alu_def Let_def
  by (intro all_ok_if; (rule all_ok_table)?; simp add: is_w_shift_def rvc_fits_signed del: push_bit_and)

lemma rvc_q1_encodable: "all_ok encodable (rvc_q1 w f3)"
  unfolding rvc_q1_def Let_def
  by (intro all_ok_if; (rule rvc_q1_alu_encodable)?; simp add: rvc_fits_signed del: push_bit_and)

lemma rvc_q2_encodable: "all_ok encodable (rvc_q2 w f3)"
  unfolding rvc_q2_def Let_def
  by (intro all_ok_if; simp add: is_w_shift_def rvc_fits_unsigned fits_zero del: push_bit_and)

lemma decode_rvc_encodable: "decode_rvc inst = Ok i \<Longrightarrow> encodable i"
proof -
  have "all_ok encodable (decode_rvc inst)"
    unfolding decode_rvc_def Let_def
    by (intro all_ok_if rvc_q0_encodable rvc_q1_encodable rvc_q2_encodable) simp
  then show "decode_rvc inst = Ok i \<Longrightarrow> encodable i"
    by (simp add: all_ok_def)
qed

lemma rvc_q1_alu_total: "rvc_q1_alu w \<noteq> None"
proof -
  have "shr w 10 AND 3 \<in> {0, 1, 2, 3}"
  proof -
    have "shr w 10 AND 3 \<le> 3"
      by (rule word_and_le1)
    then show ?thesis
      using word_interval_cases [of 0 "shr w 10 AND 3" 3] by (simp add: upt_rec)
  qed
  then show ?thesis
    unfolding rvc_q1_alu_def Let_def
    by (elim insertE) (simp_all add: match_table_total del: not_None_eq)
qed

lemma decode_rvc_total:
  assumes "inst AND 3 \<noteq> 3"
  shows "decode_rvc inst \<noteq> None"
proof -
  have w: "(ucast inst :: u32) AND 3 = ucast (inst AND 3)"
    by (simp add: unsigned_and_eq)
  have "inst AND 3 \<le> 3"
    by (rule word_and_le1)
  then have "inst AND 3 \<in> {0, 1, 2, 3}"
    using word_interval_cases [of 0 "inst AND 3" 3] by (simp add: upt_rec)
  then have "(ucast inst :: u32) AND 3 \<in> {0, 1, 2}"
    using assms by (auto simp: w)
  then show ?thesis
    unfolding decode_rvc_def Let_def rvc_q0_def rvc_q1_def rvc_q2_def
    by (elim insertE) (simp_all only: simp_thms if_True if_False one_neq_zero numeral_One,
      (intro if_total option.distinct(2) rvc_q1_alu_total | simp)+)
qed

lemma decode_rvc_illegal:
  assumes "decode_rvc inst = Err e"
  shows "e = IllegalInstruction (ucast inst)"
proof -
  have alu: "rvc_q1_alu w = Err e \<Longrightarrow> e = IllegalInstruction w" for w
    unfolding rvc_q1_alu_def Let_def by (elim if_eqE) (simp_all, erule match_table_Err)
  have "rvc_q0 w f3 = Err e \<Longrightarrow> e = IllegalInstruction w"
    "rvc_q1 w f3 = Err e \<Longrightarrow> e = IllegalInstruction w"
    "rvc_q2 w f3 = Err e \<Longrightarrow> e = IllegalInstruction w" for w f3
    unfolding rvc_q0_def rvc_q1_def rvc_q2_def Let_def
    by (elim if_eqE; simp add: alu)+
  with assms show ?thesis
    unfolding decode_rvc_def Let_def by (elim if_eqE) simp_all
qed

section \<open>The decoder and the assembler as a codec\<close>

text \<open>
  What the execution loop relies on in a decoder: it returns for every word, an instruction it
  returns is one the executor is made for, a refusal carries the offending word, and every
  instruction the executor is made for has a word that decodes to it.
\<close>

locale codec =
  fixes enc :: "'i \<Rightarrow> 'w" and dec :: "'w \<Rightarrow> ('e + 'i) option"
    and valid :: "'i \<Rightarrow> bool" and bad :: "'w \<Rightarrow> 'e"
  assumes dec_enc: "valid i \<Longrightarrow> dec (enc i) = Ok i"
    and dec_valid: "dec w = Ok i \<Longrightarrow> valid i"
    and dec_returns: "dec w \<noteq> None"
    and dec_refuses: "dec w = Err e \<Longrightarrow> e = bad w"
begin

lemma outcome: "(\<exists>i. valid i \<and> dec w = Ok i) \<or> dec w = Err (bad w)"
proof (cases "dec w")
  case None
  then show ?thesis using dec_returns by blast
next
  case (Some r)
  then show ?thesis
    using dec_valid dec_refuses by (cases r) auto
qed

lemma enc_inject: "valid i \<Longrightarrow> valid j \<Longrightarrow> enc i = enc j \<Longrightarrow> i = j"
  by (metis dec_enc option.inject sum.inject(2))

lemma reassemble: "dec w = Ok i \<Longrightarrow> dec (enc i) = Ok i"
  by (simp add: dec_enc dec_valid)

end

lemma decode_encode_all: "encodable i \<Longrightarrow> decode (encode i) = Ok i"
  by (cases i) (simp_all only: decode_encode_r decode_encode_m decode_encode_i decode_encode_shift
    decode_encode_load decode_encode_store decode_encode_branch decode_encode_amo decode_encode_lrsc
    decode_encode_jump decode_encode_fp_mem decode_encode_system decode_encode_csr
    decode_encode_op_fp decode_encode_fma)

interpretation rv64: codec encode decode encodable IllegalInstruction
  by unfold_locales (simp_all add: decode_encode_all decode_encodable decode_total decode_illegal
    del: not_None_eq)

section \<open>Properties\<close>

text \<open>
  C37. Every 32-bit word either decodes to an instruction all of whose register numbers are below
  32, shift amounts below the operand width and immediates in the range of their format, or is
  refused with exactly that word; the decoder never panics.
\<close>

theorem decode_outcome:
  "(\<exists>i. encodable i \<and> decode w = Ok i) \<or> decode w = Err (IllegalInstruction w)"
  by (rule rv64.outcome)

text \<open>
  C9. The decoder inverts the assembler: every instruction with an encoding, of every format and
  with every immediate in range, is what its encoding decodes to.
\<close>

theorem decode_encode:
  assumes "encodable i"
  shows "decode (encode i) = Ok i"
  using assms by (rule rv64.dec_enc)

theorem decode_encode_witness:
  "decode (encode (Branch Bltu 5 31 (-4096))) = Ok (Branch Bltu 5 31 (-4096))"
  by (rule decode_encode) (simp add: fits_def)

end
