(* ===== verification/Cpu.thy ===== *)
theory Cpu
  imports Csr Mmu Decode
begin

text \<open>
  The hart: \<open>src/cpu/mod.rs\<close> without \<open>step\<close>, which theory \<open>Execute\<close> adds.  The record has the struct's
  fields (the tracer, which only prints, is left out); the two register files are lists of length
  32, and an index that Rust would panic on is \<open>None\<close>.  Trap delivery and the interrupt check are
  total; their diagnostic dumps, which read an environment variable and print, are left out.
\<close>

record cpu =
  regs :: "u64 list"
  fregs :: "u64 list"
  pc :: u64
  bus :: bus
  csr :: csr
  reservation :: "u64 option"
  mode :: priv_mode
  mmu :: mmu
  inst_size :: u64
  fcsr :: u32
  jit_invalidate :: bool
  fence_i_pending :: bool

definition trap_pc :: "u64 \<Rightarrow> u64 \<Rightarrow> u64" where
  "trap_pc tvec cause =
    (let base = tvec AND NOT 0x3;
         vmode = tvec AND 0x3;
         is_interrupt = (shr cause 63 \<noteq> 0)
     in if is_interrupt \<and> vmode = 1 then base + (cause AND NOT (shl 1 63)) * 4 else base)"

definition Cpu_new :: "bus \<Rightarrow> u64 \<Rightarrow> cpu" where
  "Cpu_new b entry = \<lparr>regs = replicate 32 0, fregs = replicate 32 0, pc = entry, bus = b,
     csr = Csr_new, reservation = None, mode = PrivMode_M, mmu = Mmu_new, inst_size = 4, fcsr = 0,
     jit_invalidate = False, fence_i_pending = False\<rparr>"

definition Cpu_csr_read :: "cpu \<Rightarrow> u16 \<Rightarrow> u64" where
  "Cpu_csr_read c addr = (if addr = 0xC01 then mtime (clint (bus c)) else Csr_read (csr c) addr)"

definition Cpu_csr_write :: "cpu \<Rightarrow> u16 \<Rightarrow> u64 \<Rightarrow> cpu" where
  "Cpu_csr_write c addr val = c\<lparr>csr := Csr_write (csr c) addr val\<rparr>"

definition reg :: "cpu \<Rightarrow> nat \<Rightarrow> u64 option" where
  "reg c n = (if n < 32 then Some (if n = 0 then 0 else regs c ! n) else None)"

definition set_reg :: "cpu \<Rightarrow> nat \<Rightarrow> u64 \<Rightarrow> cpu option" where
  "set_reg c n val =
    (if n < 32 then Some (if n \<noteq> 0 then c\<lparr>regs := (regs c)[n := val]\<rparr> else c) else None)"

definition deliver_trap :: "cpu \<Rightarrow> u64 \<Rightarrow> u64 \<Rightarrow> cpu" where
  "deliver_trap c cause tval =
    (let is_interrupt = (shr cause 63 \<noteq> 0);
         cause_code = cause AND NOT (shl 1 63);
         deleg_reg = (if is_interrupt then mideleg (csr c) else medeleg (csr c));
         delegated = (cause_code < 64 \<and> shr deleg_reg (unat cause_code) AND 1 = 1
                      \<and> mode c \<noteq> PrivMode_M)
     in
     if delegated then
       let s = Csr_s_trap_entry (csr c) (mode c = PrivMode_S);
           s = s\<lparr>sepc := pc c, scause := cause, stval := tval\<rparr>
       in c\<lparr>csr := s, pc := trap_pc (stvec s) cause, mode := PrivMode_S\<rparr>
     else
       let s = Csr_trap_entry (csr c) (priv_code (mode c));
           s = s\<lparr>mepc := pc c, mcause := cause, mtval := tval\<rparr>
       in c\<lparr>csr := s, pc := trap_pc (mtvec s) cause, mode := PrivMode_M\<rparr>)"

text \<open>The \<open>for\<close> loop of the interrupt check, over the cause codes in priority order.\<close>

definition can_fire :: "cpu \<Rightarrow> nat \<Rightarrow> bool" where
  "can_fire c cause_code =
    (let delegated = (shr (mideleg (csr c)) cause_code AND 1 = 1)
     in case mode c of
         PrivMode_M \<Rightarrow> \<not> delegated \<and> Csr_mie_bit (csr c) = 1
       | _ \<Rightarrow> if delegated then shr (mstatus (csr c)) 1 AND 1 = 1 else True)"

fun interrupt_loop :: "nat list \<Rightarrow> u64 \<Rightarrow> cpu \<Rightarrow> cpu \<times> bool" where
  "interrupt_loop [] pend c = (c, False)"
| "interrupt_loop (cause_code # codes) pend c =
     (if shr pend cause_code AND 1 = 0 then interrupt_loop codes pend c
      else if can_fire c cause_code then (deliver_trap c (shl 1 63 OR of_nat cause_code) 0, True)
      else interrupt_loop codes pend c)"

definition check_interrupts :: "cpu \<Rightarrow> cpu \<times> bool" where
  "check_interrupts c =
    (let pend = mip (csr c) AND mie (csr c)
     in if pend = 0 then (c, False) else interrupt_loop [11, 3, 7, 9, 1, 5] pend c)"

section \<open>Privilege modes in order\<close>

lemma priv_code_inject [simp]: "priv_code p = priv_code q \<longleftrightarrow> p = q"
  by (cases p; cases q) simp_all

instantiation priv_mode :: linorder
begin

definition less_eq_priv_mode :: "priv_mode \<Rightarrow> priv_mode \<Rightarrow> bool" where
  "p \<le> q \<longleftrightarrow> priv_code p \<le> priv_code q"

definition less_priv_mode :: "priv_mode \<Rightarrow> priv_mode \<Rightarrow> bool" where
  "p < q \<longleftrightarrow> priv_code p < priv_code q"

instance
  by standard (auto simp: less_eq_priv_mode_def less_priv_mode_def dest: order.antisym simp: order.strict_iff_order)

end

lemma priv_mode_bounds [simp]: "PrivMode_U \<le> p" "p \<le> PrivMode_M"
  by (cases p; simp add: less_eq_priv_mode_def)+

section \<open>Well-formed harts\<close>

text \<open>
  What every operation keeps: 32 registers with \<open>x0 = 0\<close>, 32 floating-point registers, an even
  \<open>pc\<close>, legal control registers, and a well-formed TLB and bus.
\<close>

definition cpu_wf :: "cpu \<Rightarrow> bool" where
  "cpu_wf c \<longleftrightarrow> length (regs c) = 32 \<and> regs c ! 0 = 0 \<and> length (fregs c) = 32 \<and>
     \<not> bit (pc c) 0 \<and> csr_wf (csr c) \<and> mmu_wf (mmu c) \<and> bus_wf (bus c)"

lemma csr_wf_new: "csr_wf Csr_new"
  by (simp add: csr_wf_def Csr_new_def)

lemma cpu_wf_new: "bus_wf b \<Longrightarrow> \<not> bit entry 0 \<Longrightarrow> cpu_wf (Cpu_new b entry)"
  by (simp add: cpu_wf_def Cpu_new_def csr_wf_new mmu_wf_new)

lemma mstatus_legal: "w AND 0x0000000F00000000 = 0 \<longleftrightarrow>
    \<not> bit w 32 \<and> \<not> bit w 33 \<and> \<not> bit w 34 \<and> \<not> bit w 35" for w :: u64
proof
  assume "w AND 0x0000000F00000000 = 0"
  then have "\<not> bit (w AND 0x0000000F00000000) n" for n by simp
  from this [of 32] this [of 33] this [of 34] this [of 35]
  show "\<not> bit w 32 \<and> \<not> bit w 33 \<and> \<not> bit w 34 \<and> \<not> bit w 35"
    by (simp add: bit_simps)
next
  assume "\<not> bit w 32 \<and> \<not> bit w 33 \<and> \<not> bit w 34 \<and> \<not> bit w 35"
  then show "w AND 0x0000000F00000000 = 0"
    by (intro word64_eqI) (simp add: enum_bits)
qed

lemma csr_wf_bits: "csr_wf s \<longleftrightarrow>
    (\<not> bit (mstatus s) 32 \<and> \<not> bit (mstatus s) 33 \<and> \<not> bit (mstatus s) 34 \<and> \<not> bit (mstatus s) 35) \<and>
    \<not> bit (mepc s) 0 \<and> \<not> bit (sepc s) 0 \<and> (shr (satp s) 60 = 0 \<or> shr (satp s) 60 = 8) \<and>
    length (pmpaddr s) = 16"
  by (simp add: csr_wf_def mstatus_legal)

lemma priv_code_range: "priv_code p \<in> {0, 1, 2, 3}"
  by (cases p) simp_all

lemma csr_wf_trap_entry: "csr_wf s \<Longrightarrow> csr_wf (Csr_trap_entry s (priv_code p))"
  by (simp add: csr_wf_bits bit_Csr_trap_entry priv_code_range del: insert_iff)
    (simp add: Csr_trap_entry_def)

lemma csr_wf_s_trap_entry: "csr_wf s \<Longrightarrow> csr_wf (Csr_s_trap_entry s fs)"
  by (simp add: csr_wf_bits bit_Csr_s_trap_entry) (simp add: Csr_s_trap_entry_def)

lemma csr_wf_mret: "csr_wf s \<Longrightarrow> csr_wf (Csr_mret s)"
  by (simp add: csr_wf_bits bit_Csr_mret) (simp add: Csr_mret_def Let_def)

lemma csr_wf_s_ret: "csr_wf s \<Longrightarrow> csr_wf (Csr_s_ret s)"
  by (simp add: csr_wf_bits bit_Csr_s_ret) (simp add: Csr_s_ret_def)

lemmas csr_wf_updates [wf_intros] =
  csr_wf_trap_entry csr_wf_s_trap_entry csr_wf_mret csr_wf_s_ret csr_write_wf

lemma trap_pc_even: "\<not> bit (trap_pc tvec cause) 0"
  by (auto simp: trap_pc_def Let_def bit_0 even_and_iff)

lemma cpu_wf_deliver_trap [wf_intros]: "cpu_wf c \<Longrightarrow> cpu_wf (deliver_trap c cause tval)"
  using csr_wf_trap_entry [of "csr c"] csr_wf_s_trap_entry [of "csr c"]
  by (auto simp: cpu_wf_def deliver_trap_def Let_def trap_pc_even csr_wf_bits)

section \<open>Traps\<close>

text \<open>A trap goes to supervisor mode: from user or supervisor mode, when its delegation bit is set.\<close>

definition trap_to_S :: "cpu \<Rightarrow> u64 \<Rightarrow> bool" where
  "trap_to_S c cause \<longleftrightarrow> mode c \<noteq> PrivMode_M \<and> cause AND NOT (shl 1 63) < 64 \<and>
     bit (if bit cause 63 then mideleg (csr c) else medeleg (csr c)) (unat (cause AND NOT (shl 1 63)))"

lemma interrupt_bit: "shr cause 63 \<noteq> 0 \<longleftrightarrow> bit cause 63" for cause :: u64
proof -
  have "shr cause 63 = shr cause 63 AND 1"
    by (rule bit_word_eqI) (auto simp: bit_simps bit_1_iff dest: bit_imp_le_length)
  then show ?thesis using bit_test_zero_iff [of 63 cause] by simp
qed

text \<open>
  The address a trap goes to, by arithmetic: the vector table is at \<open>tvec\<close> rounded down to four, and an
  interrupt in vectored mode enters it at four times its code.
\<close>

definition trap_vector :: "u64 \<Rightarrow> u64 \<Rightarrow> u64" where
  "trap_vector tvec cause = 4 * (tvec div 4) +
    (if bit cause 63 \<and> tvec mod 4 = 1 then 4 * take_bit 63 cause else 0)"

lemma trap_pc_vector: "trap_pc tvec cause = trap_vector tvec cause"
proof -
  have "tvec AND NOT 3 = 4 * (tvec div 4)"
  proof -
    have "tvec AND NOT 3 = push_bit 2 (drop_bit 2 tvec)"
      by (rule word64_eqI) (simp add: enum_bits, simp add: numeral_2_eq_2 numeral_3_eq_3)
    then show ?thesis by (simp add: push_bit_eq_mult drop_bit_eq_div mult.commute)
  qed
  moreover have "tvec AND 3 = tvec mod 4"
    using take_bit_eq_mod [of 2 tvec] take_bit_eq_mask [of 2 tvec] by (simp add: mask_numeral)
  moreover have "cause AND NOT (shl 1 63) = take_bit 63 cause"
    by (rule word64_eqI) (simp add: enum_bits)
  moreover have "shr cause 63 \<noteq> 0 \<longleftrightarrow> bit cause 63"
    by (simp add: interrupt_bit)
  ultimately show ?thesis
    by (simp add: trap_pc_def trap_vector_def Let_def mult.commute)
qed

lemma deliver_trap_S:
  "trap_to_S c cause \<Longrightarrow> deliver_trap c cause tval =
    (let s = (Csr_s_trap_entry (csr c) (mode c = PrivMode_S))\<lparr>sepc := pc c, scause := cause, stval := tval\<rparr>
     in c\<lparr>csr := s, pc := trap_pc (stvec s) cause, mode := PrivMode_S\<rparr>)"
  unfolding deliver_trap_def trap_to_S_def Let_def interrupt_bit bit_tests by simp

lemma deliver_trap_M:
  "\<not> trap_to_S c cause \<Longrightarrow> deliver_trap c cause tval =
    (let s = (Csr_trap_entry (csr c) (priv_code (mode c)))\<lparr>mepc := pc c, mcause := cause, mtval := tval\<rparr>
     in c\<lparr>csr := s, pc := trap_pc (mtvec s) cause, mode := PrivMode_M\<rparr>)"
  unfolding deliver_trap_def trap_to_S_def Let_def interrupt_bit bit_tests by auto

lemma deliver_trap_frame [cpu_frame]:
  "regs (deliver_trap c cause tval) = regs c" "fregs (deliver_trap c cause tval) = fregs c"
  "bus (deliver_trap c cause tval) = bus c" "mmu (deliver_trap c cause tval) = mmu c"
  "reservation (deliver_trap c cause tval) = reservation c"
  "inst_size (deliver_trap c cause tval) = inst_size c"
  by (simp_all add: deliver_trap_def Let_def)

lemma Csr_s_trap_entry_frame:
  "Csr_s_trap_entry s b = s\<lparr>mstatus := mstatus (Csr_s_trap_entry s b)\<rparr>"
  by (simp add: Csr_s_trap_entry_def)

lemma Csr_trap_entry_frame: "Csr_trap_entry s p = s\<lparr>mstatus := mstatus (Csr_trap_entry s p)\<rparr>"
  by (simp add: Csr_trap_entry_def Let_def)

section \<open>Properties\<close>

text \<open>
  C11. Trap delivery.  A trap taken below machine mode with its delegation bit set enters supervisor
  mode: it records \<open>pc\<close>, cause and value in the supervisor's registers, stacks SIE and the mode in
  SPIE and SPP, clears SIE, and changes no other control register and no other status bit; any other
  trap enters machine mode the same way, with MIE, MPIE and MPP.  Execution goes on at the mode's
  vector (its base, or for an interrupt in vectored mode the entry of its code), privilege never drops,
  and registers, memory, the TLB and the reservation are untouched.
\<close>

theorem trap_delivery:
  "(if trap_to_S c cause
    then \<exists>ms. deliver_trap c cause tval =
      c\<lparr>csr := (csr c)\<lparr>mstatus := ms, sepc := pc c, scause := cause, stval := tval\<rparr>,
        pc := trap_vector (stvec (csr c)) cause, mode := PrivMode_S\<rparr> \<and>
      (\<forall>n. bit ms n = (if n = 1 then False else if n = 5 then bit (mstatus (csr c)) 1
        else if n = 8 then mode c = PrivMode_S else bit (mstatus (csr c)) n))
    else \<exists>ms. deliver_trap c cause tval =
      c\<lparr>csr := (csr c)\<lparr>mstatus := ms, mepc := pc c, mcause := cause, mtval := tval\<rparr>,
        pc := trap_vector (mtvec (csr c)) cause, mode := PrivMode_M\<rparr> \<and>
      (\<forall>n. bit ms n = (if n = 3 then False else if n = 7 then bit (mstatus (csr c)) 3
        else if n = 11 \<or> n = 12 then bit (priv_code (mode c)) (n - 11) else bit (mstatus (csr c)) n)))
   \<and> mode c \<le> mode (deliver_trap c cause tval)"
proof (cases "trap_to_S c cause")
  case True
  let ?ms = "mstatus (Csr_s_trap_entry (csr c) (mode c = PrivMode_S))"
  have "deliver_trap c cause tval =
      c\<lparr>csr := (csr c)\<lparr>mstatus := ?ms, sepc := pc c, scause := cause, stval := tval\<rparr>,
        pc := trap_vector (stvec (csr c)) cause, mode := PrivMode_S\<rparr>"
    unfolding deliver_trap_S [OF True] Let_def trap_pc_vector by (subst (1 2) Csr_s_trap_entry_frame) simp
  moreover have "mode c \<le> PrivMode_S"
    using True by (cases "mode c") (simp_all add: trap_to_S_def less_eq_priv_mode_def)
  ultimately show ?thesis
    using True by (auto simp: bit_Csr_s_trap_entry)
next
  case False
  let ?ms = "mstatus (Csr_trap_entry (csr c) (priv_code (mode c)))"
  have "deliver_trap c cause tval =
      c\<lparr>csr := (csr c)\<lparr>mstatus := ?ms, mepc := pc c, mcause := cause, mtval := tval\<rparr>,
        pc := trap_vector (mtvec (csr c)) cause, mode := PrivMode_M\<rparr>"
    unfolding deliver_trap_M [OF False] Let_def trap_pc_vector by (subst (1 2) Csr_trap_entry_frame) simp
  then show ?thesis
    using False bit_Csr_trap_entry [OF priv_code_range, of "csr c" "mode c"] by auto
qed

text \<open>An interrupt that is pending, enabled and not masked by the mode it interrupts.\<close>

definition int_ready :: "cpu \<Rightarrow> nat \<Rightarrow> bool" where
  "int_ready c k \<longleftrightarrow> bit (mip (csr c)) k \<and> bit (mie (csr c)) k \<and>
     (if mode c = PrivMode_M then \<not> bit (mideleg (csr c)) k \<and> bit (mstatus (csr c)) 3
      else bit (mideleg (csr c)) k \<longrightarrow> bit (mstatus (csr c)) 1)"

lemma interrupt_loop_find:
  "interrupt_loop codes (mip (csr c) AND mie (csr c)) c =
    (case find (int_ready c) codes of None \<Rightarrow> (c, False)
     | Some k \<Rightarrow> (deliver_trap c (shl 1 63 OR of_nat k) 0, True))"
proof (induction codes)
  case (Cons k codes)
  have "int_ready c k \<longleftrightarrow> bit (mip (csr c) AND mie (csr c)) k \<and> can_fire c k"
    unfolding int_ready_def can_fire_def Let_def Csr_mie_bit_def bit_tests bit_and_iff
    by (cases "mode c") auto
  then show ?case
    unfolding interrupt_loop.simps bit_tests find.simps using Cons by simp
qed simp

lemma check_interrupts_find:
  "check_interrupts c = (case find (int_ready c) [11, 3, 7, 9, 1, 5] of
     None \<Rightarrow> (c, False)
   | Some k \<Rightarrow> (deliver_trap c (shl 1 63 OR of_nat k) 0, True))"
proof -
  have "\<not> int_ready c k" if "mip (csr c) AND mie (csr c) = 0" for k
  proof -
    have "\<not> bit (mip (csr c) AND mie (csr c)) k" by (simp add: that)
    then show ?thesis unfolding int_ready_def bit_and_iff by blast
  qed
  then have "mip (csr c) AND mie (csr c) = 0 \<Longrightarrow> find (int_ready c) [11, 3, 7, 9, 1, 5] = None"
    by simp
  then show ?thesis
    using interrupt_loop_find [of "[11, 3, 7, 9, 1, 5]" c]
    unfolding check_interrupts_def Let_def by (auto split: option.split simp del: find.simps)
qed


lemma cpu_wf_check_interrupts [wf_intros]:
  assumes "cpu_wf c"
  shows "cpu_wf (fst (check_interrupts c))"
proof -
  have "cpu_wf (fst (interrupt_loop codes p c))" for codes p
    using assms by (induction codes) (auto intro: cpu_wf_deliver_trap)
  then show ?thesis using assms by (simp add: check_interrupts_def Let_def del: interrupt_loop.simps)
qed

lemma check_interrupts_frame [cpu_frame]:
  "bus (fst (check_interrupts c)) = bus c" "regs (fst (check_interrupts c)) = regs c"
  "fregs (fst (check_interrupts c)) = fregs c" "mmu (fst (check_interrupts c)) = mmu c"
  unfolding check_interrupts_find by (simp_all add: deliver_trap_frame split: option.split del: find.simps)

end
