(* ===== verification/Alu.thy ===== *)
theory Alu
  imports Cpu "HOL-Library.Signed_Division"
begin

text \<open>
  The values the integer instructions compute: the arms of \<open>execute\<close> in \<open>src/cpu/execute.rs\<close> for
  the arithmetic, shift, multiply, divide and branch groups, one equation per mnemonic.  An \<open>i64\<close>
  is the word itself, an \<open>i32\<close> the truncated word; \<open>as u64\<close> of an \<open>i32\<close> is \<open>scast\<close>, of a \<open>u32\<close>
  is \<open>ucast\<close>; the products are taken at 128 bits as in the source.  A shift amount is reduced
  modulo the width of its operand, as the release build does.
\<close>

type_synonym u128 = "128 word"

definition sext :: "u64 \<Rightarrow> nat \<Rightarrow> u64" where
  "sext val b = (let shift = 63 - b in sar (shl val shift) shift)"

abbreviation lo32 :: "u64 \<Rightarrow> u32" where
  "lo32 a \<equiv> ucast a"

definition i64_MIN :: u64 where "i64_MIN = 0x8000000000000000"

definition i32_MIN :: u32 where "i32_MIN = 0x80000000"

fun r_value :: "r_op \<Rightarrow> u64 \<Rightarrow> u64 \<Rightarrow> u64" where
  "r_value Add a b = a + b"
| "r_value Sub a b = a - b"
| "r_value Sll a b = shl a (unat (b AND 0x3f))"
| "r_value Slt a b = bool_u64 (a <s b)"
| "r_value Sltu a b = bool_u64 (a < b)"
| "r_value Xor a b = a XOR b"
| "r_value Srl a b = shr a (unat (b AND 0x3f))"
| "r_value Sra a b = sar a (unat (b AND 0x3f))"
| "r_value Or a b = a OR b"
| "r_value And a b = a AND b"
| "r_value Addw a b = sext (a + b) 31"
| "r_value Subw a b = sext (a - b) 31"
| "r_value Sllw a b = sext (shl a (unat (b AND 0x1f))) 31"
| "r_value Srlw a b = sext (ucast (shr (lo32 a) (unat (b AND 0x1f)))) 31"
| "r_value Sraw a b = sext (scast (sar (lo32 a) (unat (b AND 0x1f)))) 31"

fun i_value :: "i_op \<Rightarrow> u64 \<Rightarrow> i64 \<Rightarrow> u64" where
  "i_value Addi a imm = a + imm"
| "i_value Slti a imm = bool_u64 (a <s imm)"
| "i_value Sltiu a imm = bool_u64 (a < imm)"
| "i_value Xori a imm = a XOR imm"
| "i_value Ori a imm = a OR imm"
| "i_value Andi a imm = a AND imm"
| "i_value Addiw a imm = sext (a + imm) 31"

fun shift_value :: "shift_op \<Rightarrow> u64 \<Rightarrow> nat \<Rightarrow> u64" where
  "shift_value Slli a shamt = shl a (shamt mod 64)"
| "shift_value Srli a shamt = shr a (shamt mod 64)"
| "shift_value Srai a shamt = sar a (shamt mod 64)"
| "shift_value Slliw a shamt = sext (shl a (shamt mod 64)) 31"
| "shift_value Srliw a shamt = sext (ucast (shr (lo32 a) (shamt mod 32))) 31"
| "shift_value Sraiw a shamt = sext (scast (sar (lo32 a) (shamt mod 32))) 31"

fun m_value :: "m_op \<Rightarrow> u64 \<Rightarrow> u64 \<Rightarrow> u64" where
  "m_value Mul a b = ucast ((scast a :: u128) * scast b)"
| "m_value Mulh a b = ucast (sar ((scast a :: u128) * scast b) 64)"
| "m_value Mulhsu a b = ucast (sar ((scast a :: u128) * ucast b) 64)"
| "m_value Mulhu a b = ucast (shr ((ucast a :: u128) * ucast b) 64)"
| "m_value Div a b =
     (if b = 0 then -1
      else if a = i64_MIN \<and> b = -1 then i64_MIN
      else word_of_int (sint a sdiv sint b))"
| "m_value Divu a b = (if b = 0 then u64_MAX else a div b)"
| "m_value Rem a b =
     (if b = 0 then a
      else if a = i64_MIN \<and> b = -1 then 0
      else word_of_int (sint a smod sint b))"
| "m_value Remu a b = (if b = 0 then a else a mod b)"
| "m_value Mulw a b = sext (scast (lo32 a * lo32 b)) 31"
| "m_value Divw a b =
     (if lo32 b = 0 then -1
      else if lo32 a = i32_MIN \<and> lo32 b = -1 then sext (scast i32_MIN) 31
      else sext (scast (word_of_int (sint (lo32 a) sdiv sint (lo32 b)) :: u32)) 31)"
| "m_value Divuw a b =
     (if lo32 b = 0 then u64_MAX else sext (ucast (lo32 a div lo32 b)) 31)"
| "m_value Remw a b =
     (if lo32 b = 0 then sext (scast (lo32 a)) 31
      else if lo32 a = i32_MIN \<and> lo32 b = -1 then 0
      else sext (scast (word_of_int (sint (lo32 a) smod sint (lo32 b)) :: u32)) 31)"
| "m_value Remuw a b =
     (if lo32 b = 0 then sext (ucast (lo32 a)) 31 else sext (ucast (lo32 a mod lo32 b)) 31)"

fun branch_taken :: "branch_op \<Rightarrow> u64 \<Rightarrow> u64 \<Rightarrow> bool" where
  "branch_taken Beq a b \<longleftrightarrow> a = b"
| "branch_taken Bne a b \<longleftrightarrow> a \<noteq> b"
| "branch_taken Blt a b \<longleftrightarrow> a <s b"
| "branch_taken Bge a b \<longleftrightarrow> \<not> a <s b"
| "branch_taken Bltu a b \<longleftrightarrow> a < b"
| "branch_taken Bgeu a b \<longleftrightarrow> a \<ge> b"

section \<open>Thirty-two bit results\<close>

lemma sext_31: "sext x 31 = scast (lo32 x)"
proof (rule bit_word_eqI)
  fix n assume "n < LENGTH(64)"
  then show "bit (sext x 31) n = bit (scast (lo32 x) :: u64) n"
    by (cases "n = 31") (auto simp: sext_def bit_simps bit_signed_drop_bit_iff min_def)
qed

lemma lo32_scast [simp]: "lo32 (scast (w :: u32) :: u64) = w"
  by (rule bit_word_eqI) (auto simp: bit_simps)

lemma lo32_ucast [simp]: "lo32 (ucast (w :: u32) :: u64) = w"
  by (rule bit_word_eqI) (auto simp: bit_simps)

lemma word_of_int_mod_64: "(word_of_int (x mod 2 ^ 64) :: u32) = word_of_int x"
  by (simp add: word_of_int_eq_iff take_bit_eq_mod mod_mod_cancel)

lemma len_64: "LENGTH(64) = 64"
  by simp

lemma lo32_arith:
  "lo32 (a + b) = lo32 a + lo32 b" "lo32 (a - b) = lo32 a - lo32 b" "lo32 (a * b) = lo32 a * lo32 b"
  unfolding ucast_eq uint_word_ariths len_64
  by (simp_all only: word_of_int_mod_64 wi_hom_syms)

lemma lo32_shl: "lo32 (shl a n) = shl (lo32 a) n"
  by (rule bit_word_eqI) (auto simp: bit_simps)

text \<open>The 32-bit operation of each \<open>*W\<close> mnemonic.\<close>

fun r_value32 :: "r_op \<Rightarrow> u32 \<Rightarrow> u32 \<Rightarrow> u32" where
  "r_value32 Addw a b = a + b"
| "r_value32 Subw a b = a - b"
| "r_value32 Sllw a b = shl a (unat b mod 32)"
| "r_value32 Srlw a b = shr a (unat b mod 32)"
| "r_value32 Sraw a b = sar a (unat b mod 32)"
| "r_value32 _ a b = 0"

lemma mod_32: "unat (b AND 0x1f) = unat (lo32 b) mod 32" for b :: u64
proof -
  have "b AND 0x1f = take_bit 5 b"
    by (rule word64_eqI) (simp add: enum_bits)
  then have "unat (b AND 0x1f) = take_bit 5 (unat b)"
    by (simp only: unsigned_take_bit_eq)
  moreover have "unat (lo32 b) mod 32 = take_bit 5 (take_bit 32 (unat b))"
    unfolding unsigned_ucast_eq take_bit_eq_mod [of 5] by simp
  ultimately show ?thesis by simp
qed

text \<open>
  C17. The word operations are 32-bit operations: the result of each \<open>*W\<close> register instruction
  depends only on the low halves of its operands, is the wrapped 32-bit result with the shift amount
  taken modulo 32, and is sign-extended to 64 bits.
\<close>

theorem word_ops_are_32_bit:
  assumes "op \<in> {Addw, Subw, Sllw, Srlw, Sraw}"
  shows "r_value op a b = scast (r_value32 op (lo32 a) (lo32 b))"
  using assms by (auto simp: sext_31 lo32_arith lo32_shl mod_32)

theorem word_ops_are_32_bit_witness:
  "r_value Addw 0x17FFFFFFF 1 = 0xFFFFFFFF80000000"
  using word_ops_are_32_bit [of Addw "0x17FFFFFFF" 1] by simp

section \<open>Products\<close>

lemma ucast_wide: "(ucast (word_of_int x :: u128) :: u64) = word_of_int x"
proof -
  have "(word_of_int (x mod 2 ^ 128) :: u64) = word_of_int x"
    by (simp add: word_of_int_eq_iff take_bit_eq_mod mod_mod_cancel)
  then show ?thesis
    unfolding ucast_eq uint_word_of_int by simp
qed

lemma sint_in_range: "- (2 ^ (LENGTH('a) - 1)) \<le> x \<Longrightarrow> x < 2 ^ (LENGTH('a) - 1) \<Longrightarrow>
    sint (word_of_int x :: 'a::len word) = x"
  by (simp add: signed_of_int signed_take_bit_int_eq_self)

lemma uint_in_range: "0 \<le> x \<Longrightarrow> x < 2 ^ LENGTH('a) \<Longrightarrow> uint (word_of_int x :: 'a::len word) = x"
  by (simp add: uint_word_of_int)

lemma word_of_int_sint: "word_of_int (sint w) = w" for w :: "'a::len word"
  by (metis scast_eq scast_id)

lemma high_part:
  assumes "- (2 ^ 127) \<le> x" "x < 2 ^ 127"
  shows "(ucast (sar (word_of_int x :: u128) 64) :: u64) = word_of_int (x div 2 ^ 64)"
proof -
  have "sint (sar (word_of_int x :: u128) 64) = x div 2 ^ 64"
    using sint_in_range [where 'a = 128, of x] assms
    by (simp add: sint_signed_drop_bit_eq drop_bit_eq_div)
  then have "sar (word_of_int x :: u128) 64 = word_of_int (x div 2 ^ 64)"
    by (metis word_of_int_sint)
  then show ?thesis by (simp add: ucast_wide)
qed

lemma high_part_u:
  assumes "0 \<le> x" "x < 2 ^ 128"
  shows "(ucast (shr (word_of_int x :: u128) 64) :: u64) = word_of_int (x div 2 ^ 64)"
proof -
  have "uint (word_of_int x :: u128) = x"
    using assms by (intro uint_in_range) auto
  then have "uint (shr (word_of_int x :: u128) 64) = x div 2 ^ 64"
    using assms by (simp only: unsigned_drop_bit_eq) (simp add: drop_bit_eq_div take_bit_int_eq_self)
  then have "shr (word_of_int x :: u128) 64 = word_of_int (x div 2 ^ 64)"
    by (metis word_of_int_uint)
  then show ?thesis by (simp add: ucast_wide)
qed

text \<open>A product of a signed and a signed or unsigned 64-bit number fits in 128 bits.\<close>

lemma sint_bounds: "- (2 ^ 63) \<le> sint a" "sint a < 2 ^ 63" for a :: u64
  using sint_greater_eq [of a] sint_less [of a] by simp_all

lemma uint_bounds: "0 \<le> uint a" "uint a < 2 ^ 64" for a :: u64
  using uint_bounded [of a] by simp_all

lemma product_bound:
  fixes p q :: int
  assumes "- (2 ^ 63) \<le> p" "p < 2 ^ 63" "- (2 ^ 63) \<le> q" "q < 2 ^ 64"
  shows "- (2 ^ 127) \<le> p * q \<and> p * q < 2 ^ 127"
proof -
  have "\<bar>p\<bar> \<le> 2 ^ 63" "\<bar>q\<bar> \<le> 2 ^ 64 - 1" using assms by auto
  then have "\<bar>p\<bar> * \<bar>q\<bar> \<le> 2 ^ 63 * (2 ^ 64 - 1)"
    by (intro mult_mono) auto
  then have "\<bar>p * q\<bar> \<le> 2 ^ 63 * (2 ^ 64 - 1)" by (simp add: abs_mult)
  then show ?thesis by auto
qed

lemma m_value_products:
  "m_value Mul a b = word_of_int (sint a * sint b)"
  "m_value Mulh a b = word_of_int (sint a * sint b div 2 ^ 64)"
  "m_value Mulhsu a b = word_of_int (sint a * uint b div 2 ^ 64)"
  "m_value Mulhu a b = word_of_int (uint a * uint b div 2 ^ 64)"
proof -
  have w: "(scast a :: u128) = word_of_int (sint a)" "(ucast a :: u128) = word_of_int (uint a)" for a :: u64
    by (simp_all only: scast_eq ucast_eq)
  show "m_value Mul a b = word_of_int (sint a * sint b)"
    unfolding m_value.simps w wi_homs by (rule ucast_wide)
  show "m_value Mulh a b = word_of_int (sint a * sint b div 2 ^ 64)"
    unfolding m_value.simps w wi_homs
    using product_bound [of "sint a" "sint b"] sint_bounds [of a] sint_bounds [of b]
    by (intro high_part) auto
  show "m_value Mulhsu a b = word_of_int (sint a * uint b div 2 ^ 64)"
    unfolding m_value.simps w wi_homs
    using product_bound [of "sint a" "uint b"] sint_bounds [of a] uint_bounds [of b]
    by (intro high_part) auto
  have "uint a * uint b \<le> (2 ^ 64 - 1) * (2 ^ 64 - 1)"
    using uint_bounds [of a] uint_bounds [of b] by (intro mult_mono) auto
  then show "m_value Mulhu a b = word_of_int (uint a * uint b div 2 ^ 64)"
    unfolding m_value.simps w wi_homs by (intro high_part_u) auto
qed

text \<open>
  C16. The four multiplications give the exact 128-bit product: the high word, signed, signed by
  unsigned or unsigned as the mnemonic says, and the common low word together are the product of the
  operands with no loss.
\<close>

theorem products_exact:
  "sint (m_value Mulh a b) * 2 ^ 64 + uint (m_value Mul a b) = sint a * sint b \<and>
   sint (m_value Mulhsu a b) * 2 ^ 64 + uint (m_value Mul a b) = sint a * uint b \<and>
   uint (m_value Mulhu a b) * 2 ^ 64 + uint (m_value Mul a b) = uint a * uint b"
proof -
  have mod: "sint x mod 2 ^ 64 = uint x" for x :: u64
    by (simp add: uint_sint take_bit_eq_mod)
  have low: "uint (m_value Mul a b) = sint a * sint b mod 2 ^ 64"
    by (simp only: m_value_products uint_word_of_int take_bit_eq_mod) simp
  have low': "uint (m_value Mul a b) = sint a * uint b mod 2 ^ 64"
    unfolding low by (simp add: mod [symmetric] mod_simps)
  have low'': "uint (m_value Mul a b) = uint a * uint b mod 2 ^ 64"
    unfolding low by (simp add: mod [symmetric] mod_simps)
  have s: "sint (word_of_int (x div 2 ^ 64) :: u64) = x div 2 ^ 64" if "- (2 ^ 127) \<le> x \<and> x < 2 ^ 127" for x
    using that by (intro sint_in_range) (auto simp: div_less_iff_less_mult less_eq_div_iff_mult_less_eq)
  have "uint a * uint b \<le> (2 ^ 64 - 1) * (2 ^ 64 - 1)"
    using uint_bounds [of a] uint_bounds [of b] by (intro mult_mono) auto
  then have u: "uint (m_value Mulhu a b) = uint a * uint b div 2 ^ 64"
    unfolding m_value_products using uint_bounds [of a] uint_bounds [of b]
    by (intro uint_in_range) (auto simp: div_less_iff_less_mult pos_imp_zdiv_nonneg_iff)
  have "sint (m_value Mulh a b) = sint a * sint b div 2 ^ 64"
    unfolding m_value_products
    using product_bound [of "sint a" "sint b"] sint_bounds [of a] sint_bounds [of b] by (intro s) auto
  moreover have "sint (m_value Mulhsu a b) = sint a * uint b div 2 ^ 64"
    unfolding m_value_products
    using product_bound [of "sint a" "uint b"] sint_bounds [of a] uint_bounds [of b] by (intro s) auto
  ultimately show ?thesis
    using low low' low'' u by (metis div_mult_mod_eq)
qed

section \<open>Quotients\<close>

lemma signed_quotient_law:
  "word_of_int (sint a sdiv sint b) * b + word_of_int (sint a smod sint b) = a" for a b :: "'a::len word"
proof -
  have "word_of_int (sint a sdiv sint b) * word_of_int (sint b) + word_of_int (sint a smod sint b) =
      (word_of_int (sint a sdiv sint b * sint b + sint a smod sint b) :: 'a word)"
    by (simp only: wi_homs)
  then show ?thesis
    by (simp only: sdiv_mult_smod_eq word_of_int_sint)
qed

lemma unsigned_quotient_law: "a div b * b + a mod b = a" for a b :: "'a::len word"
  by (fact div_mult_mod_eq)

lemma min_word: "sint a = - (2 ^ 63) \<longleftrightarrow> a = i64_MIN" "sint b = - 1 \<longleftrightarrow> b = - 1" for a b :: u64
proof -
  have "sint i64_MIN = - (2 ^ 63)" by (simp add: i64_MIN_def)
  then show "sint a = - (2 ^ 63) \<longleftrightarrow> a = i64_MIN" by (metis word_of_int_sint)
  have "sint (-1 :: u64) = - 1" by simp
  then show "sint b = - 1 \<longleftrightarrow> b = - 1" by (metis word_of_int_sint)
qed

lemma sdiv_in_range:
  fixes p q :: int
  assumes "- (2 ^ 63) \<le> p" "p < 2 ^ 63" "\<not> (p = - (2 ^ 63) \<and> q = -1)"
  shows "- (2 ^ 63) \<le> p sdiv q \<and> p sdiv q < 2 ^ 63"
proof -
  have r: "- \<bar>p\<bar> \<le> p sdiv q" "p sdiv q \<le> \<bar>p\<bar>"
    using sdiv_int_range [of p q] by auto
  have "p sdiv q \<noteq> 2 ^ 63"
  proof
    assume e: "p sdiv q = 2 ^ 63"
    then have "p = - (2 ^ 63)" using r assms(1,2) by auto
    then show False using e assms(3) int_sdiv_negated_is_minus1 [of p q] by simp
  qed
  then show ?thesis using r assms(1,2) by auto
qed

lemma smod_in_range:
  fixes p q :: int
  assumes "- (2 ^ 63) \<le> q" "q < 2 ^ 63" "q \<noteq> 0"
  shows "- (2 ^ 63) \<le> p smod q \<and> p smod q < 2 ^ 63"
  using smod_int_range [OF assms(3), of p] assms(1,2) by auto

lemma signed_quotient:
  assumes "b \<noteq> 0" "\<not> (sint a = - (2 ^ 63) \<and> sint b = -1)"
  shows "sint (m_value Div a b) = sint a sdiv sint b" "sint (m_value Rem a b) = sint a smod sint b"
proof -
  have "sint b \<noteq> 0" using assms(1) by (metis word_of_int_sint of_int_0)
  have "\<not> (a = i64_MIN \<and> b = - 1)" using assms(2) unfolding min_word .
  then have "m_value Div a b = word_of_int (sint a sdiv sint b)"
    "m_value Rem a b = word_of_int (sint a smod sint b)"
    using assms(1) by auto
  then show "sint (m_value Div a b) = sint a sdiv sint b" "sint (m_value Rem a b) = sint a smod sint b"
    using assms(2) \<open>sint b \<noteq> 0\<close> sdiv_in_range [of "sint a" "sint b"]
      smod_in_range [of "sint b" "sint a"] sint_bounds [of a] sint_bounds [of b]
    by (simp_all add: sint_in_range)
qed

text \<open>
  C15. Division as the manual defines it, on every input, signed and unsigned: division by zero gives
  all ones and leaves the dividend as remainder; otherwise quotient times divisor plus remainder is
  the dividend, the signed overflow gives the dividend and remainder zero, and apart from it the
  signed quotient is the exact one rounded toward zero, with the remainder's sign the dividend's.
\<close>

theorem division_law:
  "if b = 0
   then m_value Div a b = -1 \<and> m_value Rem a b = a \<and> m_value Divu a b = -1 \<and> m_value Remu a b = a
   else m_value Div a b * b + m_value Rem a b = a \<and> m_value Divu a b * b + m_value Remu a b = a \<and>
     uint (m_value Divu a b) = uint a div uint b \<and> uint (m_value Remu a b) = uint a mod uint b \<and>
     (if sint a = - (2 ^ 63) \<and> sint b = -1 then m_value Div a b = a \<and> m_value Rem a b = 0
      else sint (m_value Div a b) = sint a sdiv sint b \<and> sint (m_value Rem a b) = sint a smod sint b)"
proof (cases "b = 0")
  case False
  have "m_value Div a b * b + m_value Rem a b = a"
  proof (cases "a = i64_MIN \<and> b = -1")
    case True
    then show ?thesis by (simp add: i64_MIN_def)
  next
    case False
    then have "m_value Div a b = word_of_int (sint a sdiv sint b)"
      "m_value Rem a b = word_of_int (sint a smod sint b)"
      using \<open>b \<noteq> 0\<close> by auto
    then show ?thesis by (simp only: signed_quotient_law)
  qed
  moreover have "m_value Divu a b * b + m_value Remu a b = a"
    using False by (simp only: m_value.simps if_False unsigned_quotient_law)
  moreover have "uint (m_value Divu a b) = uint a div uint b" "uint (m_value Remu a b) = uint a mod uint b"
    using False by (simp_all add: uint_div uint_mod)
  moreover have "a = i64_MIN \<and> b = - 1 \<Longrightarrow> m_value Div a b = a \<and> m_value Rem a b = 0"
    by simp
  ultimately show ?thesis
    using False signed_quotient [OF False, of a] unfolding min_word
    by (simp only: if_False if_True simp_thms split: if_split) blast
qed simp

end
