(* ===== verification/ExecMem.thy ===== *)
theory ExecMem
  imports Alu
begin

text \<open>
  The memory half of \<open>src/cpu/execute.rs\<close>: translated loads and stores (\<open>mmu_load\<close>, \<open>mmu_store\<close>),
  the load and store instructions, the floating-point ones included, LR/SC and the atomic memory
  operations.  An arm of \<open>execute\<close> returns the hart and \<open>next_pc\<close>; a trap returns the \<open>pc\<close> that
  \<open>deliver_trap\<close> set.
\<close>

type_synonym trap_info = "u64 \<times> u64"
type_synonym arm = "(cpu \<times> u64) option"

text \<open>\<open>cpu.deliver_trap(c, t); next_pc = cpu.pc;\<close>\<close>

definition trap :: "cpu \<Rightarrow> u64 \<Rightarrow> u64 \<Rightarrow> arm" where
  "trap c cause tval = (let c = deliver_trap c cause tval in Some (c, pc c))"

text \<open>The mode that loads and stores are translated in (MPRV).\<close>

definition ls_mode :: "cpu \<Rightarrow> priv_mode" where
  "ls_mode c =
    (if shr (mstatus (csr c)) 17 AND 1 = 1
     then let mpp = shr (mstatus (csr c)) 11 AND 3
          in if mpp = 0 then PrivMode_U else if mpp = 1 then PrivMode_S else PrivMode_M
     else mode c)"

definition Cpu_translate ::
  "cpu \<Rightarrow> priv_mode \<Rightarrow> u64 \<Rightarrow> access_type \<Rightarrow> (cpu \<times> (trap_info + u64)) option" where
  "Cpu_translate c md va access = do {
     ((m, b), r) \<leftarrow> Mmu_translate (mmu c) (bus c) (satp (csr c)) md (mstatus (csr c)) va access;
     let c = c\<lparr>mmu := m, bus := b\<rparr>;
     Some (c, case r of Inl (MmuFault cause tval) \<Rightarrow> Inl (cause, tval) | Inr pa \<Rightarrow> Inr pa)
   }"

definition Cpu_load :: "cpu \<Rightarrow> u64 \<Rightarrow> nat \<Rightarrow> (cpu \<times> (bus_fault + u64)) option" where
  "Cpu_load c pa width = do {
     (b, r) \<leftarrow> Bus_load (bus c) pa width;
     Some (c\<lparr>bus := b\<rparr>, r)
   }"

definition Cpu_store :: "cpu \<Rightarrow> u64 \<Rightarrow> nat \<Rightarrow> u64 \<Rightarrow> (cpu \<times> (bus_fault + unit)) option" where
  "Cpu_store c pa width val = do {
     (b, r) \<leftarrow> Bus_store (bus c) pa width val;
     Some (c\<lparr>bus := b\<rparr>, r)
   }"

text \<open>
  The loop over the bytes of one page of a split access: \<open>n\<close> bytes from the \<open>i\<close>-th, which are the
  bytes \<open>k + i\<close> and up of the value.
\<close>

fun load_bytes ::
  "nat \<Rightarrow> cpu \<Rightarrow> u64 \<Rightarrow> u64 \<Rightarrow> nat \<Rightarrow> nat \<Rightarrow> u64 \<Rightarrow> (cpu \<times> (trap_info + u64)) option" where
  "load_bytes 0 c pa va k i v = Some (c, Inr v)"
| "load_bytes (Suc n) c pa va k i v = do {
     (c, r) \<leftarrow> Cpu_load c (pa + of_nat i) 1;
     case r of
       Inl _ \<Rightarrow> Some (c, Inl (5, va + of_nat i))
     | Inr b \<Rightarrow> load_bytes n c pa va k (i + 1) (v OR shl (b AND 0xff) ((k + i) * 8))
   }"

fun store_bytes ::
  "nat \<Rightarrow> cpu \<Rightarrow> u64 \<Rightarrow> u64 \<Rightarrow> nat \<Rightarrow> nat \<Rightarrow> u64 \<Rightarrow> (cpu \<times> (trap_info + unit)) option" where
  "store_bytes 0 c pa va k i val = Some (c, Inr ())"
| "store_bytes (Suc n) c pa va k i val = do {
     let b = shr val ((k + i) * 8) AND 0xff;
     (c, r) \<leftarrow> Cpu_store c (pa + of_nat i) 1 b;
     case r of
       Inl _ \<Rightarrow> Some (c, Inl (7, va + of_nat i))
     | Inr _ \<Rightarrow> store_bytes n c pa va k (i + 1) val
   }"

definition page_off :: "u64 \<Rightarrow> nat" where
  "page_off va = unat (va AND 0xFFF)"

definition next_page :: "u64 \<Rightarrow> u64" where
  "next_page va = (va AND NOT 0xFFF) + 0x1000"

definition mmu_load :: "cpu \<Rightarrow> priv_mode \<Rightarrow> u64 \<Rightarrow> nat \<Rightarrow> (cpu \<times> (trap_info + u64)) option" where
  "mmu_load c md va width =
    (if page_off va + width \<le> 0x1000 then do {
       (c, t) \<leftarrow> Cpu_translate c md va AccessType_Load;
       case t of
         Inl f \<Rightarrow> Some (c, Inl f)
       | Inr pa \<Rightarrow> do {
           (c, r) \<leftarrow> Cpu_load c pa width;
           Some (c, case r of Inl _ \<Rightarrow> Inl (5, va) | Inr v \<Rightarrow> Inr v)
         }
     } else do {
       let first = 0x1000 - page_off va;
       let va2 = next_page va;
       (c, t) \<leftarrow> Cpu_translate c md va AccessType_Load;
       case t of
         Inl f \<Rightarrow> Some (c, Inl f)
       | Inr pa1 \<Rightarrow> do {
           (c, t) \<leftarrow> Cpu_translate c md va2 AccessType_Load;
           case t of
             Inl f \<Rightarrow> Some (c, Inl f)
           | Inr pa2 \<Rightarrow> do {
               (c, r) \<leftarrow> load_bytes first c pa1 va 0 0 0;
               case r of
                 Inl f \<Rightarrow> Some (c, Inl f)
               | Inr v \<Rightarrow> load_bytes (width - first) c pa2 va2 first 0 v
             }
         }
     })"

definition mmu_store :: "cpu \<Rightarrow> priv_mode \<Rightarrow> u64 \<Rightarrow> nat \<Rightarrow> u64 \<Rightarrow> (cpu \<times> (trap_info + unit)) option" where
  "mmu_store c md va width val =
    (if page_off va + width \<le> 0x1000 then do {
       (c, t) \<leftarrow> Cpu_translate c md va AccessType_Store;
       case t of
         Inl f \<Rightarrow> Some (c, Inl f)
       | Inr pa \<Rightarrow> do {
           (c, r) \<leftarrow> Cpu_store c pa width val;
           Some (c, case r of Inl _ \<Rightarrow> Inl (7, va) | Inr u \<Rightarrow> Inr u)
         }
     } else do {
       let first = 0x1000 - page_off va;
       let va2 = next_page va;
       (c, t) \<leftarrow> Cpu_translate c md va AccessType_Store;
       case t of
         Inl f \<Rightarrow> Some (c, Inl f)
       | Inr pa1 \<Rightarrow> do {
           (c, t) \<leftarrow> Cpu_translate c md va2 AccessType_Store;
           case t of
             Inl f \<Rightarrow> Some (c, Inl f)
           | Inr pa2 \<Rightarrow> do {
               (c, r) \<leftarrow> store_bytes first c pa1 va 0 0 val;
               case r of
                 Inl f \<Rightarrow> Some (c, Inl f)
               | Inr _ \<Rightarrow> store_bytes (width - first) c pa2 va2 first 0 val
             }
         }
     })"

section \<open>Loads and stores\<close>

fun load_width :: "load_op \<Rightarrow> nat" where
  "load_width Lb = 1" | "load_width Lh = 2" | "load_width Lw = 4" | "load_width Ld = 8"
| "load_width Lbu = 1" | "load_width Lhu = 2" | "load_width Lwu = 4"

fun load_value :: "load_op \<Rightarrow> u64 \<Rightarrow> u64" where
  "load_value Lb v = sext v 7" | "load_value Lh v = sext v 15" | "load_value Lw v = sext v 31"
| "load_value _ v = v"

definition exec_load :: "cpu \<Rightarrow> u64 \<Rightarrow> load_op \<Rightarrow> nat \<Rightarrow> nat \<Rightarrow> i64 \<Rightarrow> arm" where
  "exec_load c next_pc op rd rs1 imm = do {
     a \<leftarrow> reg c rs1;
     let va = a + imm;
     (c, r) \<leftarrow> mmu_load c (ls_mode c) va (load_width op);
     case r of
       Inl (cause, tval) \<Rightarrow> trap c cause tval
     | Inr v \<Rightarrow> do { c \<leftarrow> set_reg c rd (load_value op v); Some (c, next_pc) }
   }"

fun store_width :: "store_op \<Rightarrow> nat" where
  "store_width Sb = 1" | "store_width Sh = 2" | "store_width Sw = 4" | "store_width Sd = 8"

definition exec_store :: "cpu \<Rightarrow> u64 \<Rightarrow> store_op \<Rightarrow> nat \<Rightarrow> nat \<Rightarrow> i64 \<Rightarrow> arm" where
  "exec_store c next_pc op rs1 rs2 imm = do {
     a \<leftarrow> reg c rs1;
     let va = a + imm;
     v \<leftarrow> reg c rs2;
     (c, r) \<leftarrow> mmu_store c (ls_mode c) va (store_width op) v;
     case r of Inl (cause, tval) \<Rightarrow> trap c cause tval | Inr _ \<Rightarrow> Some (c, next_pc)
   }"

text \<open>The floating-point registers; \<open>mstatus.FS\<close> becomes dirty when one is written.\<close>

definition freg :: "cpu \<Rightarrow> nat \<Rightarrow> u64 option" where
  "freg c n = (if n < 32 then Some (fregs c ! n) else None)"

definition set_freg :: "cpu \<Rightarrow> nat \<Rightarrow> u64 \<Rightarrow> cpu option" where
  "set_freg c n v = (if n < 32 then Some (c\<lparr>fregs := (fregs c)[n := v]\<rparr>) else None)"

definition fs_dirty :: "cpu \<Rightarrow> cpu" where
  "fs_dirty c = c\<lparr>csr := (csr c)\<lparr>mstatus := mstatus (csr c) OR 0x6000\<rparr>\<rparr>"

definition exec_flw :: "cpu \<Rightarrow> u64 \<Rightarrow> nat \<Rightarrow> nat \<Rightarrow> i64 \<Rightarrow> arm" where
  "exec_flw c next_pc fd rs1 imm = do {
     a \<leftarrow> reg c rs1;
     let va = a + imm;
     (c, r) \<leftarrow> mmu_load c (ls_mode c) va 4;
     case r of
       Inl (cause, tval) \<Rightarrow> trap c cause tval
     | Inr v \<Rightarrow> do {
         c \<leftarrow> set_freg c fd (0xFFFFFFFF00000000 OR (v AND 0xFFFFFFFF));
         Some (fs_dirty c, next_pc)
       }
   }"

definition exec_fld :: "cpu \<Rightarrow> u64 \<Rightarrow> nat \<Rightarrow> nat \<Rightarrow> i64 \<Rightarrow> arm" where
  "exec_fld c next_pc fd rs1 imm = do {
     a \<leftarrow> reg c rs1;
     let va = a + imm;
     (c, r) \<leftarrow> mmu_load c (ls_mode c) va 8;
     case r of
       Inl (cause, tval) \<Rightarrow> trap c cause tval
     | Inr v \<Rightarrow> do { c \<leftarrow> set_freg c fd v; Some (fs_dirty c, next_pc) }
   }"

definition exec_fstore :: "cpu \<Rightarrow> u64 \<Rightarrow> nat \<Rightarrow> nat \<Rightarrow> nat \<Rightarrow> i64 \<Rightarrow> arm" where
  "exec_fstore c next_pc width rs1 fs2 imm = do {
     a \<leftarrow> reg c rs1;
     let va = a + imm;
     v \<leftarrow> freg c fs2;
     (c, r) \<leftarrow> mmu_store c (ls_mode c) va width v;
     case r of Inl (cause, tval) \<Rightarrow> trap c cause tval | Inr _ \<Rightarrow> Some (c, next_pc)
   }"

section \<open>Atomics\<close>

text \<open>
  LR and SC of \<open>width\<close> 8 or 4: the two arms of each differ in the width and in the sign extension of
  a loaded word.
\<close>

definition atomic_value :: "nat \<Rightarrow> u64 \<Rightarrow> u64" where
  "atomic_value width v = (if width = 4 then sext v 31 else v)"

definition exec_lr :: "cpu \<Rightarrow> u64 \<Rightarrow> nat \<Rightarrow> nat \<Rightarrow> nat \<Rightarrow> arm" where
  "exec_lr c next_pc width rd rs1 = do {
     va \<leftarrow> reg c rs1;
     (c, t) \<leftarrow> Cpu_translate c (ls_mode c) va AccessType_Load;
     case t of
       Inl (cause, tval) \<Rightarrow> trap c cause tval
     | Inr pa \<Rightarrow> do {
         (c, r) \<leftarrow> Cpu_load c pa width;
         case r of
           Inl _ \<Rightarrow> trap c 5 va
         | Inr v \<Rightarrow> do {
             c \<leftarrow> set_reg c rd (atomic_value width v);
             Some (c\<lparr>reservation := Some pa\<rparr>, next_pc)
           }
       }
   }"

definition exec_sc :: "cpu \<Rightarrow> u64 \<Rightarrow> nat \<Rightarrow> nat \<Rightarrow> nat \<Rightarrow> nat \<Rightarrow> arm" where
  "exec_sc c next_pc width rd rs1 rs2 = do {
     va \<leftarrow> reg c rs1;
     (c, t) \<leftarrow> Cpu_translate c (ls_mode c) va AccessType_Store;
     case t of
       Inl (cause, tval) \<Rightarrow> trap c cause tval
     | Inr pa \<Rightarrow> do {
         c \<leftarrow> (if reservation c = Some pa then do {
                 v \<leftarrow> reg c rs2;
                 (c, _) \<leftarrow> Cpu_store c pa width v;
                 set_reg c rd 0
               } else set_reg c rd 1);
         Some (c\<lparr>reservation := None\<rparr>, next_pc)
       }
   }"

fun amo_width :: "amo_op \<Rightarrow> nat" where
  "amo_width AmoswapW = 4" | "amo_width AmoaddW = 4" | "amo_width AmoxorW = 4"
| "amo_width AmoandW = 4" | "amo_width AmoorW = 4" | "amo_width AmominW = 4"
| "amo_width AmomaxW = 4" | "amo_width AmominuW = 4" | "amo_width AmomaxuW = 4"
| "amo_width _ = 8"

text \<open>The value stored, from the value loaded and the source register.\<close>

fun amo_value :: "amo_op \<Rightarrow> u64 \<Rightarrow> u64 \<Rightarrow> u64" where
  "amo_value AmoswapD old v = v"
| "amo_value AmoswapW old v = v"
| "amo_value AmoaddD old v = old + v"
| "amo_value AmoaddW old v = old + v"
| "amo_value AmoxorD old v = old XOR v"
| "amo_value AmoxorW old v = old XOR v"
| "amo_value AmoandD old v = old AND v"
| "amo_value AmoandW old v = old AND v"
| "amo_value AmoorD old v = old OR v"
| "amo_value AmoorW old v = old OR v"
| "amo_value AmominD old v = (if old <s v then old else v)"
| "amo_value AmominW old v = (if lo32 old <s lo32 v then old else sext v 31)"
| "amo_value AmomaxD old v = (if v <s old then old else v)"
| "amo_value AmomaxW old v = (if lo32 v <s lo32 old then old else sext v 31)"
| "amo_value AmominuD old v = min old v"
| "amo_value AmominuW old v = (if lo32 old < lo32 v then old else ucast (lo32 v))"
| "amo_value AmomaxuD old v = max old v"
| "amo_value AmomaxuW old v = (if lo32 v < lo32 old then old else ucast (lo32 v))"

definition exec_amo :: "cpu \<Rightarrow> u64 \<Rightarrow> amo_op \<Rightarrow> nat \<Rightarrow> nat \<Rightarrow> nat \<Rightarrow> arm" where
  "exec_amo c next_pc op rd rs1 rs2 = do {
     va \<leftarrow> reg c rs1;
     (c, t) \<leftarrow> Cpu_translate c (ls_mode c) va AccessType_Store;
     case t of
       Inl (cause, tval) \<Rightarrow> trap c cause tval
     | Inr pa \<Rightarrow> do {
         (c, r) \<leftarrow> Cpu_load c pa (amo_width op);
         let old = atomic_value (amo_width op) (case r of Inl _ \<Rightarrow> 0 | Inr v \<Rightarrow> v);
         v \<leftarrow> reg c rs2;
         (c, _) \<leftarrow> Cpu_store c pa (amo_width op) (amo_value op old v);
         c \<leftarrow> set_reg c rd old;
         Some (c, next_pc)
       }
   }"

section \<open>Running an arm\<close>

text \<open>
  How a piece of execution can end: it returns a well-formed hart, a value with \<open>Q\<close> and a bus reached
  by accesses, or it does not return, and then a store to the block device's notify register, in a
  state of the bus reached on the way, did not.
\<close>

definition runs :: "('a \<Rightarrow> bool) \<Rightarrow> bus \<Rightarrow> (cpu \<times> 'a) option \<Rightarrow> bool" where
  "runs Q b r \<longleftrightarrow> (case r of
     Some (c, x) \<Rightarrow> cpu_wf c \<and> Q x \<and> bus_reaches b (bus c)
   | None \<Rightarrow> \<exists>b' n v. bus_reaches b b' \<and> n \<in> {1, 2, 4, 8} \<and> Bus_store b' NOTIFY_REG n v = None)"

named_theorems runs_rules \<open>rules for \<open>runs\<close>, one per operation\<close>

lemma runs_Some [simp]: "runs Q b (Some (c, x)) \<longleftrightarrow> cpu_wf c \<and> Q x \<and> bus_reaches b (bus c)"
  by (simp add: runs_def)

lemma runs_bind:
  assumes r: "runs Q b r"
    and f: "\<And>c x. r = Some (c, x) \<Longrightarrow> cpu_wf c \<Longrightarrow> Q x \<Longrightarrow> runs Q' (bus c) (f (c, x))"
  shows "runs Q' b (Option.bind r f)"
proof (cases r)
  case None
  then show ?thesis using r by (simp add: runs_def)
next
  case (Some cx)
  obtain c x where cx: "cx = (c, x)" by fastforce
  then have c: "cpu_wf c" "Q x" "bus_reaches b (bus c)"
    using r Some by (simp_all add: runs_def)
  have "runs Q' (bus c) (f (c, x))"
    using f Some cx c by blast
  then show ?thesis
    using Some cx bus_reaches_trans [OF c(3)]
    by (cases "f (c, x)") (auto simp: runs_def)
qed

lemma runs_reg: "n < 32 \<Longrightarrow> (\<And>v. runs Q b (f v)) \<Longrightarrow> runs Q b (Option.bind (reg c n) f)"
  by (simp add: reg_def)

lemma runs_freg: "n < 32 \<Longrightarrow> (\<And>v. runs Q b (f v)) \<Longrightarrow> runs Q b (Option.bind (freg c n) f)"
  by (simp add: freg_def)

lemma set_reg_wf:
  assumes "cpu_wf c" "n < 32"
  obtains c' where "set_reg c n v = Some c'" "cpu_wf c'" "bus c' = bus c" "csr c' = csr c" "pc c' = pc c"
    "mode c' = mode c" "mmu c' = mmu c" "fregs c' = fregs c" "reservation c' = reservation c"
  using assms that [of "if n \<noteq> 0 then c\<lparr>regs := (regs c)[n := v]\<rparr> else c"]
  by (simp add: set_reg_def cpu_wf_def split: if_splits)

lemma runs_set_reg:
  assumes "cpu_wf c" "n < 32"
    and "\<And>c'. cpu_wf c' \<Longrightarrow> bus c' = bus c \<Longrightarrow> runs Q (bus c) (f c')"
  shows "runs Q (bus c) (Option.bind (set_reg c n v) f)"
  using set_reg_wf [OF assms(1,2), of v] assms(3) by (metis Option.bind.simps(2))

lemma runs_set_freg:
  assumes "cpu_wf c" "n < 32"
    and "\<And>c'. cpu_wf c' \<Longrightarrow> bus c' = bus c \<Longrightarrow> runs Q (bus c) (f c')"
  shows "runs Q (bus c) (Option.bind (set_freg c n v) f)"
  using assms by (simp add: set_freg_def cpu_wf_def)

lemma cpu_wf_fs_dirty [wf_intros]: "cpu_wf c \<Longrightarrow> cpu_wf (fs_dirty c)"
  by (simp add: cpu_wf_def fs_dirty_def csr_wf_bits bit_simps)

lemma fs_dirty_frame [cpu_frame]: "bus (fs_dirty c) = bus c" "regs (fs_dirty c) = regs c" "pc (fs_dirty c) = pc c"
  by (simp_all add: fs_dirty_def)

text \<open>\<open>pc\<close> values are even.\<close>

definition even_pc :: "u64 \<Rightarrow> bool" where
  "even_pc a \<longleftrightarrow> \<not> bit a 0"

lemma runs_trap: "cpu_wf c \<Longrightarrow> runs even_pc (bus c) (trap c cause tval)"
  using cpu_wf_deliver_trap [of c cause tval]
  by (simp add: trap_def Let_def deliver_trap_frame even_pc_def) (simp add: cpu_wf_def)

lemma runs_translate: "cpu_wf c \<Longrightarrow> runs (\<lambda>_. True) (bus c) (Cpu_translate c md va access)"
  using translate_keeps [of "mmu c" "bus c" "satp (csr c)" md "mstatus (csr c)" va access]
    bus_reaches_same [of "bus c"]
  by (fastforce simp: Cpu_translate_def runs_def cpu_wf_def)

lemma runs_load:
  "cpu_wf c \<Longrightarrow> n \<in> {1, 2, 4, 8} \<Longrightarrow> runs (\<lambda>_. True) (bus c) (Cpu_load c pa n)"
  using Bus_load_total [of "bus c" n pa] bus_reaches_one(1) [of "bus c" pa n]
  by (fastforce simp: Cpu_load_def runs_def cpu_wf_def)

lemma runs_store:
  assumes "cpu_wf c" "n \<in> {1, 2, 4, 8}"
  shows "runs (\<lambda>_. True) (bus c) (Cpu_store c pa n v)"
proof (cases "Bus_store (bus c) pa n v")
  case None
  then have "pa = NOTIFY_REG"
    using Bus_store_total [of "bus c" n pa v] assms by (auto simp: cpu_wf_def NOTIFY_REG_def)
  then show ?thesis
    using None assms(2) by (auto simp: Cpu_store_def runs_def)
next
  case (Some x)
  obtain b w where x: "x = (b, w)" by fastforce
  then have "bus_reaches (bus c) b"
    using Some bus_reaches_one(2) [of "bus c" pa n v] assms(2) by blast
  then show ?thesis
    using Some x assms(1) bus_reaches_same [of "bus c" b]
    by (simp add: Cpu_store_def runs_def cpu_wf_def)
qed

lemma runs_load_bytes: "cpu_wf c \<Longrightarrow> runs (\<lambda>_. True) (bus c) (load_bytes n c pa va k i v)"
proof (induction n arbitrary: c i v)
  case (Suc n)
  show ?case
    unfolding load_bytes.simps
    by (rule runs_bind [OF runs_load [OF Suc.prems]])
      (auto split: sum.split intro: Suc.IH)
qed simp

lemma runs_store_bytes: "cpu_wf c \<Longrightarrow> runs (\<lambda>_. True) (bus c) (store_bytes n c pa va k i v)"
proof (induction n arbitrary: c i)
  case (Suc n)
  show ?case
    unfolding store_bytes.simps Let_def
    by (rule runs_bind [OF runs_store [OF Suc.prems]])
      (auto split: sum.split intro: Suc.IH)
qed simp

lemma runs_mmu_load:
  assumes "cpu_wf c" "n \<in> {1, 2, 4, 8}"
  shows "runs (\<lambda>_. True) (bus c) (mmu_load c md va n)"
  unfolding mmu_load_def Let_def
  by (auto split: sum.split intro!: runs_bind [OF runs_translate] runs_bind [OF runs_load [OF _ assms(2)]]
      runs_bind [OF runs_load_bytes] runs_load_bytes simp: assms(1))

lemma runs_mmu_store:
  assumes "cpu_wf c" "n \<in> {1, 2, 4, 8}"
  shows "runs (\<lambda>_. True) (bus c) (mmu_store c md va n v)"
  unfolding mmu_store_def Let_def
  by (auto split: sum.split intro!: runs_bind [OF runs_translate] runs_bind [OF runs_store [OF _ assms(2)]]
      runs_bind [OF runs_store_bytes] runs_store_bytes simp: assms(1))

section \<open>The memory instructions run\<close>

lemma load_width_ok: "load_width op \<in> {1, 2, 4, 8}" by (cases op) simp_all

lemma store_width_ok: "store_width op \<in> {1, 2, 4, 8}" by (cases op) simp_all

lemma amo_width_ok: "amo_width op \<in> {1, 2, 4, 8}" by (cases op) simp_all

lemma runs_exec_load [runs_rules]:
  assumes "cpu_wf c" "even_pc next_pc" "rd < 32" "rs1 < 32"
  shows "runs even_pc (bus c) (exec_load c next_pc op rd rs1 imm)"
  unfolding exec_load_def Let_def
  by (rule runs_reg [OF assms(4)], rule runs_bind [OF runs_mmu_load [OF assms(1) load_width_ok]])
    (auto split: sum.split intro!: runs_trap runs_set_reg simp: assms)

lemma runs_exec_store [runs_rules]:
  assumes "cpu_wf c" "even_pc next_pc" "rs1 < 32" "rs2 < 32"
  shows "runs even_pc (bus c) (exec_store c next_pc op rs1 rs2 imm)"
  unfolding exec_store_def Let_def
  by (rule runs_reg [OF assms(3)], rule runs_reg [OF assms(4)],
      rule runs_bind [OF runs_mmu_store [OF assms(1) store_width_ok]])
    (auto split: sum.split intro!: runs_trap simp: assms)

lemma runs_exec_flw [runs_rules]:
  assumes "cpu_wf c" "even_pc next_pc" "fd < 32" "rs1 < 32"
  shows "runs even_pc (bus c) (exec_flw c next_pc fd rs1 imm)"
  unfolding exec_flw_def Let_def
  by (rule runs_reg [OF assms(4)], rule runs_bind [OF runs_mmu_load [OF assms(1)]])
    (auto split: sum.split intro!: runs_trap runs_set_freg cpu_wf_fs_dirty
      simp: assms fs_dirty_frame)

lemma runs_exec_fld [runs_rules]:
  assumes "cpu_wf c" "even_pc next_pc" "fd < 32" "rs1 < 32"
  shows "runs even_pc (bus c) (exec_fld c next_pc fd rs1 imm)"
  unfolding exec_fld_def Let_def
  by (rule runs_reg [OF assms(4)], rule runs_bind [OF runs_mmu_load [OF assms(1)]])
    (auto split: sum.split intro!: runs_trap runs_set_freg cpu_wf_fs_dirty
      simp: assms fs_dirty_frame)

lemma runs_exec_fstore [runs_rules]:
  assumes "cpu_wf c" "even_pc next_pc" "n \<in> {1, 2, 4, 8}" "rs1 < 32" "fs2 < 32"
  shows "runs even_pc (bus c) (exec_fstore c next_pc n rs1 fs2 imm)"
  unfolding exec_fstore_def Let_def
  by (rule runs_reg [OF assms(4)], rule runs_freg [OF assms(5)],
      rule runs_bind [OF runs_mmu_store [OF assms(1,3)]])
    (auto split: sum.split intro!: runs_trap simp: assms)

lemma cpu_wf_reservation: "cpu_wf (c\<lparr>reservation := r\<rparr>) = cpu_wf c"
  by (simp add: cpu_wf_def)

lemma runs_exec_lr [runs_rules]:
  assumes "cpu_wf c" "even_pc next_pc" "n \<in> {1, 2, 4, 8}" "rd < 32" "rs1 < 32"
  shows "runs even_pc (bus c) (exec_lr c next_pc n rd rs1)"
  unfolding exec_lr_def Let_def
  by (rule runs_reg [OF assms(5)], rule runs_bind [OF runs_translate [OF assms(1)]])
    (auto split: sum.split intro!: runs_trap runs_bind [OF runs_load [OF _ assms(3)]] runs_set_reg
      simp: assms cpu_wf_reservation)

lemma runs_exec_amo [runs_rules]:
  assumes "cpu_wf c" "even_pc next_pc" "rd < 32" "rs1 < 32" "rs2 < 32"
  shows "runs even_pc (bus c) (exec_amo c next_pc op rd rs1 rs2)"
  unfolding exec_amo_def Let_def
  by (rule runs_reg [OF assms(4)], rule runs_bind [OF runs_translate [OF assms(1)]])
    (auto split: sum.split intro!: runs_trap runs_bind [OF runs_load [OF _ amo_width_ok]] runs_reg
      runs_bind [OF runs_store [OF _ amo_width_ok]] runs_set_reg simp: assms)

lemma runs_exec_sc [runs_rules]:
  assumes "cpu_wf c" "even_pc next_pc" "n \<in> {1, 2, 4, 8}" "rd < 32" "rs1 < 32" "rs2 < 32"
  shows "runs even_pc (bus c) (exec_sc c next_pc n rd rs1 rs2)"
proof -
  have fin: "runs even_pc (bus c) (do { c \<leftarrow> set_reg c rd v; Some (c\<lparr>reservation := None\<rparr>, next_pc) })"
    if "cpu_wf c" for c v
    using that assms by (auto intro!: runs_set_reg simp: cpu_wf_reservation)
  have "runs even_pc (bus c) (do { c \<leftarrow> do { v \<leftarrow> reg c rs2; (c, u) \<leftarrow> Cpu_store c pa n v; set_reg c rd 0 };
      Some (c\<lparr>reservation := None\<rparr>, next_pc) })" if "cpu_wf c" for c pa
    using that assms by (auto intro!: runs_reg runs_bind [OF runs_store [OF _ assms(3)]] fin)
  then show ?thesis
    unfolding exec_sc_def
    by (auto split: sum.split intro!: runs_reg [OF assms(5)] runs_bind [OF runs_translate [OF assms(1)]]
        runs_trap fin)
qed

end
