(* ===== verification/ExecSys.thy ===== *)
theory ExecSys
  imports ExecMem
begin

text \<open>
  The register, control-flow, system and CSR arms of \<open>execute\<close> in \<open>src/cpu/execute.rs\<close>.  Each
  takes the hart and the \<open>next_pc\<close> of the prologue and returns both.
\<close>

definition exec_r :: "cpu \<Rightarrow> u64 \<Rightarrow> r_op \<Rightarrow> nat \<Rightarrow> nat \<Rightarrow> nat \<Rightarrow> arm" where
  "exec_r c next_pc op rd rs1 rs2 = do {
     a \<leftarrow> reg c rs1;
     b \<leftarrow> reg c rs2;
     c \<leftarrow> set_reg c rd (r_value op a b);
     Some (c, next_pc)
   }"

definition exec_m :: "cpu \<Rightarrow> u64 \<Rightarrow> m_op \<Rightarrow> nat \<Rightarrow> nat \<Rightarrow> nat \<Rightarrow> arm" where
  "exec_m c next_pc op rd rs1 rs2 = do {
     a \<leftarrow> reg c rs1;
     b \<leftarrow> reg c rs2;
     c \<leftarrow> set_reg c rd (m_value op a b);
     Some (c, next_pc)
   }"

definition exec_i :: "cpu \<Rightarrow> u64 \<Rightarrow> i_op \<Rightarrow> nat \<Rightarrow> nat \<Rightarrow> i64 \<Rightarrow> arm" where
  "exec_i c next_pc op rd rs1 imm = do {
     a \<leftarrow> reg c rs1;
     c \<leftarrow> set_reg c rd (i_value op a imm);
     Some (c, next_pc)
   }"

definition exec_shift :: "cpu \<Rightarrow> u64 \<Rightarrow> shift_op \<Rightarrow> nat \<Rightarrow> nat \<Rightarrow> nat \<Rightarrow> arm" where
  "exec_shift c next_pc op rd rs1 shamt = do {
     a \<leftarrow> reg c rs1;
     c \<leftarrow> set_reg c rd (shift_value op a shamt);
     Some (c, next_pc)
   }"

definition exec_branch :: "cpu \<Rightarrow> u64 \<Rightarrow> branch_op \<Rightarrow> nat \<Rightarrow> nat \<Rightarrow> i64 \<Rightarrow> arm" where
  "exec_branch c next_pc op rs1 rs2 imm = do {
     a \<leftarrow> reg c rs1;
     b \<leftarrow> reg c rs2;
     if branch_taken op a b then
       let t = pc c + imm
       in if t AND 0x1 \<noteq> 0 then trap c 0 t else Some (c, t)
     else Some (c, next_pc)
   }"

definition exec_jal :: "cpu \<Rightarrow> u64 \<Rightarrow> nat \<Rightarrow> i64 \<Rightarrow> arm" where
  "exec_jal c next_pc rd imm =
    (let target = pc c + imm in
     if target AND 0x1 \<noteq> 0 then trap c 0 target
     else do { c \<leftarrow> set_reg c rd next_pc; Some (c, target) })"

definition exec_jalr :: "cpu \<Rightarrow> u64 \<Rightarrow> nat \<Rightarrow> nat \<Rightarrow> i64 \<Rightarrow> arm" where
  "exec_jalr c next_pc rd rs1 imm = do {
     a \<leftarrow> reg c rs1;
     let target = (a + imm) AND NOT 1;
     if target AND 0x1 \<noteq> 0 then trap c 0 target
     else do { c \<leftarrow> set_reg c rd next_pc; Some (c, target) }
   }"

definition exec_lui :: "cpu \<Rightarrow> u64 \<Rightarrow> nat \<Rightarrow> i64 \<Rightarrow> arm" where
  "exec_lui c next_pc rd imm = do { c \<leftarrow> set_reg c rd imm; Some (c, next_pc) }"

definition exec_auipc :: "cpu \<Rightarrow> u64 \<Rightarrow> nat \<Rightarrow> i64 \<Rightarrow> arm" where
  "exec_auipc c next_pc rd imm = do { c \<leftarrow> set_reg c rd (pc c + imm); Some (c, next_pc) }"

section \<open>System instructions\<close>

definition exec_ecall :: "cpu \<Rightarrow> arm" where
  "exec_ecall c =
    (let cause = (case mode c of PrivMode_U \<Rightarrow> 8 | PrivMode_S \<Rightarrow> 9 | PrivMode_M \<Rightarrow> 11)
     in trap c cause 0)"

definition exec_ebreak :: "cpu \<Rightarrow> arm" where
  "exec_ebreak c = trap c 3 (pc c)"

definition exec_mret :: "cpu \<Rightarrow> arm" where
  "exec_mret c =
    (let mpp = shr (mstatus (csr c)) 11 AND 3;
         c = c\<lparr>mode := (if mpp = 0 then PrivMode_U else if mpp = 1 then PrivMode_S else PrivMode_M)\<rparr>;
         s = Csr_mret (csr c);
         s = (if mpp \<noteq> 3 then s\<lparr>mstatus := mstatus s AND NOT (shl 1 17)\<rparr> else s);
         c = c\<lparr>csr := s\<rparr>
     in Some (c, mepc (csr c)))"

definition exec_sret :: "cpu \<Rightarrow> arm" where
  "exec_sret c =
    (if mode c = PrivMode_S \<and> shr (mstatus (csr c)) 22 AND 1 \<noteq> 0 then trap c 2 0x10200073
     else
       let spp = shr (mstatus (csr c)) 8 AND 1;
           c = c\<lparr>mode := (if spp = 1 then PrivMode_S else PrivMode_U)\<rparr>;
           s = (csr c)\<lparr>mstatus := mstatus (csr c) AND NOT (shl 1 17)\<rparr>;
           s = Csr_s_ret s;
           c = c\<lparr>csr := s\<rparr>
       in Some (c, sepc (csr c)))"

definition exec_sfence_vma :: "cpu \<Rightarrow> u64 \<Rightarrow> arm" where
  "exec_sfence_vma c next_pc =
    (if mode c = PrivMode_S \<and> shr (mstatus (csr c)) 20 AND 1 \<noteq> 0 then trap c 2 0
     else Some (c\<lparr>mmu := Mmu_flush (mmu c)\<rparr>, next_pc))"

section \<open>CSR instructions\<close>

text \<open>The guard on \<open>satp\<close> (TVM) that the six arms start with.\<close>

definition tvm_traps :: "cpu \<Rightarrow> u16 \<Rightarrow> bool" where
  "tvm_traps c addr \<longleftrightarrow> addr = 0x180 \<and> mode c = PrivMode_S \<and> shr (mstatus (csr c)) 20 AND 1 \<noteq> 0"

text \<open>
  What the arms share after the operands are read: the write, if there is one, the destination
  register, and the request to flush translated code when the page-table root changed.
\<close>

definition csr_access :: "cpu \<Rightarrow> u64 \<Rightarrow> nat \<Rightarrow> u16 \<Rightarrow> u64 \<Rightarrow> u64 option \<Rightarrow> arm" where
  "csr_access c next_pc rd addr old new_val = do {
     let old_ppn = (if addr = 0x180 then satp (csr c) AND 0x0FFFFFFFFFFF else 0);
     let c = (case new_val of Some v \<Rightarrow> Cpu_csr_write c addr v | None \<Rightarrow> c);
     c \<leftarrow> set_reg c rd old;
     let c = (if addr = 0x180 \<and> new_val \<noteq> None \<and> satp (csr c) AND 0x0FFFFFFFFFFF \<noteq> old_ppn
              then c\<lparr>jit_invalidate := True\<rparr> else c);
     Some (c, next_pc)
   }"

fun exec_csr_r :: "cpu \<Rightarrow> u64 \<Rightarrow> csr_op \<Rightarrow> nat \<Rightarrow> nat \<Rightarrow> u16 \<Rightarrow> arm" where
  "exec_csr_r c next_pc Csrrw rd rs1 addr =
     (if tvm_traps c addr then trap c 2 0
      else do {
        new_val \<leftarrow> reg c rs1;
        let old = (if rd \<noteq> 0 then Cpu_csr_read c addr else 0);
        csr_access c next_pc rd addr old (Some new_val)
      })"
| "exec_csr_r c next_pc Csrrs rd rs1 addr =
     (if tvm_traps c addr then trap c 2 0
      else do {
        let old = Cpu_csr_read c addr;
        msk \<leftarrow> reg c rs1;
        csr_access c next_pc rd addr old (if rs1 \<noteq> 0 then Some (old OR msk) else None)
      })"
| "exec_csr_r c next_pc Csrrc rd rs1 addr =
     (if tvm_traps c addr then trap c 2 0
      else do {
        let old = Cpu_csr_read c addr;
        msk \<leftarrow> reg c rs1;
        csr_access c next_pc rd addr old (if rs1 \<noteq> 0 then Some (old AND NOT msk) else None)
      })"

fun exec_csr_i :: "cpu \<Rightarrow> u64 \<Rightarrow> csri_op \<Rightarrow> nat \<Rightarrow> u32 \<Rightarrow> u16 \<Rightarrow> arm" where
  "exec_csr_i c next_pc Csrrwi rd uimm addr =
     (if tvm_traps c addr then trap c 2 0
      else
        let old = (if rd \<noteq> 0 then Cpu_csr_read c addr else 0)
        in csr_access c next_pc rd addr old (Some (ucast uimm)))"
| "exec_csr_i c next_pc Csrrsi rd uimm addr =
     (if tvm_traps c addr then trap c 2 0
      else
        let old = Cpu_csr_read c addr
        in csr_access c next_pc rd addr old (if uimm \<noteq> 0 then Some (old OR ucast uimm) else None))"
| "exec_csr_i c next_pc Csrrci rd uimm addr =
     (if tvm_traps c addr then trap c 2 0
      else
        let old = Cpu_csr_read c addr
        in csr_access c next_pc rd addr old (if uimm \<noteq> 0 then Some (old AND NOT (ucast uimm)) else None))"

section \<open>The arms run\<close>

lemma even_and_1: "t AND 1 = (0 :: u64) \<longleftrightarrow> even_pc t"
  by (simp add: even_pc_def bit_0 and_one_eq mod_2_eq_odd)

lemma runs_exec_r [runs_rules]:
  "cpu_wf c \<Longrightarrow> even_pc next_pc \<Longrightarrow> rd < 32 \<Longrightarrow> rs1 < 32 \<Longrightarrow> rs2 < 32 \<Longrightarrow>
    runs even_pc (bus c) (exec_r c next_pc op rd rs1 rs2)"
  by (auto simp: exec_r_def intro!: runs_reg runs_set_reg)

lemma runs_exec_m [runs_rules]:
  "cpu_wf c \<Longrightarrow> even_pc next_pc \<Longrightarrow> rd < 32 \<Longrightarrow> rs1 < 32 \<Longrightarrow> rs2 < 32 \<Longrightarrow>
    runs even_pc (bus c) (exec_m c next_pc op rd rs1 rs2)"
  by (auto simp: exec_m_def intro!: runs_reg runs_set_reg)

lemma runs_exec_i [runs_rules]:
  "cpu_wf c \<Longrightarrow> even_pc next_pc \<Longrightarrow> rd < 32 \<Longrightarrow> rs1 < 32 \<Longrightarrow>
    runs even_pc (bus c) (exec_i c next_pc op rd rs1 imm)"
  by (auto simp: exec_i_def intro!: runs_reg runs_set_reg)

lemma runs_exec_shift [runs_rules]:
  "cpu_wf c \<Longrightarrow> even_pc next_pc \<Longrightarrow> rd < 32 \<Longrightarrow> rs1 < 32 \<Longrightarrow>
    runs even_pc (bus c) (exec_shift c next_pc op rd rs1 shamt)"
  by (auto simp: exec_shift_def intro!: runs_reg runs_set_reg)

lemma runs_exec_branch [runs_rules]:
  "cpu_wf c \<Longrightarrow> even_pc next_pc \<Longrightarrow> rs1 < 32 \<Longrightarrow> rs2 < 32 \<Longrightarrow>
    runs even_pc (bus c) (exec_branch c next_pc op rs1 rs2 imm)"
  by (auto simp: exec_branch_def Let_def even_and_1 simp del: branch_taken.simps
      intro!: runs_reg runs_trap)

lemma runs_exec_jal [runs_rules]:
  "cpu_wf c \<Longrightarrow> even_pc next_pc \<Longrightarrow> rd < 32 \<Longrightarrow> runs even_pc (bus c) (exec_jal c next_pc rd imm)"
  by (auto simp: exec_jal_def Let_def even_and_1 intro!: runs_set_reg runs_trap)

lemma runs_exec_jalr [runs_rules]:
  "cpu_wf c \<Longrightarrow> even_pc next_pc \<Longrightarrow> rd < 32 \<Longrightarrow> rs1 < 32 \<Longrightarrow>
    runs even_pc (bus c) (exec_jalr c next_pc rd rs1 imm)"
  by (auto simp: exec_jalr_def Let_def even_and_1 intro!: runs_reg runs_set_reg runs_trap)

lemma runs_exec_upper [runs_rules]:
  "cpu_wf c \<Longrightarrow> even_pc next_pc \<Longrightarrow> rd < 32 \<Longrightarrow> runs even_pc (bus c) (exec_lui c next_pc rd imm)"
  "cpu_wf c \<Longrightarrow> even_pc next_pc \<Longrightarrow> rd < 32 \<Longrightarrow> runs even_pc (bus c) (exec_auipc c next_pc rd imm)"
  by (auto simp: exec_lui_def exec_auipc_def intro!: runs_set_reg)

lemma runs_exec_traps [runs_rules]:
  "cpu_wf c \<Longrightarrow> runs even_pc (bus c) (exec_ecall c)"
  "cpu_wf c \<Longrightarrow> runs even_pc (bus c) (exec_ebreak c)"
  by (simp_all add: exec_ecall_def exec_ebreak_def Let_def runs_trap)

lemma runs_exec_mret [runs_rules]: "cpu_wf c \<Longrightarrow> runs even_pc (bus c) (exec_mret c)"
  using csr_wf_mret [of "csr c"]
  by (auto simp: exec_mret_def Let_def cpu_wf_def csr_wf_bits even_pc_def bit_simps)

lemma runs_exec_sret [runs_rules]:
  assumes "cpu_wf c"
  shows "runs even_pc (bus c) (exec_sret c)"
proof -
  have "csr_wf ((csr c)\<lparr>mstatus := mstatus (csr c) AND NOT (shl 1 17)\<rparr>)"
    using assms by (simp add: cpu_wf_def csr_wf_bits bit_simps)
  from csr_wf_s_ret [OF this] show ?thesis
    using assms runs_trap [OF assms]
    by (auto simp: exec_sret_def Let_def cpu_wf_def csr_wf_bits even_pc_def)
qed

lemma runs_exec_sfence [runs_rules]:
  "cpu_wf c \<Longrightarrow> even_pc next_pc \<Longrightarrow> runs even_pc (bus c) (exec_sfence_vma c next_pc)"
  using runs_trap [of c] by (auto simp: exec_sfence_vma_def cpu_wf_def mmu_wf_flush)

lemma runs_csr_access:
  assumes "cpu_wf c" "even_pc next_pc" "rd < 32"
  shows "runs even_pc (bus c) (csr_access c next_pc rd addr old new_val)"
proof -
  have w: "cpu_wf (Cpu_csr_write c addr v)" for v
    using assms(1) csr_write_wf by (simp add: Cpu_csr_write_def cpu_wf_def)
  have j: "cpu_wf (c\<lparr>jit_invalidate := True\<rparr>) = cpu_wf c" for c :: cpu
    by (simp add: cpu_wf_def)
  have b: "bus (Cpu_csr_write c addr v) = bus c" for v
    by (simp add: Cpu_csr_write_def)
  show ?thesis
  proof (cases new_val)
    case None
    then show ?thesis
      using assms by (auto simp: csr_access_def Let_def intro!: runs_set_reg)
  next
    case (Some v)
    have "runs even_pc (bus (Cpu_csr_write c addr v)) (csr_access c next_pc rd addr old new_val)"
      unfolding csr_access_def Let_def using assms w
      by (auto simp: Some j intro!: runs_set_reg)
    then show ?thesis by (simp only: b)
  qed
qed

lemma runs_exec_csr_r [runs_rules]:
  "cpu_wf c \<Longrightarrow> even_pc next_pc \<Longrightarrow> rd < 32 \<Longrightarrow> rs1 < 32 \<Longrightarrow>
    runs even_pc (bus c) (exec_csr_r c next_pc op rd rs1 addr)"
  by (cases op) (auto simp: Let_def intro!: runs_reg runs_csr_access runs_trap)

lemma runs_exec_csr_i [runs_rules]:
  "cpu_wf c \<Longrightarrow> even_pc next_pc \<Longrightarrow> rd < 32 \<Longrightarrow>
    runs even_pc (bus c) (exec_csr_i c next_pc op rd uimm addr)"
  by (cases op) (auto simp: Let_def intro!: runs_csr_access runs_trap)

end
