(* ===== verification/Float.thy ===== *)
theory Float
  imports Prelude
begin

text \<open>
  IEEE 754 arithmetic as Rust's \<open>f32\<close> and \<open>f64\<close> define it, which the floating-point arms of
  \<open>src/cpu/execute.rs\<close> use, and the helpers \<open>fmin_*\<close>, \<open>fmax_*\<close> and \<open>fclass_*\<close> of that file.  A
  float is its bits; the operations are exact on \<open>sign, mantissa, exponent\<close> and round once, to
  nearest with ties to even.  What Rust leaves open is the parameter \<open>host\<close>: the bits of the NaN an
  operation produces, and which zero \<open>min\<close> and \<open>max\<close> return for zeros of both signs.
\<close>

section \<open>Formats\<close>

text \<open>A format has \<open>eb\<close> exponent bits and \<open>mb\<close> fraction bits: (8, 23) and (11, 52).\<close>

datatype (plugins only: code) fp = FNaN | FInf bool | FFin bool nat int

definition bias :: "nat \<Rightarrow> nat" where
  "bias eb = 2 ^ (eb - 1) - 1"

text \<open>\<open>FFin s m e\<close> is \<open>(-1)^s * m * 2^e\<close>.\<close>

definition unpack :: "nat \<Rightarrow> nat \<Rightarrow> nat \<Rightarrow> fp" where
  "unpack eb mb n =
    (let s = odd (n div 2 ^ (eb + mb));
         e = n div 2 ^ mb mod 2 ^ eb;
         f = n mod 2 ^ mb
     in if e = 2 ^ eb - 1 then if f = 0 then FInf s else FNaN
        else if e = 0 then FFin s f (1 - int (bias eb) - int mb)
        else FFin s (f + 2 ^ mb) (int e - int (bias eb) - int mb))"

definition sign_bits :: "nat \<Rightarrow> nat \<Rightarrow> bool \<Rightarrow> nat" where
  "sign_bits eb mb s = (if s then 2 ^ (eb + mb) else 0)"

definition inf_bits :: "nat \<Rightarrow> nat \<Rightarrow> bool \<Rightarrow> nat" where
  "inf_bits eb mb s = sign_bits eb mb s + (2 ^ eb - 1) * 2 ^ mb"

fun bit_len :: "nat \<Rightarrow> nat" where
  "bit_len n = (if n = 0 then 0 else Suc (bit_len (n div 2)))"

declare bit_len.simps [simp del]

text \<open>
  Division by \<open>2^d\<close> to nearest, ties to even; \<open>sticky\<close> says that the exact value lies strictly
  between \<open>m\<close> and \<open>m + 1\<close>.
\<close>

definition round_shift :: "nat \<Rightarrow> nat \<Rightarrow> bool \<Rightarrow> nat" where
  "round_shift m d sticky =
    (let q = m div 2 ^ d; r = m mod 2 ^ d; half = 2 ^ (d - 1)
     in if r > half \<or> (r = half \<and> (sticky \<or> odd q)) then q + 1 else q)"

definition pack :: "nat \<Rightarrow> nat \<Rightarrow> bool \<Rightarrow> nat \<Rightarrow> int \<Rightarrow> bool \<Rightarrow> nat" where
  "pack eb mb s m e sticky =
    (let emin = 1 - int (bias eb) - int mb;
         q = max emin (e + int (bit_len m) - int (mb + 1));
         k = (if q \<le> e then m * 2 ^ nat (e - q) else round_shift m (nat (q - e)) sticky);
         (k, q) = (if k = 2 ^ (mb + 1) then (2 ^ mb, q + 1) else (k, q));
         biased = q + int (bias eb) + int mb
     in if k < 2 ^ mb then sign_bits eb mb s + k
        else if biased \<ge> 2 ^ eb - 1 then inf_bits eb mb s
        else sign_bits eb mb s + nat biased * 2 ^ mb + (k - 2 ^ mb))"

section \<open>Operations\<close>

text \<open>A signed integer times a power of two; the sign of an exact zero is given.\<close>

definition pack_int :: "nat \<Rightarrow> nat \<Rightarrow> bool \<Rightarrow> int \<Rightarrow> int \<Rightarrow> nat" where
  "pack_int eb mb zero_sign x e =
    (if x = 0 then sign_bits eb mb zero_sign else pack eb mb (x < 0) (nat \<bar>x\<bar>) e False)"

definition signed_m :: "bool \<Rightarrow> nat \<Rightarrow> int" where
  "signed_m s m = (if s then - int m else int m)"

fun fp_add :: "nat \<Rightarrow> nat \<Rightarrow> fp \<Rightarrow> fp \<Rightarrow> nat option" where
  "fp_add eb mb FNaN _ = None"
| "fp_add eb mb _ FNaN = None"
| "fp_add eb mb (FInf s) (FInf t) = (if s = t then Some (inf_bits eb mb s) else None)"
| "fp_add eb mb (FInf s) (FFin _ _ _) = Some (inf_bits eb mb s)"
| "fp_add eb mb (FFin _ _ _) (FInf t) = Some (inf_bits eb mb t)"
| "fp_add eb mb (FFin s m e) (FFin t n f) =
     (let g = min e f
      in Some (pack_int eb mb (s \<and> t)
        (signed_m s m * 2 ^ nat (e - g) + signed_m t n * 2 ^ nat (f - g)) g))"

fun fp_neg :: "fp \<Rightarrow> fp" where
  "fp_neg FNaN = FNaN"
| "fp_neg (FInf s) = FInf (\<not> s)"
| "fp_neg (FFin s m e) = FFin (\<not> s) m e"

definition fp_sub :: "nat \<Rightarrow> nat \<Rightarrow> fp \<Rightarrow> fp \<Rightarrow> nat option" where
  "fp_sub eb mb a b = fp_add eb mb a (fp_neg b)"

text \<open>The exact product, before rounding.\<close>

fun fp_times :: "fp \<Rightarrow> fp \<Rightarrow> fp" where
  "fp_times FNaN _ = FNaN"
| "fp_times _ FNaN = FNaN"
| "fp_times (FInf s) (FInf t) = FInf (s \<noteq> t)"
| "fp_times (FInf s) (FFin t n _) = (if n = 0 then FNaN else FInf (s \<noteq> t))"
| "fp_times (FFin s m _) (FInf t) = (if m = 0 then FNaN else FInf (s \<noteq> t))"
| "fp_times (FFin s m e) (FFin t n f) = FFin (s \<noteq> t) (m * n) (e + f)"

fun fp_round :: "nat \<Rightarrow> nat \<Rightarrow> fp \<Rightarrow> nat option" where
  "fp_round eb mb FNaN = None"
| "fp_round eb mb (FInf s) = Some (inf_bits eb mb s)"
| "fp_round eb mb (FFin s m e) = Some (pack eb mb s m e False)"

definition fp_mul :: "nat \<Rightarrow> nat \<Rightarrow> fp \<Rightarrow> fp \<Rightarrow> nat option" where
  "fp_mul eb mb a b = fp_round eb mb (fp_times a b)"

text \<open>\<open>mul_add\<close>: the exact product plus the addend, rounded once.\<close>

definition fp_mul_add :: "nat \<Rightarrow> nat \<Rightarrow> fp \<Rightarrow> fp \<Rightarrow> fp \<Rightarrow> nat option" where
  "fp_mul_add eb mb a b c = fp_add eb mb (fp_times a b) c"

fun fp_div :: "nat \<Rightarrow> nat \<Rightarrow> fp \<Rightarrow> fp \<Rightarrow> nat option" where
  "fp_div eb mb FNaN _ = None"
| "fp_div eb mb _ FNaN = None"
| "fp_div eb mb (FInf s) (FInf t) = None"
| "fp_div eb mb (FInf s) (FFin t _ _) = Some (inf_bits eb mb (s \<noteq> t))"
| "fp_div eb mb (FFin s _ _) (FInf t) = Some (sign_bits eb mb (s \<noteq> t))"
| "fp_div eb mb (FFin s m e) (FFin t n f) =
     (if n = 0 then if m = 0 then None else Some (inf_bits eb mb (s \<noteq> t))
      else
        let k = mb + 3 + bit_len n;
            x = m * 2 ^ k
        in Some (pack eb mb (s \<noteq> t) (x div n) (e - f - int k) (x mod n \<noteq> 0)))"

fun isqrt :: "nat \<Rightarrow> nat" where
  "isqrt n =
    (if n = 0 then 0
     else let r = 2 * isqrt (n div 4) in if (r + 1) * (r + 1) \<le> n then r + 1 else r)"

declare isqrt.simps [simp del]

fun fp_sqrt :: "nat \<Rightarrow> nat \<Rightarrow> fp \<Rightarrow> nat option" where
  "fp_sqrt eb mb FNaN = None"
| "fp_sqrt eb mb (FInf s) = (if s then None else Some (inf_bits eb mb s))"
| "fp_sqrt eb mb (FFin s m e) =
     (if m = 0 then Some (sign_bits eb mb s)
      else if s then None
      else
        let k = 2 * (mb + 3) + (if even e then 0 else 1);
            x = m * 2 ^ k;
            r = isqrt x
        in Some (pack eb mb False r ((e - int k) div 2) (r * r \<noteq> x)))"

section \<open>Comparison\<close>

fun fp_lt :: "fp \<Rightarrow> fp \<Rightarrow> bool" where
  "fp_lt FNaN _ = False"
| "fp_lt _ FNaN = False"
| "fp_lt (FInf s) (FInf t) = (s \<and> \<not> t)"
| "fp_lt (FInf s) (FFin _ _ _) = s"
| "fp_lt (FFin _ _ _) (FInf t) = (\<not> t)"
| "fp_lt (FFin s m e) (FFin t n f) =
     (let g = min e f in signed_m s m * 2 ^ nat (e - g) < signed_m t n * 2 ^ nat (f - g))"

fun fp_eq :: "fp \<Rightarrow> fp \<Rightarrow> bool" where
  "fp_eq FNaN _ = False"
| "fp_eq _ FNaN = False"
| "fp_eq (FInf s) (FInf t) = (s = t)"
| "fp_eq (FInf s) (FFin _ _ _) = False"
| "fp_eq (FFin _ _ _) (FInf t) = False"
| "fp_eq (FFin s m e) (FFin t n f) =
     (let g = min e f in signed_m s m * 2 ^ nat (e - g) = signed_m t n * 2 ^ nat (f - g))"

definition fp_le :: "fp \<Rightarrow> fp \<Rightarrow> bool" where
  "fp_le a b \<longleftrightarrow> fp_lt a b \<or> fp_eq a b"

section \<open>Conversion to and from integers\<close>

text \<open>\<open>as i32\<close> and the like: toward zero, saturating, NaN to 0.\<close>

definition trunc :: "nat \<Rightarrow> int \<Rightarrow> nat" where
  "trunc m e = (if 0 \<le> e then m * 2 ^ nat e else m div 2 ^ nat (- e))"

fun fp_to_int :: "int \<Rightarrow> int \<Rightarrow> fp \<Rightarrow> int" where
  "fp_to_int lo hi FNaN = 0"
| "fp_to_int lo hi (FInf s) = (if s then lo else hi)"
| "fp_to_int lo hi (FFin s m e) = max lo (min hi (signed_m s (trunc m e)))"

definition fp_of_int :: "nat \<Rightarrow> nat \<Rightarrow> int \<Rightarrow> nat" where
  "fp_of_int eb mb x = pack_int eb mb False x 0"

section \<open>The two formats\<close>

record host =
  nan_const32 :: u32
  nan32 :: "u32 list \<Rightarrow> u32"
  nan64 :: "u64 list \<Rightarrow> u64"
  narrow_nan :: "u64 \<Rightarrow> u32"
  widen_nan :: "u32 \<Rightarrow> u64"
  min_takes_first :: bool
  max_takes_first :: bool

definition f32_val :: "u32 \<Rightarrow> fp" where
  "f32_val a = unpack 8 23 (unat a)"

definition f64_val :: "u64 \<Rightarrow> fp" where
  "f64_val a = unpack 11 52 (unat a)"

definition f32_res :: "host \<Rightarrow> u32 list \<Rightarrow> nat option \<Rightarrow> u32" where
  "f32_res h args r = (case r of Some n \<Rightarrow> of_nat n | None \<Rightarrow> nan32 h args)"

definition f64_res :: "host \<Rightarrow> u64 list \<Rightarrow> nat option \<Rightarrow> u64" where
  "f64_res h args r = (case r of Some n \<Rightarrow> of_nat n | None \<Rightarrow> nan64 h args)"

definition f32_neg :: "u32 \<Rightarrow> u32" where "f32_neg a = a XOR 0x80000000"

definition f64_neg :: "u64 \<Rightarrow> u64" where "f64_neg a = a XOR 0x8000000000000000"

definition f64_as_f32 :: "host \<Rightarrow> u64 \<Rightarrow> u32" where
  "f64_as_f32 h a = (case fp_round 8 23 (f64_val a) of Some n \<Rightarrow> of_nat n | None \<Rightarrow> narrow_nan h a)"

definition f32_as_f64 :: "host \<Rightarrow> u32 \<Rightarrow> u64" where
  "f32_as_f64 h a = (case fp_round 11 52 (f32_val a) of Some n \<Rightarrow> of_nat n | None \<Rightarrow> widen_nan h a)"

fun is_zero :: "fp \<Rightarrow> bool" where
  "is_zero (FFin s m e) \<longleftrightarrow> m = 0"
| "is_zero _ \<longleftrightarrow> False"

text \<open>\<open>a.min(b)\<close> and \<open>a.max(b)\<close> of two numbers that are not NaN.\<close>

definition pick_min :: "host \<Rightarrow> ('a \<Rightarrow> fp) \<Rightarrow> 'a \<Rightarrow> 'a \<Rightarrow> 'a" where
  "pick_min h val a b =
    (if fp_lt (val a) (val b) then a else if fp_lt (val b) (val a) then b
     else if min_takes_first h then a else b)"

definition pick_max :: "host \<Rightarrow> ('a \<Rightarrow> fp) \<Rightarrow> 'a \<Rightarrow> 'a \<Rightarrow> 'a" where
  "pick_max h val a b =
    (if fp_lt (val b) (val a) then a else if fp_lt (val a) (val b) then b
     else if max_takes_first h then a else b)"

definition fmin_s :: "host \<Rightarrow> u32 \<Rightarrow> u32 \<Rightarrow> u32" where
  "fmin_s h a b =
    (if f32_val a = FNaN then b else if f32_val b = FNaN then a
     else if is_zero (f32_val a) \<and> is_zero (f32_val b) \<and> bit a 31 then a
     else pick_min h f32_val a b)"

definition fmax_s :: "host \<Rightarrow> u32 \<Rightarrow> u32 \<Rightarrow> u32" where
  "fmax_s h a b =
    (if f32_val a = FNaN then b else if f32_val b = FNaN then a
     else if is_zero (f32_val a) \<and> is_zero (f32_val b) \<and> bit b 31 then a
     else pick_max h f32_val a b)"

definition fmin_d :: "host \<Rightarrow> u64 \<Rightarrow> u64 \<Rightarrow> u64" where
  "fmin_d h a b =
    (if f64_val a = FNaN then b else if f64_val b = FNaN then a
     else if is_zero (f64_val a) \<and> is_zero (f64_val b) \<and> bit a 63 then a
     else pick_min h f64_val a b)"

definition fmax_d :: "host \<Rightarrow> u64 \<Rightarrow> u64 \<Rightarrow> u64" where
  "fmax_d h a b =
    (if f64_val a = FNaN then b else if f64_val b = FNaN then a
     else if is_zero (f64_val a) \<and> is_zero (f64_val b) \<and> bit b 63 then a
     else pick_max h f64_val a b)"

text \<open>\<open>is_normal\<close> and \<open>is_subnormal\<close>, by the exponent and fraction fields.\<close>

definition normal_bits :: "nat \<Rightarrow> nat \<Rightarrow> nat \<Rightarrow> bool" where
  "normal_bits eb mb n \<longleftrightarrow> (let e = n div 2 ^ mb mod 2 ^ eb in e \<noteq> 0 \<and> e \<noteq> 2 ^ eb - 1)"

definition subnormal_bits :: "nat \<Rightarrow> nat \<Rightarrow> nat \<Rightarrow> bool" where
  "subnormal_bits eb mb n \<longleftrightarrow> n div 2 ^ mb mod 2 ^ eb = 0 \<and> n mod 2 ^ mb \<noteq> 0"

definition fclass_s :: "u32 \<Rightarrow> u64" where
  "fclass_s b =
    (let v = f32_val b; normal = normal_bits 8 23 (unat b); subnormal = subnormal_bits 8 23 (unat b) in
     if v = FNaN then if b AND shl 1 22 \<noteq> 0 then shl 1 9 else shl 1 8
     else if v = FInf True then shl 1 0
     else if shr b 31 \<noteq> 0 \<and> normal then shl 1 1
     else if shr b 31 \<noteq> 0 \<and> subnormal then shl 1 2
     else if shr b 31 \<noteq> 0 then shl 1 3
     else if subnormal then shl 1 5
     else if normal then shl 1 6
     else if v = FInf False then shl 1 7
     else shl 1 4)"

definition fclass_d :: "u64 \<Rightarrow> u64" where
  "fclass_d b =
    (let v = f64_val b; normal = normal_bits 11 52 (unat b); subnormal = subnormal_bits 11 52 (unat b) in
     if v = FNaN then if b AND shl 1 51 \<noteq> 0 then shl 1 9 else shl 1 8
     else if v = FInf True then shl 1 0
     else if shr b 63 \<noteq> 0 \<and> normal then shl 1 1
     else if shr b 63 \<noteq> 0 \<and> subnormal then shl 1 2
     else if shr b 63 \<noteq> 0 then shl 1 3
     else if subnormal then shl 1 5
     else if normal then shl 1 6
     else if v = FInf False then shl 1 7
     else shl 1 4)"

section \<open>The operators on bits\<close>

definition f32_add :: "host \<Rightarrow> u32 \<Rightarrow> u32 \<Rightarrow> u32" where
  "f32_add h a b = f32_res h [a, b] (fp_add 8 23 (f32_val a) (f32_val b))"

definition f32_sub :: "host \<Rightarrow> u32 \<Rightarrow> u32 \<Rightarrow> u32" where
  "f32_sub h a b = f32_res h [a, b] (fp_sub 8 23 (f32_val a) (f32_val b))"

definition f32_mul :: "host \<Rightarrow> u32 \<Rightarrow> u32 \<Rightarrow> u32" where
  "f32_mul h a b = f32_res h [a, b] (fp_mul 8 23 (f32_val a) (f32_val b))"

definition f32_div :: "host \<Rightarrow> u32 \<Rightarrow> u32 \<Rightarrow> u32" where
  "f32_div h a b = f32_res h [a, b] (fp_div 8 23 (f32_val a) (f32_val b))"

definition f32_sqrt :: "host \<Rightarrow> u32 \<Rightarrow> u32" where
  "f32_sqrt h a = f32_res h [a] (fp_sqrt 8 23 (f32_val a))"

definition f32_mul_add :: "host \<Rightarrow> u32 \<Rightarrow> u32 \<Rightarrow> u32 \<Rightarrow> u32" where
  "f32_mul_add h a b c = f32_res h [a, b, c] (fp_mul_add 8 23 (f32_val a) (f32_val b) (f32_val c))"

definition f64_add :: "host \<Rightarrow> u64 \<Rightarrow> u64 \<Rightarrow> u64" where
  "f64_add h a b = f64_res h [a, b] (fp_add 11 52 (f64_val a) (f64_val b))"

definition f64_sub :: "host \<Rightarrow> u64 \<Rightarrow> u64 \<Rightarrow> u64" where
  "f64_sub h a b = f64_res h [a, b] (fp_sub 11 52 (f64_val a) (f64_val b))"

definition f64_mul :: "host \<Rightarrow> u64 \<Rightarrow> u64 \<Rightarrow> u64" where
  "f64_mul h a b = f64_res h [a, b] (fp_mul 11 52 (f64_val a) (f64_val b))"

definition f64_div :: "host \<Rightarrow> u64 \<Rightarrow> u64 \<Rightarrow> u64" where
  "f64_div h a b = f64_res h [a, b] (fp_div 11 52 (f64_val a) (f64_val b))"

definition f64_sqrt :: "host \<Rightarrow> u64 \<Rightarrow> u64" where
  "f64_sqrt h a = f64_res h [a] (fp_sqrt 11 52 (f64_val a))"

definition f64_mul_add :: "host \<Rightarrow> u64 \<Rightarrow> u64 \<Rightarrow> u64 \<Rightarrow> u64" where
  "f64_mul_add h a b c = f64_res h [a, b, c] (fp_mul_add 11 52 (f64_val a) (f64_val b) (f64_val c))"

definition f32_of_int :: "int \<Rightarrow> u32" where
  "f32_of_int x = of_nat (fp_of_int 8 23 x)"

definition f64_of_int :: "int \<Rightarrow> u64" where
  "f64_of_int x = of_nat (fp_of_int 11 52 x)"

end
