(* ===== verification/ExecFp.thy ===== *)
theory ExecFp
  imports ExecMem Float
begin

text \<open>
  The floating-point arms of \<open>execute\<close> in \<open>src/cpu/execute.rs\<close>: OP-FP and the fused multiply-add.
  \<open>f32_box\<close> and \<open>f32_unbox\<close> are the closures \<open>sb\<close> and \<open>fs\<close>.  An encoding the arms do not know
  traps: some leave \<open>execute\<close> at once, the others go on to mark the unit dirty, as the source does.
\<close>

definition f32_unbox :: "host \<Rightarrow> u64 \<Rightarrow> u32" where
  "f32_unbox h v = (if shr v 32 = 0xFFFFFFFF then ucast v else nan_const32 h)"

definition f32_box :: "u32 \<Rightarrow> u64" where
  "f32_box v = 0xFFFFFFFF00000000 OR ucast v"

definition fp_result :: "cpu \<Rightarrow> u64 \<Rightarrow> nat \<Rightarrow> u64 \<Rightarrow> arm" where
  "fp_result c next_pc rd v = do { c \<leftarrow> set_freg c rd v; Some (fs_dirty c, next_pc) }"

definition int_result :: "cpu \<Rightarrow> u64 \<Rightarrow> nat \<Rightarrow> u64 \<Rightarrow> arm" where
  "int_result c next_pc rd v = do { c \<leftarrow> set_reg c rd v; Some (fs_dirty c, next_pc) }"

text \<open>An illegal encoding: with the early return, and without.\<close>

definition fp_illegal :: "cpu \<Rightarrow> arm" where
  "fp_illegal c = trap c 2 0"

definition fp_illegal_dirty :: "cpu \<Rightarrow> arm" where
  "fp_illegal_dirty c = do { (c, next_pc) \<leftarrow> trap c 2 0; Some (fs_dirty c, next_pc) }"

text \<open>\<open>cpu.regs[n]\<close>, a plain index.\<close>

definition raw_reg :: "cpu \<Rightarrow> nat \<Rightarrow> u64 option" where
  "raw_reg c n = (if n < 32 then Some (regs c ! n) else None)"

section \<open>Groups of OP-FP\<close>

text \<open>Arithmetic, square root and the conversions between the formats.\<close>

definition fp_arith :: "host \<Rightarrow> u8 \<Rightarrow> u64 \<Rightarrow> u64 \<Rightarrow> u64 option" where
  "fp_arith h funct7 a b =
    (let fs = f32_unbox h; sb = f32_box in
     if funct7 = 0x00 then Some (sb (f32_add h (fs a) (fs b)))
     else if funct7 = 0x01 then Some (f64_add h a b)
     else if funct7 = 0x04 then Some (sb (f32_sub h (fs a) (fs b)))
     else if funct7 = 0x05 then Some (f64_sub h a b)
     else if funct7 = 0x08 then Some (sb (f32_mul h (fs a) (fs b)))
     else if funct7 = 0x09 then Some (f64_mul h a b)
     else if funct7 = 0x0C then Some (sb (f32_div h (fs a) (fs b)))
     else if funct7 = 0x0D then Some (f64_div h a b)
     else if funct7 = 0x2C then Some (sb (f32_sqrt h (fs a)))
     else if funct7 = 0x2D then Some (f64_sqrt h a)
     else if funct7 = 0x20 then Some (sb (f64_as_f32 h a))
     else if funct7 = 0x21 then Some (f32_as_f64 h (fs a))
     else None)"

definition sgnj_s :: "u8 \<Rightarrow> u64 \<Rightarrow> u64 \<Rightarrow> u64 option" where
  "sgnj_s rm a b =
    (let join = (\<lambda>sign. 0xFFFFFFFF00000000 OR (a AND 0x7FFFFFFF) OR sign) in
     if rm = 0 then Some (join (b AND 0x80000000))
     else if rm = 1 then Some (join (NOT b AND 0x80000000))
     else if rm = 2 then Some (join ((a XOR b) AND 0x80000000))
     else None)"

definition sgnj_d :: "u8 \<Rightarrow> u64 \<Rightarrow> u64 \<Rightarrow> u64 option" where
  "sgnj_d rm a b =
    (let join = (\<lambda>sign. (a AND 0x7FFFFFFFFFFFFFFF) OR sign) in
     if rm = 0 then Some (join (b AND 0x8000000000000000))
     else if rm = 1 then Some (join (NOT b AND 0x8000000000000000))
     else if rm = 2 then Some (join ((a XOR b) AND 0x8000000000000000))
     else None)"

definition fp_minmax :: "host \<Rightarrow> u8 \<Rightarrow> u8 \<Rightarrow> u64 \<Rightarrow> u64 \<Rightarrow> u64 option" where
  "fp_minmax h funct7 rm a b =
    (let fs = f32_unbox h; sb = f32_box in
     if funct7 = 0x14 then
       (if rm = 0 then Some (sb (fmin_s h (fs a) (fs b)))
        else if rm = 1 then Some (sb (fmax_s h (fs a) (fs b))) else None)
     else
       (if rm = 0 then Some (fmin_d h a b) else if rm = 1 then Some (fmax_d h a b) else None))"

text \<open>\<open>a <= b\<close>, \<open>a < b\<close> and \<open>a == b\<close> as 0 or 1.\<close>

definition fp_compare :: "u8 \<Rightarrow> fp \<Rightarrow> fp \<Rightarrow> u64 option" where
  "fp_compare rm a b =
    (if rm = 0 then Some (bool_u64 (fp_le a b))
     else if rm = 1 then Some (bool_u64 (fp_lt a b))
     else if rm = 2 then Some (bool_u64 (fp_eq a b))
     else None)"

text \<open>To \<open>i32\<close>, \<open>u32\<close>, \<open>i64\<close> and \<open>u64\<close>, then to \<open>u64\<close>; and back.\<close>

definition fcvt_to_int :: "nat \<Rightarrow> fp \<Rightarrow> u64 option" where
  "fcvt_to_int rs2 a =
    (if rs2 = 0 then Some (scast (word_of_int (fp_to_int (- (2 ^ 31)) (2 ^ 31 - 1) a) :: u32))
     else if rs2 = 1 then Some (ucast (word_of_int (fp_to_int 0 (2 ^ 32 - 1) a) :: u32))
     else if rs2 = 2 then Some (word_of_int (fp_to_int (- (2 ^ 63)) (2 ^ 63 - 1) a))
     else if rs2 = 3 then Some (word_of_int (fp_to_int 0 (2 ^ 64 - 1) a))
     else None)"

definition int_operand :: "nat \<Rightarrow> u64 \<Rightarrow> int option" where
  "int_operand rs2 x =
    (if rs2 = 0 then Some (sint (lo32 x)) else if rs2 = 1 then Some (uint (lo32 x))
     else if rs2 = 2 then Some (sint x) else if rs2 = 3 then Some (uint x) else None)"

section \<open>OP-FP\<close>

definition exec_op_fp :: "host \<Rightarrow> cpu \<Rightarrow> u64 \<Rightarrow> u8 \<Rightarrow> nat \<Rightarrow> nat \<Rightarrow> u8 \<Rightarrow> nat \<Rightarrow> arm" where
  "exec_op_fp h c next_pc funct7 rs2 rs1 rm rd =
    (if funct7 \<in> {0x00, 0x01, 0x04, 0x05, 0x08, 0x09, 0x0C, 0x0D, 0x2C, 0x2D, 0x20, 0x21} then do {
       a \<leftarrow> freg c rs1;
       b \<leftarrow> freg c rs2;
       v \<leftarrow> fp_arith h funct7 a b;
       fp_result c next_pc rd v
     } else if funct7 = 0x10 then do {
       a \<leftarrow> freg c rs1;
       b \<leftarrow> freg c rs2;
       case sgnj_s rm a b of None \<Rightarrow> fp_illegal c | Some v \<Rightarrow> fp_result c next_pc rd v
     } else if funct7 = 0x11 then do {
       a \<leftarrow> freg c rs1;
       b \<leftarrow> freg c rs2;
       case sgnj_d rm a b of None \<Rightarrow> fp_illegal c | Some v \<Rightarrow> fp_result c next_pc rd v
     } else if funct7 = 0x14 \<or> funct7 = 0x15 then do {
       a \<leftarrow> freg c rs1;
       b \<leftarrow> freg c rs2;
       case fp_minmax h funct7 rm a b of
         None \<Rightarrow> fp_illegal_dirty c | Some v \<Rightarrow> fp_result c next_pc rd v
     } else if funct7 = 0x50 then do {
       a \<leftarrow> freg c rs1;
       b \<leftarrow> freg c rs2;
       case fp_compare rm (f32_val (f32_unbox h a)) (f32_val (f32_unbox h b)) of
         None \<Rightarrow> fp_illegal c | Some v \<Rightarrow> int_result c next_pc rd v
     } else if funct7 = 0x51 then do {
       a \<leftarrow> freg c rs1;
       b \<leftarrow> freg c rs2;
       case fp_compare rm (f64_val a) (f64_val b) of
         None \<Rightarrow> fp_illegal c | Some v \<Rightarrow> int_result c next_pc rd v
     } else if funct7 = 0x60 then do {
       a \<leftarrow> freg c rs1;
       case fcvt_to_int rs2 (f32_val (f32_unbox h a)) of
         None \<Rightarrow> fp_illegal c | Some v \<Rightarrow> int_result c next_pc rd v
     } else if funct7 = 0x61 then do {
       a \<leftarrow> freg c rs1;
       case fcvt_to_int rs2 (f64_val a) of
         None \<Rightarrow> fp_illegal c | Some v \<Rightarrow> int_result c next_pc rd v
     } else if funct7 = 0x68 then do {
       x \<leftarrow> raw_reg c rs1;
       case int_operand rs2 x of
         None \<Rightarrow> fp_illegal c | Some i \<Rightarrow> fp_result c next_pc rd (f32_box (f32_of_int i))
     } else if funct7 = 0x69 then do {
       x \<leftarrow> raw_reg c rs1;
       case int_operand rs2 x of
         None \<Rightarrow> fp_illegal c | Some i \<Rightarrow> fp_result c next_pc rd (f64_of_int i)
     } else if funct7 = 0x70 then
       (if rm = 0 then do { a \<leftarrow> freg c rs1; int_result c next_pc rd (scast (lo32 a)) }
        else if rm = 1 then do { a \<leftarrow> freg c rs1; int_result c next_pc rd (fclass_s (f32_unbox h a)) }
        else fp_illegal_dirty c)
     else if funct7 = 0x71 then
       (if rm = 0 then do { a \<leftarrow> freg c rs1; int_result c next_pc rd a }
        else if rm = 1 then do { a \<leftarrow> freg c rs1; int_result c next_pc rd (fclass_d a) }
        else fp_illegal_dirty c)
     else if funct7 = 0x78 then do {
       x \<leftarrow> raw_reg c rs1;
       fp_result c next_pc rd (0xFFFFFFFF00000000 OR (x AND 0xFFFFFFFF))
     } else if funct7 = 0x79 then do {
       x \<leftarrow> raw_reg c rs1;
       fp_result c next_pc rd x
     } else fp_illegal_dirty c)"

section \<open>Fused multiply-add\<close>

definition fma_value :: "host \<Rightarrow> u8 \<Rightarrow> u8 \<Rightarrow> u64 \<Rightarrow> u64 \<Rightarrow> u64 \<Rightarrow> u64 option" where
  "fma_value h fmt opcode a b c =
    (let fs = f32_unbox h; sb = f32_box in
     if fmt = 0 \<and> opcode = 0x43 then Some (sb (f32_mul_add h (fs a) (fs b) (fs c)))
     else if fmt = 0 \<and> opcode = 0x47 then Some (sb (f32_mul_add h (fs a) (fs b) (f32_neg (fs c))))
     else if fmt = 0 \<and> opcode = 0x4B then Some (sb (f32_mul_add h (f32_neg (fs a)) (fs b) (fs c)))
     else if fmt = 0 \<and> opcode = 0x4F then
       Some (sb (f32_mul_add h (f32_neg (fs a)) (fs b) (f32_neg (fs c))))
     else if fmt = 1 \<and> opcode = 0x43 then Some (f64_mul_add h a b c)
     else if fmt = 1 \<and> opcode = 0x47 then Some (f64_mul_add h a b (f64_neg c))
     else if fmt = 1 \<and> opcode = 0x4B then Some (f64_mul_add h (f64_neg a) b c)
     else if fmt = 1 \<and> opcode = 0x4F then Some (f64_mul_add h (f64_neg a) b (f64_neg c))
     else None)"

definition exec_fma :: "host \<Rightarrow> cpu \<Rightarrow> u64 \<Rightarrow> u8 \<Rightarrow> u8 \<Rightarrow> nat \<Rightarrow> nat \<Rightarrow> nat \<Rightarrow> nat \<Rightarrow> arm" where
  "exec_fma h c next_pc opcode fmt rs3 rs2 rs1 rd = do {
     x \<leftarrow> freg c rs1;
     y \<leftarrow> freg c rs2;
     z \<leftarrow> freg c rs3;
     case fma_value h fmt opcode x y z of
       None \<Rightarrow> fp_illegal_dirty c | Some v \<Rightarrow> fp_result c next_pc rd v
   }"

section \<open>The arms run\<close>

lemma runs_raw_reg: "n < 32 \<Longrightarrow> (\<And>v. runs Q b (f v)) \<Longrightarrow> runs Q b (Option.bind (raw_reg c n) f)"
  by (simp add: raw_reg_def)

lemma runs_fp_result: "cpu_wf c \<Longrightarrow> even_pc next_pc \<Longrightarrow> rd < 32 \<Longrightarrow> runs even_pc (bus c) (fp_result c next_pc rd v)"
  by (auto simp: fp_result_def fs_dirty_frame cpu_wf_fs_dirty intro!: runs_set_freg)

lemma runs_int_result: "cpu_wf c \<Longrightarrow> even_pc next_pc \<Longrightarrow> rd < 32 \<Longrightarrow> runs even_pc (bus c) (int_result c next_pc rd v)"
  by (auto simp: int_result_def fs_dirty_frame cpu_wf_fs_dirty intro!: runs_set_reg)

lemma runs_fp_illegal: "cpu_wf c \<Longrightarrow> runs even_pc (bus c) (fp_illegal c)"
  by (simp add: fp_illegal_def runs_trap)

lemma runs_fp_illegal_dirty: "cpu_wf c \<Longrightarrow> runs even_pc (bus c) (fp_illegal_dirty c)"
  by (auto simp: fp_illegal_dirty_def fs_dirty_frame cpu_wf_fs_dirty intro!: runs_bind [OF runs_trap])

lemma fp_arith_defined:
  "funct7 \<in> {0x00, 0x01, 0x04, 0x05, 0x08, 0x09, 0x0C, 0x0D, 0x2C, 0x2D, 0x20, 0x21} \<Longrightarrow>
    \<exists>v. fp_arith h funct7 a b = Some v"
  by (auto simp: fp_arith_def Let_def)

lemmas runs_fp_cases = runs_reg runs_freg runs_raw_reg runs_fp_result runs_int_result
  runs_fp_illegal runs_fp_illegal_dirty

lemma runs_if: "(P \<Longrightarrow> runs Q b x) \<Longrightarrow> (\<not> P \<Longrightarrow> runs Q b y) \<Longrightarrow> runs Q b (if P then x else y)"
  by simp

lemma runs_option: "(r = None \<Longrightarrow> runs Q b x) \<Longrightarrow> (\<And>v. r = Some v \<Longrightarrow> runs Q b (f v)) \<Longrightarrow>
    runs Q b (case r of None \<Rightarrow> x | Some v \<Rightarrow> f v)"
  by (cases r) simp_all

lemma runs_exec_op_fp [runs_rules]:
  assumes "cpu_wf c" "even_pc next_pc" "rd < 32" "rs1 < 32" "rs2 < 32"
  shows "runs even_pc (bus c) (exec_op_fp h c next_pc funct7 rs2 rs1 rm rd)"
proof -
  have "runs even_pc (bus c) (Option.bind (fp_arith h funct7 a b) (fp_result c next_pc rd))"
    if "funct7 \<in> {0x00, 0x01, 0x04, 0x05, 0x08, 0x09, 0x0C, 0x0D, 0x2C, 0x2D, 0x20, 0x21}" for a b
    using fp_arith_defined [OF that, of h a b] runs_fp_result [OF assms(1-3)] by auto
  then show ?thesis
    unfolding exec_op_fp_def by (intro runs_if runs_option runs_fp_cases assms)
qed

lemma runs_exec_fma [runs_rules]:
  assumes "cpu_wf c" "even_pc next_pc" "rd < 32" "rs1 < 32" "rs2 < 32" "rs3 < 32"
  shows "runs even_pc (bus c) (exec_fma h c next_pc opcode fmt rs3 rs2 rs1 rd)"
  unfolding exec_fma_def by (intro runs_if runs_option runs_fp_cases assms)

end
