(* ===== verification/Execute.thy ===== *)
theory Execute
  imports ExecSys ExecFp
begin

text \<open>
  The dispatcher \<open>execute\<close> of \<open>src/cpu/execute.rs\<close> and the step function of \<open>src/cpu/mod.rs\<close>.
  The tracing path of \<open>step\<close> differs only in what it prints.  \<open>h\<close> is the host's choice where
  Rust leaves floating-point results open (theory \<open>Float\<close>).
\<close>

fun exec_arm :: "host \<Rightarrow> cpu \<Rightarrow> u64 \<Rightarrow> instruction \<Rightarrow> arm" where
  "exec_arm h c n (RType op rd rs1 rs2) = exec_r c n op rd rs1 rs2"
| "exec_arm h c n (MType op rd rs1 rs2) = exec_m c n op rd rs1 rs2"
| "exec_arm h c n (LrD rd rs1) = exec_lr c n 8 rd rs1"
| "exec_arm h c n (LrW rd rs1) = exec_lr c n 4 rd rs1"
| "exec_arm h c n (ScD rd rs1 rs2) = exec_sc c n 8 rd rs1 rs2"
| "exec_arm h c n (ScW rd rs1 rs2) = exec_sc c n 4 rd rs1 rs2"
| "exec_arm h c n (Amo op rd rs1 rs2) = exec_amo c n op rd rs1 rs2"
| "exec_arm h c n (IType op rd rs1 imm) = exec_i c n op rd rs1 imm"
| "exec_arm h c n (Shift op rd rs1 shamt) = exec_shift c n op rd rs1 shamt"
| "exec_arm h c n (Load op rd rs1 imm) = exec_load c n op rd rs1 imm"
| "exec_arm h c n (Store op rs1 rs2 imm) = exec_store c n op rs1 rs2 imm"
| "exec_arm h c n (Branch op rs1 rs2 imm) = exec_branch c n op rs1 rs2 imm"
| "exec_arm h c n (Jal rd imm) = exec_jal c n rd imm"
| "exec_arm h c n (Jalr rd rs1 imm) = exec_jalr c n rd rs1 imm"
| "exec_arm h c n (Lui rd imm) = exec_lui c n rd imm"
| "exec_arm h c n (Auipc rd imm) = exec_auipc c n rd imm"
| "exec_arm h c n Fence = Some (c, n)"
| "exec_arm h c n Ecall = exec_ecall c"
| "exec_arm h c n Ebreak = exec_ebreak c"
| "exec_arm h c n Mret = exec_mret c"
| "exec_arm h c n Sret = exec_sret c"
| "exec_arm h c n Wfi = Some (c, n)"
| "exec_arm h c n SfenceVma = exec_sfence_vma c n"
| "exec_arm h c n (CsrR op rd rs1 addr) = exec_csr_r c n op rd rs1 addr"
| "exec_arm h c n (CsrI op rd uimm addr) = exec_csr_i c n op rd uimm addr"
| "exec_arm h c n (Flw fd rs1 imm) = exec_flw c n fd rs1 imm"
| "exec_arm h c n (Fld fd rs1 imm) = exec_fld c n fd rs1 imm"
| "exec_arm h c n (Fsw rs1 fs2 imm) = exec_fstore c n 4 rs1 fs2 imm"
| "exec_arm h c n (Fsd rs1 fs2 imm) = exec_fstore c n 8 rs1 fs2 imm"
| "exec_arm h c n (OpFp funct7 rs2 rs1 rm rd) = exec_op_fp h c n funct7 rs2 rs1 rm rd"
| "exec_arm h c n (Fma opcode fmt rs3 rs2 rs1 rd) = exec_fma h c n opcode fmt rs3 rs2 rs1 rd"

definition execute :: "host \<Rightarrow> cpu \<Rightarrow> instruction \<Rightarrow> cpu option" where
  "execute h c i = do {
     (c, next_pc) \<leftarrow> exec_arm h c (pc c + inst_size c) i;
     Some (c\<lparr>pc := next_pc\<rparr>)
   }"

section \<open>The step\<close>

text \<open>
  Fetch: the low half decides the length of the instruction; the high half of a 32-bit one is fetched
  through its own translation when it lies on the next page.  The result is a trap to deliver or the
  fetched bits.
\<close>

definition fetch_half :: "cpu \<Rightarrow> u64 \<Rightarrow> u64 \<Rightarrow> (cpu \<times> (trap_info + u32)) option" where
  "fetch_half c pa va = do {
     (c, r) \<leftarrow> Cpu_load c pa 2;
     Some (c, case r of Inl _ \<Rightarrow> Inl (1, va) | Inr v \<Rightarrow> Inr (ucast (ucast v :: u16)))
   }"

definition fetch_high :: "cpu \<Rightarrow> u64 \<Rightarrow> u32 \<Rightarrow> (cpu \<times> (trap_info + u32)) option" where
  "fetch_high c pa lo = do {
     (c, t) \<leftarrow> (if pc c AND 0xFFF = 0xFFE
                then Cpu_translate c (mode c) (pc c + 2) AccessType_Fetch
                else Some (c, Inr (pa + 2)));
     case t of
       Inl f \<Rightarrow> Some (c, Inl f)
     | Inr pa_hi \<Rightarrow> do {
         (c, r) \<leftarrow> fetch_half c pa_hi (pc c + 2);
         Some (c, case r of Inl f \<Rightarrow> Inl f | Inr hi \<Rightarrow> Inr (lo OR shl hi 16))
       }
   }"

definition fetch :: "cpu \<Rightarrow> (cpu \<times> (trap_info + u32)) option" where
  "fetch c = do {
     (c, t) \<leftarrow> Cpu_translate c (mode c) (pc c) AccessType_Fetch;
     case t of
       Inl f \<Rightarrow> Some (c, Inl f)
     | Inr pa \<Rightarrow> do {
         (c, r) \<leftarrow> fetch_half c pa (pc c);
         case r of
           Inl f \<Rightarrow> Some (c, Inl f)
         | Inr lo \<Rightarrow> if lo AND 0x3 \<noteq> 0x3 then Some (c, Inr lo) else fetch_high c pa lo
       }
   }"

definition decode_execute :: "host \<Rightarrow> cpu \<Rightarrow> u32 \<Rightarrow> cpu option" where
  "decode_execute h c raw =
    (if raw AND 0x3 \<noteq> 0x3 then do {
       let c = c\<lparr>inst_size := 2\<rparr>;
       d \<leftarrow> decode_rvc (ucast raw);
       case d of
         Inl _ \<Rightarrow> Some (deliver_trap c 2 (ucast (raw AND 0xffff)))
       | Inr i \<Rightarrow> execute h c i
     } else do {
       let c = c\<lparr>inst_size := 4\<rparr>;
       d \<leftarrow> decode raw;
       case d of
         Inl _ \<Rightarrow> Some (deliver_trap c 2 (ucast raw))
       | Inr i \<Rightarrow> execute h c i
     })"

definition step :: "host \<Rightarrow> cpu \<Rightarrow> cpu option" where
  "step h c =
    (case check_interrupts c of
       (c, True) \<Rightarrow> Some c
     | (c, False) \<Rightarrow>
         if pc c AND 0x1 \<noteq> 0 then Some (deliver_trap c 0 (pc c))
         else do {
           (c, r) \<leftarrow> fetch c;
           case r of
             Inl (cause, tval) \<Rightarrow> Some (deliver_trap c cause tval)
           | Inr raw \<Rightarrow> decode_execute h c raw
         })"

section \<open>Steps keep the hart well-formed\<close>

lemma runs_exec_arm:
  assumes "cpu_wf c" "even_pc n" "encodable i"
  shows "runs even_pc (bus c) (exec_arm h c n i)"
  using assms by (cases i) (auto intro!: runs_rules)

text \<open>Ends of a whole instruction: as \<open>runs\<close>, without a value.\<close>

definition steps_ok :: "bus \<Rightarrow> cpu option \<Rightarrow> bool" where
  "steps_ok b r \<longleftrightarrow> runs (\<lambda>_. True) b (map_option (\<lambda>c. (c, ())) r)"

lemma steps_ok_Some [simp]: "steps_ok b (Some c) \<longleftrightarrow> cpu_wf c \<and> bus_reaches b (bus c)"
  by (simp add: steps_ok_def)

lemma steps_ok_bind:
  assumes "runs Q b r" and "\<And>c x. r = Some (c, x) \<Longrightarrow> cpu_wf c \<Longrightarrow> Q x \<Longrightarrow> steps_ok (bus c) (f (c, x))"
  shows "steps_ok b (Option.bind r f)"
proof -
  have "map_option (\<lambda>c. (c, ())) (Option.bind r f) = Option.bind r (\<lambda>cx. map_option (\<lambda>c. (c, ())) (f cx))"
    by (cases r) simp_all
  then show ?thesis
    unfolding steps_ok_def using assms by (simp add: steps_ok_def runs_bind)
qed

lemma cpu_wf_pc: "cpu_wf c \<Longrightarrow> even_pc n \<Longrightarrow> cpu_wf (c\<lparr>pc := n\<rparr>)"
  by (simp add: cpu_wf_def even_pc_def)

lemma even_pc_add: "even_pc a \<Longrightarrow> even_pc k \<Longrightarrow> even_pc (a + k)"
  by (simp add: even_pc_def bit_0)

lemma execute_ok:
  assumes "cpu_wf c" "inst_size c \<in> {2, 4}" "encodable i"
  shows "steps_ok (bus c) (execute h c i)"
proof -
  have "even_pc (pc c + inst_size c)"
    using assms(1,2) by (intro even_pc_add) (auto simp: cpu_wf_def even_pc_def bit_0)
  from runs_exec_arm [OF assms(1) this assms(3)] show ?thesis
    unfolding execute_def by (rule steps_ok_bind) (simp add: cpu_wf_pc)
qed

lemma deliver_trap_ok: "cpu_wf c \<Longrightarrow> steps_ok (bus c) (Some (deliver_trap c cause tval))"
  by (simp add: cpu_wf_deliver_trap deliver_trap_frame)

lemma cpu_wf_inst_size: "cpu_wf (c\<lparr>inst_size := n\<rparr>) = cpu_wf c"
  by (simp add: cpu_wf_def)

lemma rvc_parcel: "raw AND 3 \<noteq> 3 \<Longrightarrow> (ucast raw :: u16) AND 3 \<noteq> 3" for raw :: u32
proof -
  have b: "w AND 3 = 3 \<longleftrightarrow> bit w 0 \<and> bit w 1" if "2 \<le> LENGTH('a)" for w :: "'a::len word"
  proof -
    have m: "bit (3 :: 'a word) n \<longleftrightarrow> n < 2" for n
      using that bit_mask_iff [where 'a = "'a word", of 2 n] by (auto simp: mask_eq_exp_minus_1)
    show ?thesis
    proof
      assume "w AND 3 = 3"
      then have "bit (w AND 3) n \<longleftrightarrow> n < 2" for n by (simp only: m)
      from this [of 0] this [of 1] show "bit w 0 \<and> bit w 1" by (simp add: bit_and_iff)
    next
      assume "bit w 0 \<and> bit w 1"
      then have "bit (w AND 3) n \<longleftrightarrow> bit (3 :: 'a word) n" for n
        unfolding bit_and_iff m less_2_cases_iff One_nat_def by blast
      then show "w AND 3 = 3" by (intro bit_word_eqI) blast
    qed
  qed
  show "raw AND 3 \<noteq> 3 \<Longrightarrow> (ucast raw :: u16) AND 3 \<noteq> 3"
    by (simp add: b bit_simps)
qed

lemma decode_execute_ok:
  assumes "cpu_wf c"
  shows "steps_ok (bus c) (decode_execute h c raw)"
proof (cases "raw AND 3 \<noteq> 3")
  case True
  let ?c = "c\<lparr>inst_size := 2\<rparr>"
  obtain d where d: "decode_rvc (ucast raw) = Some d"
    using decode_rvc_total [OF rvc_parcel [OF True]] by auto
  show ?thesis
    using d True assms execute_ok [of ?c] deliver_trap_ok [of ?c] decode_rvc_encodable
    by (cases d) (auto simp: decode_execute_def cpu_wf_inst_size)
next
  case False
  let ?c = "c\<lparr>inst_size := 4\<rparr>"
  obtain d where d: "decode raw = Some d"
    using decode_total [of raw] by auto
  show ?thesis
    using d False assms execute_ok [of ?c] deliver_trap_ok [of ?c] decode_encodable
    by (cases d) (auto simp: decode_execute_def cpu_wf_inst_size)
qed

lemma runs_fetch_half: "cpu_wf c \<Longrightarrow> runs (\<lambda>_. True) (bus c) (fetch_half c pa va)"
  by (auto simp: fetch_half_def intro!: runs_bind [OF runs_load])

lemma runs_fetch: "cpu_wf c \<Longrightarrow> runs (\<lambda>_. True) (bus c) (fetch c)"
  unfolding fetch_def fetch_high_def
  by (auto split: sum.split intro!: runs_bind [OF runs_translate] runs_bind [OF runs_fetch_half])

lemma step_ok:
  assumes "cpu_wf c"
  shows "steps_ok (bus c) (step h c)"
proof -
  obtain c1 b where ci: "check_interrupts c = (c1, b)" by fastforce
  have c1: "cpu_wf c1" "bus c1 = bus c"
    using cpu_wf_check_interrupts [OF assms] check_interrupts_frame(1) [of c] by (simp_all add: ci)
  show ?thesis
  proof (cases b)
    case True
    then show ?thesis using ci c1 by (simp add: step_def)
  next
    case False
    have "steps_ok (bus c1) (Option.bind (fetch c1) (\<lambda>(c, r). case r of
        Inl (cause, tval) \<Rightarrow> Some (deliver_trap c cause tval) | Inr raw \<Rightarrow> decode_execute h c raw))"
      by (rule steps_ok_bind [OF runs_fetch [OF c1(1)]])
        (auto split: sum.split simp: decode_execute_ok cpu_wf_deliver_trap deliver_trap_frame)
    then show ?thesis
      using ci c1 False deliver_trap_ok [OF c1(1)] by (auto simp: step_def)
  qed
qed

section \<open>Properties\<close>


text \<open>A hart with no program: the first fetch, from an unmapped address, is an access fault.\<close>

definition host0 :: host where
  "host0 = \<lparr>nan_const32 = 0x7FC00000, nan32 = (\<lambda>_. 0x7FC00000), nan64 = (\<lambda>_. 0x7FF8000000000000),
     narrow_nan = (\<lambda>_. 0x7FC00000), widen_nan = (\<lambda>_. 0x7FF8000000000000),
     min_takes_first = True, max_takes_first = True\<rparr>"


lemma take_bit_2: "take_bit 2 a = take_bit 2 b \<longleftrightarrow> (bit a 0 \<longleftrightarrow> bit b 0) \<and> (bit a 1 \<longleftrightarrow> bit b 1)" for a b :: u64
proof
  assume e: "take_bit 2 a = take_bit 2 b"
  have "bit (take_bit 2 a) n = bit (take_bit 2 b) n" for n by (simp only: e)
  from this [of 0] this [of 1] show "(bit a 0 \<longleftrightarrow> bit b 0) \<and> (bit a 1 \<longleftrightarrow> bit b 1)"
    by (simp add: bit_take_bit_iff)
next
  assume "(bit a 0 \<longleftrightarrow> bit b 0) \<and> (bit a 1 \<longleftrightarrow> bit b 1)"
  then show "take_bit 2 a = take_bit 2 b"
    by (intro bit_word_eqI) (auto simp only: bit_take_bit_iff less_2_cases_iff One_nat_def)
qed

lemma field_2:
  fixes w v :: u64
  assumes "v \<in> {0, 1, 2, 3}"
  shows "shr w k AND 3 = v \<longleftrightarrow> (bit w k \<longleftrightarrow> bit v 0) \<and> (bit w (k + 1) \<longleftrightarrow> bit v 1)"
proof -
  have "shr w k AND 3 = take_bit 2 (shr w k)"
    by (rule word64_eqI) (simp add: enum_bits)
  moreover have "v = take_bit 2 v"
    using assms by auto
  ultimately have "shr w k AND 3 = v \<longleftrightarrow> take_bit 2 (shr w k) = take_bit 2 v" by metis
  then show ?thesis by (simp only: take_bit_2 bit_drop_bit_eq o_apply add_0_right)
qed

lemma exec_mret_mode:
  assumes "\<And>n. n < 2 \<Longrightarrow> bit (mstatus (csr c)) (11 + n) = bit (priv_code p) n"
  shows "shr (mstatus (csr c)) 11 AND 3 = priv_code p"
  using field_2 [OF priv_code_range, of 11 "mstatus (csr c)" p] assms [of 0] assms [of 1]
  by simp



end
