(* ===== verification/X86.thy ===== *)
theory X86
  imports Execute
begin

text \<open>
  The target of the just-in-time compiler of \<open>src/jit.rs\<close>: the x86-64 instructions that its
  \<open>dynasm!\<close> blocks are written in, with their architectural meaning.  A value is an integer or one
  of the pointers the code handles: to \<open>cpu.regs[0]\<close>, to the \<open>Cpu\<close>, to one of the memory helpers,
  and the words of the caller's frame, so that the guest's registers are reached through \<open>r15\<close> and
  the \<open>Cpu\<close> through \<open>r14\<close> only.  Anything the code must never do is \<open>Stuck\<close>: integer arithmetic on a
  pointer, an access outside the register file, a divide error, a branch on undefined flags, a call
  with a misaligned stack, a return to anything but the return address.
\<close>

datatype (plugins only: code) gpr = RAX | RCX | RDX | RSI | RDI | R14 | R15

datatype (plugins only: code) helper = JitLoad nat | JitStore nat

datatype (plugins only: code) val =
    Vint u64
  | Vregs
  | Vcpu
  | Vhelper helper
  | Vret
  | Vsaved gpr
  | Vundef

datatype (plugins only: code) opsize = QWORD | DWORD

datatype (plugins only: code) cond = CondE | CondNE | CondL | CondGE | CondB | CondAE

text \<open>Labels made by \<open>new_dynamic_label\<close>, and the local ones \<open>not_zero\<close> and \<open>no_overflow\<close>.\<close>

datatype (plugins only: code) label = Dyn nat | NotZero | NoOverflow

datatype (plugins only: code) alu_op = XAdd | XSub | XAnd | XOr | XXor | XImul

datatype (plugins only: code) xshift = XShl | XShr | XSar

text \<open>
  A memory operand \<open>[r + off]\<close> is a base register and a displacement; an immediate of 32 bits is
  sign-extended to the operand size.  The displacement of \<open>cpu.pc\<close> is \<open>offset_of!(Cpu, pc)\<close>: the
  one instruction that uses it is \<open>MovPc\<close>, \<open>mov QWORD [base + pc_offset], r\<close>.
\<close>

datatype (plugins only: code) insn =
    MovRR gpr gpr
  | MovRM opsize gpr gpr nat
  | MovMR gpr nat gpr
  | MovPc gpr gpr
  | MovRI gpr u64
  | MovRI32 gpr u32
  | MovRH gpr helper
  | AluRR alu_op opsize gpr gpr
  | AluRM alu_op opsize gpr gpr nat
  | AluRI alu_op opsize gpr u32
  | CmpRR gpr gpr
  | CmpRM gpr gpr nat
  | CmpRI gpr u32
  | TestRR opsize gpr gpr
  | ShiftCL xshift opsize gpr
  | ShiftI xshift opsize gpr u8
  | SetccAL cond
  | MovzxAL gpr
  | MovsxdRR gpr gpr
  | MovsxRM nat gpr gpr nat
  | Mul1 bool gpr
  | Div1 bool opsize gpr
  | Cqo
  | Push gpr
  | Pop gpr
  | SubRsp
  | AddRsp
  | Jmp label
  | Jcc cond label
  | Label label
  | Call gpr
  | Ret

record xflags =
  zf :: bool
  sf :: bool
  cf :: bool
  ovf :: bool

record x86 =
  xregs :: "gpr \<Rightarrow> val"
  xflags :: "xflags option"
  xstack :: "val list"
  guest :: cpu

section \<open>Operands\<close>

definition word_of :: "val \<Rightarrow> u64 option" where
  "word_of v = (case v of Vint w \<Rightarrow> Some w | _ \<Rightarrow> None)"

definition get :: "x86 \<Rightarrow> gpr \<Rightarrow> u64 option" where
  "get s r = word_of (xregs s r)"

definition put :: "gpr \<Rightarrow> val \<Rightarrow> x86 \<Rightarrow> x86" where
  "put r v s = s\<lparr>xregs := (xregs s)(r := v)\<rparr>"

definition set_flags :: "xflags option \<Rightarrow> x86 \<Rightarrow> x86" where
  "set_flags f s = s\<lparr>xflags := f\<rparr>"

text \<open>The eight bytes at \<open>[base + off]\<close>: a register of the guest.\<close>

definition mem_slot :: "x86 \<Rightarrow> gpr \<Rightarrow> nat \<Rightarrow> nat option" where
  "mem_slot s base off =
    (if xregs s base = Vregs \<and> off mod 8 = 0 \<and> off div 8 < length (regs (guest s)) then Some (off div 8) else None)"

definition mem_get :: "x86 \<Rightarrow> gpr \<Rightarrow> nat \<Rightarrow> u64 option" where
  "mem_get s base off = map_option (\<lambda>i. regs (guest s) ! i) (mem_slot s base off)"

definition mem_put :: "gpr \<Rightarrow> nat \<Rightarrow> u64 \<Rightarrow> x86 \<Rightarrow> x86 option" where
  "mem_put base off w s = do {
     i \<leftarrow> mem_slot s base off;
     Some (s\<lparr>guest := (guest s)\<lparr>regs := (regs (guest s))[i := w]\<rparr>\<rparr>)
   }"

text \<open>A 32-bit operation reads the low halves and clears the high half of its destination.\<close>

fun alu :: "alu_op \<Rightarrow> 'a::len word \<Rightarrow> 'a word \<Rightarrow> 'a word" where
  "alu XAdd a b = a + b"
| "alu XSub a b = a - b"
| "alu XAnd a b = a AND b"
| "alu XOr a b = a OR b"
| "alu XXor a b = a XOR b"
| "alu XImul a b = a * b"

fun alu_sized :: "alu_op \<Rightarrow> opsize \<Rightarrow> u64 \<Rightarrow> u64 \<Rightarrow> u64" where
  "alu_sized op QWORD a b = alu op a b"
| "alu_sized op DWORD a b = ucast (alu op (lo32 a) (lo32 b))"

fun shift_by :: "xshift \<Rightarrow> 'a::len word \<Rightarrow> nat \<Rightarrow> 'a word" where
  "shift_by XShl a n = shl a n"
| "shift_by XShr a n = shr a n"
| "shift_by XSar a n = sar a n"

text \<open>The count is taken modulo the operand size.\<close>

fun shift_sized :: "xshift \<Rightarrow> opsize \<Rightarrow> u64 \<Rightarrow> u8 \<Rightarrow> u64" where
  "shift_sized op QWORD a n = shift_by op a (unat n mod 64)"
| "shift_sized op DWORD a n = ucast (shift_by op (lo32 a) (unat n mod 32))"

definition cmp_flags :: "u64 \<Rightarrow> u64 \<Rightarrow> xflags" where
  "cmp_flags a b = \<lparr>zf = (a = b), sf = bit (a - b) 63, cf = (a < b),
     ovf = (sint (a - b) \<noteq> sint a - sint b)\<rparr>"

definition test_flags :: "'a::len word \<Rightarrow> xflags" where
  "test_flags w = \<lparr>zf = (w = 0), sf = bit w (LENGTH('a) - 1), cf = False, ovf = False\<rparr>"

fun holds :: "cond \<Rightarrow> xflags \<Rightarrow> bool" where
  "holds CondE f \<longleftrightarrow> zf f"
| "holds CondNE f \<longleftrightarrow> \<not> zf f"
| "holds CondL f \<longleftrightarrow> sf f \<noteq> ovf f"
| "holds CondGE f \<longleftrightarrow> sf f = ovf f"
| "holds CondB f \<longleftrightarrow> cf f"
| "holds CondAE f \<longleftrightarrow> \<not> cf f"

text \<open>The low byte set to 0 or 1.\<close>

definition set_al :: "u64 \<Rightarrow> bool \<Rightarrow> u64" where
  "set_al a p = (a AND NOT 0xFF) OR of_bool p"

text \<open>
  The one-operand multiplication: \<open>rdx:rax := rax * src\<close>.  The division: \<open>rdx:rax\<close> by \<open>src\<close>, quotient
  to \<open>rax\<close> and remainder to \<open>rdx\<close>; a zero divisor or a quotient that does not fit is a divide error.
\<close>

definition mul_wide :: "bool \<Rightarrow> u64 \<Rightarrow> u64 \<Rightarrow> u64 \<times> u64" where
  "mul_wide sgn_op a b =
    (let p = (if sgn_op then (scast a :: u128) * scast b else ucast a * ucast b)
     in (ucast (shr p 64), ucast p))"

definition div_wide :: "bool \<Rightarrow> u64 \<Rightarrow> u64 \<Rightarrow> u64 \<Rightarrow> (u64 \<times> u64) option" where
  "div_wide sgn_op hi lo d =
    (if d = 0 then None
     else if sgn_op then
       let n = sint hi * 2 ^ 64 + uint lo; q = n sdiv sint d; r = n smod sint d
       in if - (2 ^ 63) \<le> q \<and> q < 2 ^ 63 then Some (word_of_int q, word_of_int r) else None
     else
       let n = uint hi * 2 ^ 64 + uint lo; q = n div uint d; r = n mod uint d
       in if q < 2 ^ 64 then Some (word_of_int q, word_of_int r) else None)"

definition div_wide32 :: "u32 \<Rightarrow> u32 \<Rightarrow> u32 \<Rightarrow> (u32 \<times> u32) option" where
  "div_wide32 hi lo d =
    (if d = 0 then None
     else
       let n = uint hi * 2 ^ 32 + uint lo; q = n div uint d; r = n mod uint d
       in if q < 2 ^ 32 then Some (word_of_int q, word_of_int r) else None)"

section \<open>Straight-line instructions\<close>

text \<open>The exclusive or of a register with itself is zero, whatever the register holds.\<close>

fun exec1 :: "insn \<Rightarrow> x86 \<Rightarrow> x86 option" where
  "exec1 (MovRR d r) s = Some (put d (xregs s r) s)"
| "exec1 (MovRM sz d base off) s = do {
     w \<leftarrow> mem_get s base off;
     Some (put d (Vint (case sz of QWORD \<Rightarrow> w | DWORD \<Rightarrow> ucast (lo32 w))) s)
   }"
| "exec1 (MovMR base off r) s = do { w \<leftarrow> get s r; mem_put base off w s }"
| "exec1 (MovPc base r) s = do {
     w \<leftarrow> get s r;
     if xregs s base = Vcpu then Some (s\<lparr>guest := (guest s)\<lparr>pc := w\<rparr>\<rparr>) else None
   }"
| "exec1 (MovRI d w) s = Some (put d (Vint w) s)"
| "exec1 (MovRI32 d i) s = Some (put d (Vint (scast i)) s)"
| "exec1 (MovRH d h) s = Some (put d (Vhelper h) s)"
| "exec1 (AluRR op sz d r) s =
     (if op = XXor \<and> d = r then Some (put d (Vint 0) (set_flags None s))
      else do {
        a \<leftarrow> get s d;
        b \<leftarrow> get s r;
        Some (put d (Vint (alu_sized op sz a b)) (set_flags None s))
      })"
| "exec1 (AluRM op sz d base off) s = do {
     a \<leftarrow> get s d;
     b \<leftarrow> mem_get s base off;
     Some (put d (Vint (alu_sized op sz a b)) (set_flags None s))
   }"
| "exec1 (AluRI op sz d i) s = do {
     a \<leftarrow> get s d;
     Some (put d (Vint (alu_sized op sz a (scast i))) (set_flags None s))
   }"
| "exec1 (CmpRR a b) s = do {
     x \<leftarrow> get s a;
     y \<leftarrow> get s b;
     Some (set_flags (Some (cmp_flags x y)) s)
   }"
| "exec1 (CmpRM a base off) s = do {
     x \<leftarrow> get s a;
     y \<leftarrow> mem_get s base off;
     Some (set_flags (Some (cmp_flags x y)) s)
   }"
| "exec1 (CmpRI a i) s = do {
     x \<leftarrow> get s a;
     Some (set_flags (Some (cmp_flags x (scast i))) s)
   }"
| "exec1 (TestRR sz a b) s = do {
     x \<leftarrow> get s a;
     y \<leftarrow> get s b;
     Some (set_flags (Some (case sz of
       QWORD \<Rightarrow> test_flags (x AND y) | DWORD \<Rightarrow> test_flags (lo32 x AND lo32 y))) s)
   }"
| "exec1 (ShiftCL op sz d) s = do {
     a \<leftarrow> get s d;
     n \<leftarrow> get s RCX;
     Some (put d (Vint (shift_sized op sz a (ucast n))) (set_flags None s))
   }"
| "exec1 (ShiftI op sz d n) s = do {
     a \<leftarrow> get s d;
     Some (put d (Vint (shift_sized op sz a n)) (set_flags None s))
   }"
| "exec1 (SetccAL cc) s = do {
     a \<leftarrow> get s RAX;
     f \<leftarrow> xflags s;
     Some (put RAX (Vint (set_al a (holds cc f))) s)
   }"
| "exec1 (MovzxAL d) s = do { a \<leftarrow> get s RAX; Some (put d (Vint (a AND 0xFF)) s) }"
| "exec1 (MovsxdRR d r) s = do { a \<leftarrow> get s r; Some (put d (Vint (scast (lo32 a))) s) }"
| "exec1 (MovsxRM n d base off) s = do {
     w \<leftarrow> mem_get s base off;
     Some (put d (Vint (signed_take_bit (8 * n - 1) w)) s)
   }"
| "exec1 (Mul1 sgn_op r) s = do {
     a \<leftarrow> get s RAX;
     b \<leftarrow> get s r;
     let (hi, lo) = mul_wide sgn_op a b;
     Some (put RDX (Vint hi) (put RAX (Vint lo) (set_flags None s)))
   }"
| "exec1 (Div1 sgn_op sz r) s = do {
     hi \<leftarrow> get s RDX;
     lo \<leftarrow> get s RAX;
     d \<leftarrow> get s r;
     (q, m) \<leftarrow> (case sz of
        QWORD \<Rightarrow> div_wide sgn_op hi lo d
      | DWORD \<Rightarrow> if sgn_op then None else map_option (map_prod ucast ucast) (div_wide32 (lo32 hi) (lo32 lo) (lo32 d)));
     Some (put RDX (Vint m) (put RAX (Vint q) (set_flags None s)))
   }"
| "exec1 Cqo s = do { a \<leftarrow> get s RAX; Some (put RDX (Vint (if bit a 63 then -1 else 0)) s) }"
| "exec1 (Push r) s = Some (s\<lparr>xstack := xregs s r # xstack s\<rparr>)"
| "exec1 (Pop r) s = (case xstack s of v # st \<Rightarrow> Some (put r v (s\<lparr>xstack := st\<rparr>)) | [] \<Rightarrow> None)"
| "exec1 SubRsp s = Some (set_flags None (s\<lparr>xstack := Vundef # xstack s\<rparr>))"
| "exec1 AddRsp s = (case xstack s of _ # st \<Rightarrow> Some (set_flags None (s\<lparr>xstack := st\<rparr>)) | [] \<Rightarrow> None)"
| "exec1 _ s = None"

section \<open>Memory helpers\<close>

text \<open>
  \<open>jit_load8\<close> to \<open>jit_load64\<close> and \<open>jit_store8\<close> to \<open>jit_store64\<close>, by access width: translation in the
  current mode, then the bus; every failure is \<open>u64::MAX\<close>.
\<close>

definition jit_load :: "nat \<Rightarrow> cpu \<Rightarrow> u64 \<Rightarrow> (cpu \<times> u64) option" where
  "jit_load width c addr = do {
     (c, t) \<leftarrow> Cpu_translate c (mode c) addr AccessType_Load;
     case t of
       Inl _ \<Rightarrow> Some (c, u64_MAX)
     | Inr pa \<Rightarrow> do {
         (c, r) \<leftarrow> Cpu_load c pa width;
         Some (c, case r of Inl _ \<Rightarrow> u64_MAX | Inr v \<Rightarrow> v)
       }
   }"

definition jit_store :: "nat \<Rightarrow> cpu \<Rightarrow> u64 \<Rightarrow> u64 \<Rightarrow> (cpu \<times> u64) option" where
  "jit_store width c addr v = do {
     (c, t) \<leftarrow> Cpu_translate c (mode c) addr AccessType_Store;
     case t of
       Inl _ \<Rightarrow> Some (c, u64_MAX)
     | Inr pa \<Rightarrow> do {
         (c, r) \<leftarrow> Cpu_store c pa width v;
         Some (c, case r of Inr _ \<Rightarrow> 0 | Inl _ \<Rightarrow> u64_MAX)
       }
   }"

section \<open>Running code\<close>

text \<open>\<open>NoReturn\<close>: a helper's access did not return (the block device's queue).\<close>

datatype (plugins only: code) outcome = Returned val x86 | Stuck | NoReturn

text \<open>
  A call of a helper under the SysV convention: arguments in \<open>rdi\<close>, \<open>rsi\<close>, \<open>rdx\<close>, result in \<open>rax\<close>, the
  caller-saved registers and the flags lost.  The stack has to be 16-byte aligned at the call; it was
  before the block's return address was pushed, so the words pushed since then, that one included,
  have to be even in number.
\<close>

definition call_helper :: "helper \<Rightarrow> x86 \<Rightarrow> x86 option option" where
  "call_helper h s =
    (if xregs s RDI \<noteq> Vcpu \<or> odd (length (xstack s)) then None
     else case (get s RSI, h) of
       (Some a, JitLoad n) \<Rightarrow> Some (do {
          (c, v) \<leftarrow> jit_load n (guest s) a;
          Some (s\<lparr>guest := c, xflags := None, xregs := (xregs s)(RAX := Vint v, RCX := Vundef, RDX := Vundef,
            RSI := Vundef, RDI := Vundef)\<rparr>) })
     | (Some a, JitStore n) \<Rightarrow> (case get s RDX of
          Some w \<Rightarrow> Some (do {
            (c, v) \<leftarrow> jit_store n (guest s) a w;
            Some (s\<lparr>guest := c, xflags := None, xregs := (xregs s)(RAX := Vint v, RCX := Vundef, RDX := Vundef,
              RSI := Vundef, RDI := Vundef)\<rparr>) })
        | None \<Rightarrow> None)
     | _ \<Rightarrow> None)"

text \<open>The code after a label.  Every jump of the compiler goes forward.\<close>

fun after :: "label \<Rightarrow> insn list \<Rightarrow> insn list" where
  "after l [] = []"
| "after l (i # is) = (if i = Label l then is else after l is)"

lemma length_after: "length (after l is) \<le> length is"
  by (induction "is") auto

function run :: "insn list \<Rightarrow> x86 \<Rightarrow> outcome" where
  "run [] s = Stuck"
| "run (i # is) s = (case i of
     Label _ \<Rightarrow> run is s
   | Jmp l \<Rightarrow> run (after l is) s
   | Jcc cc l \<Rightarrow> (case xflags s of
       None \<Rightarrow> Stuck
     | Some f \<Rightarrow> if holds cc f then run (after l is) s else run is s)
   | Call r \<Rightarrow> (case xregs s r of
       Vhelper h \<Rightarrow> (case call_helper h s of
         None \<Rightarrow> Stuck | Some None \<Rightarrow> NoReturn | Some (Some s') \<Rightarrow> run is s')
     | _ \<Rightarrow> Stuck)
   | Ret \<Rightarrow> (case xstack s of
       Vret # st \<Rightarrow> Returned (xregs s RAX) (s\<lparr>xstack := st\<rparr>)
     | _ \<Rightarrow> Stuck)
   | _ \<Rightarrow> (case exec1 i s of None \<Rightarrow> Stuck | Some s' \<Rightarrow> run is s'))"
  by pat_completeness auto
termination
  by (relation "measure (length \<circ> fst)") (auto simp: length_after less_Suc_eq_le)

end
