(* ===== verification/Jit.thy ===== *)
theory Jit
  imports X86
begin

text \<open>
  The just-in-time compiler: \<open>src/jit.rs\<close>.  An emitter is the list of instructions its \<open>dynasm!\<close>
  blocks append, and a compiled block is the list of all of them.  The dynamic labels of the \<open>n\<close>-th
  instruction of a block are \<open>Dyn (2 * n)\<close> and \<open>Dyn (2 * n + 1)\<close>; the source numbers them in the
  order of \<open>new_dynamic_label\<close>, which only has to keep them apart.
\<close>

section \<open>Emitters\<close>

definition emit_prologue :: "insn list" where
  "emit_prologue = [Push R15, Push R14, SubRsp, MovRR R15 RDI, MovRR R14 RSI]"

definition emit_return :: "u64 \<Rightarrow> insn list" where
  "emit_return next_pc = [AddRsp, Pop R14, Pop R15, MovRI RAX next_pc, Ret]"

definition emit_slow_path :: "insn list" where
  "emit_slow_path = [AddRsp, Pop R14, Pop R15, MovRI RAX (-1), Ret]"

definition emit_fault_return :: "u64 \<Rightarrow> insn list" where
  "emit_fault_return fault_pc =
    [MovRI RAX fault_pc, MovPc R14 RAX, AddRsp, Pop R14, Pop R15, MovRI RAX (-1), Ret]"

text \<open>\<open>if rd != 0 { mov QWORD [r15 + rd_off], rax }\<close>\<close>

definition put_rd :: "nat \<Rightarrow> insn list" where
  "put_rd rd = (if rd \<noteq> 0 then [MovMR R15 (rd * 8) RAX] else [])"

definition emit_load :: "nat \<Rightarrow> nat \<Rightarrow> nat \<Rightarrow> i64 \<Rightarrow> nat \<Rightarrow> u64 \<Rightarrow> insn list" where
  "emit_load lb rd rs1 imm width guest_pc =
    [MovRM QWORD RSI R15 (rs1 * 8), AluRI XAdd QWORD RSI (ucast imm), MovRR RDI R14,
     MovRH RAX (JitLoad width), Call RAX, CmpRI RAX (-1), Jcc CondE (Dyn lb)] @
    put_rd rd @
    [Jmp (Dyn (lb + 1)), Label (Dyn lb)] @ emit_fault_return guest_pc @ [Label (Dyn (lb + 1))]"

definition emit_store :: "nat \<Rightarrow> nat \<Rightarrow> nat \<Rightarrow> i64 \<Rightarrow> nat \<Rightarrow> u64 \<Rightarrow> insn list" where
  "emit_store lb rs1 rs2 imm width guest_pc =
    [MovRM QWORD RSI R15 (rs1 * 8), AluRI XAdd QWORD RSI (ucast imm), MovRM QWORD RDX R15 (rs2 * 8),
     MovRR RDI R14, MovRH RAX (JitStore width), Call RAX, CmpRI RAX (-1), Jcc CondE (Dyn lb),
     Jmp (Dyn (lb + 1)), Label (Dyn lb)] @ emit_fault_return guest_pc @ [Label (Dyn (lb + 1))]"

definition emit_r_op :: "nat \<Rightarrow> nat \<Rightarrow> nat \<Rightarrow> insn list \<Rightarrow> insn list" where
  "emit_r_op rd rs1 rs2 op =
    [MovRM QWORD RAX R15 (rs1 * 8), MovRM QWORD RCX R15 (rs2 * 8)] @ op @ put_rd rd"

definition emit_i_op :: "nat \<Rightarrow> nat \<Rightarrow> i64 \<Rightarrow> (u32 \<Rightarrow> insn list) \<Rightarrow> insn list" where
  "emit_i_op rd rs1 imm op = [MovRM QWORD RAX R15 (rs1 * 8)] @ op (ucast imm) @ put_rd rd"

definition emit_w_op :: "nat \<Rightarrow> nat \<Rightarrow> nat \<Rightarrow> insn list \<Rightarrow> insn list" where
  "emit_w_op rd rs1 rs2 op =
    [MovRM DWORD RAX R15 (rs1 * 8), MovRM DWORD RCX R15 (rs2 * 8)] @ op @ [MovsxdRR RAX RAX] @ put_rd rd"

section \<open>Instructions of 32 bits\<close>

text \<open>The register-register arms: what stands between the two loads and the store of each.\<close>

definition emit_shift_r :: "xshift \<Rightarrow> nat \<Rightarrow> nat \<Rightarrow> nat \<Rightarrow> insn list" where
  "emit_shift_r sh rd rs1 rs2 =
    [MovRM QWORD RAX R15 (rs1 * 8), MovRM QWORD RCX R15 (rs2 * 8), AluRI XAnd QWORD RCX 63,
     ShiftCL sh QWORD RAX] @ put_rd rd"

definition emit_shift_w :: "xshift \<Rightarrow> nat \<Rightarrow> nat \<Rightarrow> nat \<Rightarrow> insn list" where
  "emit_shift_w sh rd rs1 rs2 =
    [MovRM DWORD RAX R15 (rs1 * 8), MovRM DWORD RCX R15 (rs2 * 8), AluRI XAnd DWORD RCX 31,
     ShiftCL sh DWORD RAX, MovsxdRR RAX RAX] @ put_rd rd"

definition emit_set_r :: "cond \<Rightarrow> nat \<Rightarrow> nat \<Rightarrow> nat \<Rightarrow> insn list" where
  "emit_set_r cc rd rs1 rs2 =
    [MovRM QWORD RAX R15 (rs1 * 8), CmpRM RAX R15 (rs2 * 8), SetccAL cc, MovzxAL RAX] @ put_rd rd"

fun emit_r :: "r_op \<Rightarrow> nat \<Rightarrow> nat \<Rightarrow> nat \<Rightarrow> insn list" where
  "emit_r Add rd rs1 rs2 = emit_r_op rd rs1 rs2 [AluRR XAdd QWORD RAX RCX]"
| "emit_r Sub rd rs1 rs2 = emit_r_op rd rs1 rs2 [AluRR XSub QWORD RAX RCX]"
| "emit_r And rd rs1 rs2 = emit_r_op rd rs1 rs2 [AluRR XAnd QWORD RAX RCX]"
| "emit_r Or rd rs1 rs2 = emit_r_op rd rs1 rs2 [AluRR XOr QWORD RAX RCX]"
| "emit_r Xor rd rs1 rs2 = emit_r_op rd rs1 rs2 [AluRR XXor QWORD RAX RCX]"
| "emit_r Sll rd rs1 rs2 = emit_shift_r XShl rd rs1 rs2"
| "emit_r Srl rd rs1 rs2 = emit_shift_r XShr rd rs1 rs2"
| "emit_r Sra rd rs1 rs2 = emit_shift_r XSar rd rs1 rs2"
| "emit_r Slt rd rs1 rs2 = emit_set_r CondL rd rs1 rs2"
| "emit_r Sltu rd rs1 rs2 = emit_set_r CondB rd rs1 rs2"
| "emit_r Addw rd rs1 rs2 = emit_w_op rd rs1 rs2 [AluRR XAdd DWORD RAX RCX]"
| "emit_r Subw rd rs1 rs2 = emit_w_op rd rs1 rs2 [AluRR XSub DWORD RAX RCX]"
| "emit_r Sllw rd rs1 rs2 = emit_shift_w XShl rd rs1 rs2"
| "emit_r Srlw rd rs1 rs2 = emit_shift_w XShr rd rs1 rs2"
| "emit_r Sraw rd rs1 rs2 = emit_shift_w XSar rd rs1 rs2"

definition emit_set_i :: "cond \<Rightarrow> nat \<Rightarrow> nat \<Rightarrow> i64 \<Rightarrow> insn list" where
  "emit_set_i cc rd rs1 imm =
    [MovRM QWORD RAX R15 (rs1 * 8), CmpRI RAX (ucast imm), SetccAL cc, MovzxAL RAX] @ put_rd rd"

fun emit_i :: "i_op \<Rightarrow> nat \<Rightarrow> nat \<Rightarrow> i64 \<Rightarrow> insn list" where
  "emit_i Addi rd rs1 imm =
     [MovRM QWORD RAX R15 (rs1 * 8), AluRI XAdd QWORD RAX (ucast imm)] @ put_rd rd"
| "emit_i Andi rd rs1 imm = emit_i_op rd rs1 imm (\<lambda>i. [AluRI XAnd QWORD RAX i])"
| "emit_i Ori rd rs1 imm = emit_i_op rd rs1 imm (\<lambda>i. [AluRI XOr QWORD RAX i])"
| "emit_i Xori rd rs1 imm = emit_i_op rd rs1 imm (\<lambda>i. [AluRI XXor QWORD RAX i])"
| "emit_i Slti rd rs1 imm = emit_set_i CondL rd rs1 imm"
| "emit_i Sltiu rd rs1 imm = emit_set_i CondB rd rs1 imm"
| "emit_i Addiw rd rs1 imm =
     [MovRM DWORD RAX R15 (rs1 * 8), AluRI XAdd DWORD RAX (ucast imm), MovsxdRR RAX RAX] @ put_rd rd"

definition emit_shift_i :: "xshift \<Rightarrow> nat \<Rightarrow> nat \<Rightarrow> nat \<Rightarrow> insn list" where
  "emit_shift_i sh rd rs1 shamt =
    [MovRM QWORD RAX R15 (rs1 * 8), ShiftI sh QWORD RAX (of_nat shamt)] @ put_rd rd"

definition emit_shift_iw :: "xshift \<Rightarrow> nat \<Rightarrow> nat \<Rightarrow> nat \<Rightarrow> insn list" where
  "emit_shift_iw sh rd rs1 shamt =
    [MovRM DWORD RAX R15 (rs1 * 8), ShiftI sh DWORD RAX (of_nat shamt), MovsxdRR RAX RAX] @ put_rd rd"

fun emit_shift :: "shift_op \<Rightarrow> nat \<Rightarrow> nat \<Rightarrow> nat \<Rightarrow> insn list" where
  "emit_shift Slli rd rs1 shamt = emit_shift_i XShl rd rs1 shamt"
| "emit_shift Srli rd rs1 shamt = emit_shift_i XShr rd rs1 shamt"
| "emit_shift Srai rd rs1 shamt = emit_shift_i XSar rd rs1 shamt"
| "emit_shift Slliw rd rs1 shamt = emit_shift_iw XShl rd rs1 shamt"
| "emit_shift Srliw rd rs1 shamt = emit_shift_iw XShr rd rs1 shamt"
| "emit_shift Sraiw rd rs1 shamt = emit_shift_iw XSar rd rs1 shamt"

text \<open>Multiplication and division; \<open>done\<close> is \<open>Dyn lb\<close>.  \<open>Mulhsu\<close> has no code.\<close>

definition emit_mulh :: "bool \<Rightarrow> nat \<Rightarrow> nat \<Rightarrow> nat \<Rightarrow> insn list" where
  "emit_mulh sgn_op rd rs1 rs2 =
    [MovRM QWORD RAX R15 (rs1 * 8), MovRM QWORD RCX R15 (rs2 * 8), Mul1 sgn_op RCX, MovRR RAX RDX] @ put_rd rd"

definition emit_divw :: "nat \<Rightarrow> nat \<Rightarrow> nat \<Rightarrow> nat \<Rightarrow> insn list" where
  "emit_divw lb rd rs1 rs2 =
    [MovsxRM 4 RAX R15 (rs1 * 8), MovsxRM 4 RCX R15 (rs2 * 8),
     TestRR QWORD RCX RCX, Jcc CondNE NotZero, MovRI RAX (-1), Jmp (Dyn lb), Label NotZero,
     MovRI RDX (scast i32_MIN), CmpRR RAX RDX, Jcc CondNE NoOverflow, CmpRI RCX (-1), Jcc CondNE NoOverflow,
     Jmp (Dyn lb), Label NoOverflow,
     Cqo, Div1 True QWORD RCX, MovsxdRR RAX RAX, Label (Dyn lb)] @ put_rd rd"

definition emit_divuw :: "nat \<Rightarrow> nat \<Rightarrow> nat \<Rightarrow> nat \<Rightarrow> insn list" where
  "emit_divuw lb rd rs1 rs2 =
    [MovRM DWORD RAX R15 (rs1 * 8), MovRM DWORD RCX R15 (rs2 * 8),
     TestRR DWORD RCX RCX, Jcc CondNE NotZero, MovRI RAX (-1), Jmp (Dyn lb), Label NotZero,
     AluRR XXor DWORD RDX RDX, Div1 False DWORD RCX, MovsxdRR RAX RAX, Label (Dyn lb)] @ put_rd rd"

definition emit_remw :: "nat \<Rightarrow> nat \<Rightarrow> nat \<Rightarrow> nat \<Rightarrow> insn list" where
  "emit_remw lb rd rs1 rs2 =
    [MovsxRM 4 RAX R15 (rs1 * 8), MovsxRM 4 RCX R15 (rs2 * 8),
     TestRR QWORD RCX RCX, Jcc CondNE NotZero, MovsxdRR RAX RAX, Jmp (Dyn lb), Label NotZero,
     MovRI RDX (scast i32_MIN), CmpRR RAX RDX, Jcc CondNE NoOverflow, CmpRI RCX (-1), Jcc CondNE NoOverflow,
     AluRR XXor DWORD RAX RAX, Jmp (Dyn lb), Label NoOverflow,
     Cqo, Div1 True QWORD RCX, MovsxdRR RAX RDX, Label (Dyn lb)] @ put_rd rd"

definition emit_remuw :: "nat \<Rightarrow> nat \<Rightarrow> nat \<Rightarrow> nat \<Rightarrow> insn list" where
  "emit_remuw lb rd rs1 rs2 =
    [MovRM DWORD RAX R15 (rs1 * 8), MovRM DWORD RCX R15 (rs2 * 8),
     TestRR DWORD RCX RCX, Jcc CondNE NotZero, MovsxdRR RAX RAX, Jmp (Dyn lb), Label NotZero,
     AluRR XXor DWORD RDX RDX, Div1 False DWORD RCX, MovsxdRR RAX RDX, Label (Dyn lb)] @ put_rd rd"

fun emit_m :: "nat \<Rightarrow> m_op \<Rightarrow> nat \<Rightarrow> nat \<Rightarrow> nat \<Rightarrow> insn list option" where
  "emit_m lb Mul rd rs1 rs2 = Some (emit_r_op rd rs1 rs2 [AluRR XImul QWORD RAX RCX])"
| "emit_m lb Mulh rd rs1 rs2 = Some (emit_mulh True rd rs1 rs2)"
| "emit_m lb Mulhu rd rs1 rs2 = Some (emit_mulh False rd rs1 rs2)"
| "emit_m lb Mulhsu rd rs1 rs2 = None"
| "emit_m lb Mulw rd rs1 rs2 = Some (
    [MovRM DWORD RAX R15 (rs1 * 8), AluRM XImul DWORD RAX R15 (rs2 * 8), MovsxdRR RAX RAX] @ put_rd rd)"
| "emit_m lb Div rd rs1 rs2 = Some (
    [MovRM QWORD RAX R15 (rs1 * 8), MovRM QWORD RCX R15 (rs2 * 8),
     TestRR QWORD RCX RCX, Jcc CondNE NotZero, MovRI RAX (-1), Jmp (Dyn lb), Label NotZero,
     MovRI RDX i64_MIN, CmpRR RAX RDX, Jcc CondNE NoOverflow, CmpRI RCX (-1), Jcc CondNE NoOverflow,
     Jmp (Dyn lb), Label NoOverflow,
     Cqo, Div1 True QWORD RCX, Label (Dyn lb)] @ put_rd rd)"
| "emit_m lb Divu rd rs1 rs2 = Some (
    [MovRM QWORD RAX R15 (rs1 * 8), MovRM QWORD RCX R15 (rs2 * 8),
     TestRR QWORD RCX RCX, Jcc CondNE NotZero, MovRI RAX (-1), Jmp (Dyn lb), Label NotZero,
     AluRR XXor QWORD RDX RDX, Div1 False QWORD RCX, Label (Dyn lb)] @ put_rd rd)"
| "emit_m lb Rem rd rs1 rs2 = Some (
    [MovRM QWORD RAX R15 (rs1 * 8), MovRM QWORD RCX R15 (rs2 * 8),
     TestRR QWORD RCX RCX, Jcc CondNE NotZero, Jmp (Dyn lb), Label NotZero,
     MovRI RDX i64_MIN, CmpRR RAX RDX, Jcc CondNE NoOverflow, CmpRI RCX (-1), Jcc CondNE NoOverflow,
     AluRR XXor DWORD RAX RAX, Jmp (Dyn lb), Label NoOverflow,
     Cqo, Div1 True QWORD RCX, MovRR RAX RDX, Label (Dyn lb)] @ put_rd rd)"
| "emit_m lb Remu rd rs1 rs2 = Some (
    [MovRM QWORD RAX R15 (rs1 * 8), MovRM QWORD RCX R15 (rs2 * 8),
     TestRR QWORD RCX RCX, Jcc CondNE NotZero, Jmp (Dyn lb), Label NotZero,
     AluRR XXor QWORD RDX RDX, Div1 False QWORD RCX, MovRR RAX RDX, Label (Dyn lb)] @ put_rd rd)"
| "emit_m lb Divw rd rs1 rs2 = Some (emit_divw lb rd rs1 rs2)"
| "emit_m lb Divuw rd rs1 rs2 = Some (emit_divuw lb rd rs1 rs2)"
| "emit_m lb Remw rd rs1 rs2 = Some (emit_remw lb rd rs1 rs2)"
| "emit_m lb Remuw rd rs1 rs2 = Some (emit_remuw lb rd rs1 rs2)"

text \<open>A load's extension, done in place on the register just written.\<close>

definition extend_rd :: "nat \<Rightarrow> nat \<Rightarrow> insn list" where
  "extend_rd n rd = (if rd \<noteq> 0 then [MovsxRM n RAX R15 (rd * 8), MovMR R15 (rd * 8) RAX] else [])"

fun emit_load_op :: "nat \<Rightarrow> load_op \<Rightarrow> nat \<Rightarrow> nat \<Rightarrow> i64 \<Rightarrow> u64 \<Rightarrow> insn list" where
  "emit_load_op lb Lb rd rs1 imm gpc = emit_load lb rd rs1 imm 1 gpc @ extend_rd 1 rd"
| "emit_load_op lb Lh rd rs1 imm gpc = emit_load lb rd rs1 imm 2 gpc @ extend_rd 2 rd"
| "emit_load_op lb Lw rd rs1 imm gpc = emit_load lb rd rs1 imm 4 gpc @ extend_rd 4 rd"
| "emit_load_op lb Ld rd rs1 imm gpc = emit_load lb rd rs1 imm 8 gpc"
| "emit_load_op lb Lbu rd rs1 imm gpc = emit_load lb rd rs1 imm 1 gpc"
| "emit_load_op lb Lhu rd rs1 imm gpc = emit_load lb rd rs1 imm 2 gpc"
| "emit_load_op lb Lwu rd rs1 imm gpc = emit_load lb rd rs1 imm 4 gpc"

fun branch_cond :: "branch_op \<Rightarrow> cond" where
  "branch_cond Beq = CondE"
| "branch_cond Bne = CondNE"
| "branch_cond Blt = CondL"
| "branch_cond Bge = CondGE"
| "branch_cond Bltu = CondB"
| "branch_cond Bgeu = CondAE"

definition emit_branch :: "nat \<Rightarrow> branch_op \<Rightarrow> nat \<Rightarrow> nat \<Rightarrow> u64 \<Rightarrow> u64 \<Rightarrow> insn list" where
  "emit_branch lb op rs1 rs2 taken_pc fall_pc =
    [MovRM QWORD RAX R15 (rs1 * 8), CmpRM RAX R15 (rs2 * 8), Jcc (branch_cond op) (Dyn lb)] @
    emit_return fall_pc @ [Label (Dyn lb)] @ emit_return taken_pc"

text \<open>Return to the address in \<open>rcx\<close>.\<close>

definition emit_return_rcx :: "insn list" where
  "emit_return_rcx = [AddRsp, Pop R14, Pop R15, MovRR RAX RCX, Ret]"

definition emit_jalr :: "nat \<Rightarrow> nat \<Rightarrow> i64 \<Rightarrow> u64 \<Rightarrow> insn list" where
  "emit_jalr rd rs1 imm link_pc =
    [MovRM QWORD RCX R15 (rs1 * 8)] @
    (if rd \<noteq> 0 then [MovRI RAX link_pc, MovMR R15 (rd * 8) RAX] else []) @
    [AluRI XAdd QWORD RCX (ucast imm), AluRI XAnd QWORD RCX (-2)] @ emit_return_rcx"

datatype (plugins only: code) rvc_effect = Seq | Terminal | Unhandled

definition emit_lui :: "nat \<Rightarrow> i64 \<Rightarrow> insn list" where
  "emit_lui rd imm = (if rd \<noteq> 0 then [MovRI RAX imm, MovMR R15 (rd * 8) RAX] else [])"

definition emit_auipc :: "nat \<Rightarrow> i64 \<Rightarrow> u64 \<Rightarrow> insn list" where
  "emit_auipc rd imm guest_pc =
    (if rd \<noteq> 0 then [MovRI RAX (guest_pc + imm), MovMR R15 (rd * 8) RAX] else [])"

definition emit_jal :: "nat \<Rightarrow> i64 \<Rightarrow> u64 \<Rightarrow> u64 \<Rightarrow> insn list" where
  "emit_jal rd imm guest_pc link_pc =
    (if rd \<noteq> 0 then [MovRI RAX link_pc, MovMR R15 (rd * 8) RAX] else []) @ emit_return (guest_pc + imm)"

fun emit_inst :: "nat \<Rightarrow> u64 \<Rightarrow> u64 \<Rightarrow> instruction \<Rightarrow> insn list \<times> rvc_effect" where
  "emit_inst lb gpc nxt (RType op rd rs1 rs2) = (emit_r op rd rs1 rs2, Seq)"
| "emit_inst lb gpc nxt (IType op rd rs1 imm) = (emit_i op rd rs1 imm, Seq)"
| "emit_inst lb gpc nxt (Shift op rd rs1 shamt) = (emit_shift op rd rs1 shamt, Seq)"
| "emit_inst lb gpc nxt (MType op rd rs1 rs2) =
     (case emit_m lb op rd rs1 rs2 of Some code \<Rightarrow> (code, Seq) | None \<Rightarrow> ([], Unhandled))"
| "emit_inst lb gpc nxt (Lui rd imm) =
     (emit_lui rd imm, Seq)"
| "emit_inst lb gpc nxt (Auipc rd imm) =
     (emit_auipc rd imm gpc, Seq)"
| "emit_inst lb gpc nxt (Load op rd rs1 imm) = (emit_load_op lb op rd rs1 imm gpc, Seq)"
| "emit_inst lb gpc nxt (Store op rs1 rs2 imm) = (emit_store lb rs1 rs2 imm (store_width op) gpc, Seq)"
| "emit_inst lb gpc nxt (Branch op rs1 rs2 imm) = (emit_branch lb op rs1 rs2 (gpc + imm) nxt, Terminal)"
| "emit_inst lb gpc nxt (Jal rd imm) =
     (emit_jal rd imm gpc nxt, Terminal)"
| "emit_inst lb gpc nxt (Jalr rd rs1 imm) = (emit_jalr rd rs1 imm nxt, Terminal)"
| "emit_inst lb gpc nxt Fence = ([], Seq)"
| "emit_inst lb gpc nxt _ = ([], Unhandled)"
section \<open>Compressed instructions\<close>

definition sign_ext :: "u64 \<Rightarrow> nat \<Rightarrow> i64" where
  "sign_ext val bits = (let shift = 64 - bits in sar (shl val shift) shift)"

definition rvc_j_imm :: "u16 \<Rightarrow> i64" where
  "rvc_j_imm raw =
    (let r = ucast raw :: u64;
         imm = shl (shr r 12 AND 1) 11 OR shl (shr r 11 AND 1) 4 OR shl (shr r 9 AND 3) 8
           OR shl (shr r 8 AND 1) 10 OR shl (shr r 7 AND 1) 6 OR shl (shr r 6 AND 1) 7
           OR shl (shr r 3 AND 7) 1 OR shl (shr r 2 AND 1) 5
     in sign_ext imm 12)"

definition rvc_b_imm :: "u16 \<Rightarrow> i64" where
  "rvc_b_imm raw =
    (let r = ucast raw :: u64;
         imm = shl (shr r 12 AND 1) 8 OR shl (shr r 10 AND 3) 3 OR shl (shr r 5 AND 3) 6
           OR shl (shr r 3 AND 3) 1 OR shl (shr r 2 AND 1) 5
     in sign_ext imm 9)"

text \<open>The six-bit immediate of most quadrant 1 instructions, and the shift amount in the same place.\<close>

definition rvc_imm6 :: "u16 \<Rightarrow> u64" where
  "rvc_imm6 raw = shl (ucast (shr raw 12 AND 0x1)) 5 OR (shr (ucast raw) 2 AND 0x1f)"

definition rvc_shamt :: "u16 \<Rightarrow> u8" where
  "rvc_shamt raw = ucast (shl (shr raw 12 AND 0x1) 5 OR (shr raw 2 AND 0x1f))"

text \<open>Register fields: three bits that name \<open>x8\<close> and up, and five bits.\<close>

definition rvc_reg3 :: "u16 \<Rightarrow> nat \<Rightarrow> nat" where
  "rvc_reg3 raw lo = unat (shr raw lo AND 0x7) + 8"

definition rvc_reg5 :: "u16 \<Rightarrow> nat \<Rightarrow> nat" where
  "rvc_reg5 raw lo = unat (shr raw lo AND 0x1f)"

text \<open>The commonest shape: one 64-bit operation on a register in place.\<close>

definition rvc_rmw :: "nat \<Rightarrow> insn \<Rightarrow> insn list" where
  "rvc_rmw rd op = [MovRM QWORD RAX R15 (rd * 8), op, MovMR R15 (rd * 8) RAX]"

definition emit_rvc_q0 :: "nat \<Rightarrow> u16 \<Rightarrow> nat \<Rightarrow> u64 \<Rightarrow> insn list \<times> rvc_effect" where
  "emit_rvc_q0 lb raw funct3 gpc =
    (if funct3 = 0b000 then
       let rd = rvc_reg3 raw 2;
           uimm = (shl (ucast (shr raw 11 AND 0x3)) 4 OR shl (ucast (shr raw 7 AND 0xf)) 6
             OR shl (ucast (shr raw 6 AND 0x1)) 2 OR shl (ucast (shr raw 5 AND 0x1)) 3 :: i64)
       in if uimm = 0 then ([], Unhandled)
          else ([MovRM QWORD RAX R15 (2 * 8), AluRI XAdd QWORD RAX (ucast uimm), MovMR R15 (rd * 8) RAX], Seq)
     else if funct3 = 0b011 then
       let uimm = shl (ucast (shr raw 10 AND 0x7)) 3 OR shl (ucast (shr raw 5 AND 0x3)) 6
       in (emit_load lb (rvc_reg3 raw 2) (rvc_reg3 raw 7) uimm 8 gpc, Seq)
     else if funct3 = 0b111 then
       let uimm = shl (ucast (shr raw 10 AND 0x7)) 3 OR shl (ucast (shr raw 5 AND 0x3)) 6
       in (emit_store lb (rvc_reg3 raw 7) (rvc_reg3 raw 2) uimm 8 gpc, Seq)
     else ([], Unhandled))"

definition emit_rvc_alu :: "u16 \<Rightarrow> insn list \<times> rvc_effect" where
  "emit_rvc_alu raw =
    (let op2 = shr raw 10 AND 0x3; rd = rvc_reg3 raw 7; off = rd * 8 in
     if op2 = 0b00 then (rvc_rmw rd (ShiftI XShr QWORD RAX (rvc_shamt raw)), Seq)
     else if op2 = 0b01 then (rvc_rmw rd (ShiftI XSar QWORD RAX (rvc_shamt raw)), Seq)
     else if op2 = 0b10 then (rvc_rmw rd (AluRI XAnd QWORD RAX (ucast (sign_ext (rvc_imm6 raw) 6))), Seq)
     else
       let bit12 = shr raw 12 AND 0x1; op_sel = shr raw 5 AND 0x3; rs2 = rvc_reg3 raw 2 in
       if bit12 = 0 then
         (if op_sel = 0b00 then (rvc_rmw rd (AluRM XSub QWORD RAX R15 (rs2 * 8)), Seq)
          else if op_sel = 0b01 then (rvc_rmw rd (AluRM XXor QWORD RAX R15 (rs2 * 8)), Seq)
          else if op_sel = 0b10 then (rvc_rmw rd (AluRM XOr QWORD RAX R15 (rs2 * 8)), Seq)
          else (rvc_rmw rd (AluRM XAnd QWORD RAX R15 (rs2 * 8)), Seq))
       else if op_sel = 0b00 then
         ([MovRM DWORD RAX R15 off, AluRM XSub DWORD RAX R15 (rs2 * 8), MovsxdRR RAX RAX, MovMR R15 off RAX], Seq)
       else if op_sel = 0b01 then
         ([MovRM DWORD RAX R15 off, AluRM XAdd DWORD RAX R15 (rs2 * 8), MovsxdRR RAX RAX, MovMR R15 off RAX], Seq)
       else ([], Unhandled))"

text \<open>\<open>C.BEQZ\<close> and \<open>C.BNEZ\<close>.\<close>

definition emit_rvc_branch :: "nat \<Rightarrow> cond \<Rightarrow> u16 \<Rightarrow> u64 \<Rightarrow> u64 \<Rightarrow> insn list" where
  "emit_rvc_branch lb cc raw gpc next_pc =
    [MovRM QWORD RAX R15 (rvc_reg3 raw 7 * 8), TestRR QWORD RAX RAX, Jcc cc (Dyn lb)] @
    emit_return next_pc @ [Label (Dyn lb)] @ emit_return (gpc + rvc_b_imm raw)"

definition emit_rvc_q1 :: "nat \<Rightarrow> u16 \<Rightarrow> nat \<Rightarrow> u64 \<Rightarrow> insn list \<times> rvc_effect" where
  "emit_rvc_q1 lb raw funct3 gpc =
    (let next_pc = gpc + 2; rd = rvc_reg5 raw 7; imm = ucast (sign_ext (rvc_imm6 raw) 6) :: u32 in
     if funct3 = 0b000 then
       (if rd = 0 then ([], Seq) else (rvc_rmw rd (AluRI XAdd QWORD RAX imm), Seq))
     else if funct3 = 0b001 then
       (if rd = 0 then ([], Unhandled)
        else ([MovRM DWORD RAX R15 (rd * 8), AluRI XAdd DWORD RAX imm, MovsxdRR RAX RAX,
               MovMR R15 (rd * 8) RAX], Seq))
     else if funct3 = 0b010 then
       (if rd = 0 then ([], Seq) else ([MovRI32 RAX imm, MovMR R15 (rd * 8) RAX], Seq))
     else if funct3 = 0b011 then
       (if rd = 2 then
          let nzimm_u = shl (ucast (shr raw 12 AND 0x1)) 9 OR shl (ucast (shr raw 3 AND 0x3)) 7
                OR shl (ucast (shr raw 5 AND 0x1)) 6 OR shl (ucast (shr raw 2 AND 0x1)) 5
                OR shl (ucast (shr raw 6 AND 0x1)) 4 :: u64;
              nzimm = ucast (sign_ext nzimm_u 10) :: u32
          in if nzimm = 0 then ([], Unhandled) else (rvc_rmw 2 (AluRI XAdd QWORD RAX nzimm), Seq)
        else if rd \<noteq> 0 then
          let nzimm = sign_ext (rvc_imm6 raw) 6
          in if nzimm = 0 then ([], Unhandled) else ([MovRI RAX (shl nzimm 12), MovMR R15 (rd * 8) RAX], Seq)
        else ([], Unhandled))
     else if funct3 = 0b100 then emit_rvc_alu raw
     else if funct3 = 0b101 then (emit_return (gpc + rvc_j_imm raw), Terminal)
     else if funct3 = 0b110 then (emit_rvc_branch lb CondE raw gpc next_pc, Terminal)
     else if funct3 = 0b111 then (emit_rvc_branch lb CondNE raw gpc next_pc, Terminal)
     else ([], Unhandled))"

definition emit_rvc_q2 :: "nat \<Rightarrow> u16 \<Rightarrow> nat \<Rightarrow> u64 \<Rightarrow> insn list \<times> rvc_effect" where
  "emit_rvc_q2 lb raw funct3 gpc =
    (let next_pc = gpc + 2; rd = rvc_reg5 raw 7; rs2 = rvc_reg5 raw 2 in
     if funct3 = 0b000 then
       (if rd = 0 then ([], Seq) else (rvc_rmw rd (ShiftI XShl QWORD RAX (rvc_shamt raw)), Seq))
     else if funct3 = 0b011 then
       (if rd = 0 then ([], Unhandled)
        else let uimm = shl (ucast (shr raw 12 AND 0x1)) 5 OR shl (ucast (shr raw 5 AND 0x3)) 3
               OR shl (ucast (shr raw 2 AND 0x7)) 6
          in (emit_load lb rd 2 uimm 8 gpc, Seq))
     else if funct3 = 0b100 then
       (let bit12 = shr raw 12 AND 0x1 in
        if bit12 = 0 \<and> rs2 = 0 then
          (if rd = 0 then ([], Unhandled)
           else ([MovRM QWORD RCX R15 (rd * 8), AluRI XAnd QWORD RCX (-2)] @ emit_return_rcx, Terminal))
        else if bit12 = 0 then
          (if rd = 0 then ([], Seq)
           else ([MovRM QWORD RAX R15 (rs2 * 8), MovMR R15 (rd * 8) RAX], Seq))
        else if rs2 = 0 then
          (if rd = 0 then ([], Unhandled)
           else ([MovRM QWORD RCX R15 (rd * 8), MovRI RAX next_pc, MovMR R15 8 RAX,
                  AluRI XAnd QWORD RCX (-2)] @ emit_return_rcx, Terminal))
        else if rd = 0 then ([], Seq)
        else (rvc_rmw rd (AluRM XAdd QWORD RAX R15 (rs2 * 8)), Seq))
     else if funct3 = 0b111 then
       let uimm = shl (ucast (shr raw 10 AND 0x7)) 3 OR shl (ucast (shr raw 7 AND 0x7)) 6
       in (emit_store lb 2 rs2 uimm 8 gpc, Seq)
     else ([], Unhandled))"

definition emit_rvc :: "nat \<Rightarrow> u16 \<Rightarrow> u64 \<Rightarrow> insn list \<times> rvc_effect" where
  "emit_rvc lb raw gpc =
    (let quadrant = raw AND 0x3; funct3 = unat (shr raw 13) in
     if quadrant = 0b00 then emit_rvc_q0 lb raw funct3 gpc
     else if quadrant = 0b01 then emit_rvc_q1 lb raw funct3 gpc
     else if quadrant = 0b10 then emit_rvc_q2 lb raw funct3 gpc
     else ([], Unhandled))"

section \<open>Blocks\<close>

text \<open>
  \<open>JitCache::compile\<close>.  \<open>compile_loop c gpc n\<close> is the loop from the \<open>n\<close>-th instruction, at
  \<open>gpc\<close>: it returns the hart (fetching goes through the TLB and the bus), the code from there on
  and the number of instructions compiled in all.
\<close>

definition block_exit :: "nat \<Rightarrow> u64 \<Rightarrow> insn list" where
  "block_exit inst_count gpc = (if inst_count > 0 then emit_return gpc else emit_slow_path)"

type_synonym compiled = "(cpu \<times> insn list \<times> nat) option"

definition emit_then :: "insn list \<Rightarrow> compiled \<Rightarrow> compiled" where
  "emit_then ins = map_option (\<lambda>(c, code, n). (c, ins @ code, n))"

text \<open>The bits at \<open>gpc\<close>, as the compiler reads them: one translation, one load of four bytes.\<close>

definition compile_fetch :: "cpu \<Rightarrow> u64 \<Rightarrow> (cpu \<times> u32 option) option" where
  "compile_fetch c gpc = do {
     (c, t) \<leftarrow> Cpu_translate c (mode c) gpc AccessType_Fetch;
     case t of
       Inl _ \<Rightarrow> Some (c, None)
     | Inr pa \<Rightarrow> do {
         (c, r) \<leftarrow> Cpu_load c pa 4;
         Some (c, case r of Inl _ \<Rightarrow> None | Inr v \<Rightarrow> Some (ucast v))
       }
   }"

text \<open>The code of the instruction in these bits, its effect and its size.\<close>

definition emit_raw :: "nat \<Rightarrow> u64 \<Rightarrow> u32 \<Rightarrow> (insn list \<times> rvc_effect \<times> u64) option" where
  "emit_raw lb gpc raw4 =
    (if raw4 AND 0x3 \<noteq> 0x3 then
       case emit_rvc lb (ucast (raw4 AND 0xffff)) gpc of (ins, eff) \<Rightarrow> Some (ins, eff, 2)
     else do {
       d \<leftarrow> decode raw4;
       Some (case d of
         Inl _ \<Rightarrow> ([], Unhandled, 4)
       | Inr i \<Rightarrow> (case emit_inst lb gpc (gpc + 4) i of (ins, eff) \<Rightarrow> (ins, eff, 4)))
     })"

function compile_loop :: "cpu \<Rightarrow> u64 \<Rightarrow> nat \<Rightarrow> compiled" where
  "compile_loop c gpc inst_count = do {
     (c, raw) \<leftarrow> compile_fetch c gpc;
     case raw of
       None \<Rightarrow> Some (c, block_exit inst_count gpc, inst_count)
     | Some raw4 \<Rightarrow> do {
         (ins, eff, sz) \<leftarrow> emit_raw (2 * inst_count) gpc raw4;
         case eff of
           Seq \<Rightarrow>
             if inst_count + 1 \<ge> 128
             then Some (c, ins @ emit_return (gpc + sz), inst_count + 1)
             else emit_then ins (compile_loop c (gpc + sz) (inst_count + 1))
         | Terminal \<Rightarrow> Some (c, ins, inst_count + 1)
         | Unhandled \<Rightarrow> Some (c, block_exit inst_count gpc, inst_count)
       }
   }"
  by pat_completeness auto
termination
  by (relation "measure (\<lambda>(c, gpc, n). 128 - n)") auto

declare compile_loop.simps [simp del]

type_synonym jit_cache = "u64 \<rightharpoonup> insn list"

definition JitCache_new :: jit_cache where
  "JitCache_new = Map.empty"

definition JitCache_get :: "jit_cache \<Rightarrow> u64 \<Rightarrow> insn list option" where
  "JitCache_get j start_pc = j start_pc"

definition JitCache_invalidate :: "jit_cache \<Rightarrow> jit_cache" where
  "JitCache_invalidate j = Map.empty"

definition JitCache_len :: "jit_cache \<Rightarrow> nat" where
  "JitCache_len j = card (dom j)"

definition JitCache_compile :: "jit_cache \<Rightarrow> cpu \<Rightarrow> u64 \<Rightarrow> (jit_cache \<times> cpu) option" where
  "JitCache_compile j c start_pc =
    (if start_pc \<in> dom j then Some (j, c)
     else do {
       (c, raw) \<leftarrow> compile_fetch c start_pc;
       case raw of
         None \<Rightarrow> Some (j, c)
       | Some _ \<Rightarrow> do {
           (c, code, inst_count) \<leftarrow> compile_loop c start_pc 0;
           Some (if inst_count > 0 then j(start_pc \<mapsto> emit_prologue @ code) else j, c)
         }
     })"

text \<open>
  A call of a block: the return address on the stack, the arguments in \<open>rdi\<close> and \<open>rsi\<close>, the other
  registers as the caller has them.
\<close>

definition call_state :: "cpu \<Rightarrow> x86" where
  "call_state c = \<lparr>xregs = (\<lambda>r. Vsaved r)(RDI := Vregs, RSI := Vcpu), xflags = None, xstack = [Vret], guest = c\<rparr>"

definition call_block :: "insn list \<Rightarrow> cpu \<Rightarrow> outcome" where
  "call_block code c = run code (call_state c)"

end
