(* ===== verification/MemProps.thy ===== *)
theory MemProps
  imports Execute
begin

text \<open>
  What the memory and CSR instructions do: accesses that cross a page, the trap value of a faulting
  access, the atomic operations and the CSR instructions.
\<close>

section \<open>Accesses that cross a page\<close>

definition put_slice :: "'a list \<Rightarrow> nat \<Rightarrow> 'a list \<Rightarrow> 'a list" where
  "put_slice xs p ys = take p xs @ ys @ drop (p + length ys) xs"

lemma put_slice_nil [simp]: "put_slice xs p [] = xs"
  by (simp add: put_slice_def)

lemma put_slice_cons: "p + Suc (length ys) \<le> length xs \<Longrightarrow> put_slice (put_slice xs p [y]) (Suc p) ys = put_slice xs p (y # ys)"
  by (simp add: put_slice_def min_def add.commute)

lemma length_put_slice: "p + length ys \<le> length xs \<Longrightarrow> length (put_slice xs p ys) = length xs"
  by (simp add: put_slice_def)

lemma ram_wr_put_slice:
  "ram_mapped b a n \<Longrightarrow> n \<in> {1, 2, 4, 8} \<Longrightarrow>
    ram_wr b a n v = b\<lparr>ram := put_slice (ram b) (unat (a - ram_base b)) (to_le_bytes n v)\<rparr>"
  using ram_wr_eq [of b a n v] by (simp add: put_slice_def)

lemma ram_rd_byte: "ram_mapped b a 1 \<Longrightarrow> ram_rd b a 1 = ucast (ram_peek b a)"
  using ram_rd_bytes [of b a 1] by simp

lemma byte_and_ff: "(ucast (x :: u8) :: u64) AND 0xff = ucast x"
  by (rule word64_eqI) (simp add: enum_bits, auto dest: bit_imp_le_length)

lemma Cpu_load_ram:
  "ram_mapped (bus c) a n \<Longrightarrow> n \<in> {1, 2, 4, 8} \<Longrightarrow> Cpu_load c a n = Some (c, Inr (ram_rd (bus c) a n))"
  by (simp add: Cpu_load_def Bus_load_ram_rd)

lemma Cpu_store_ram:
  "ram_mapped (bus c) a n \<Longrightarrow> n \<in> {1, 2, 4, 8} \<Longrightarrow>
    Cpu_store c a n v = Some (c\<lparr>bus := ram_wr (bus c) a n v\<rparr>, Inr ())"
  by (simp add: Cpu_store_def Bus_store_ram_wr)

lemma load_bytes_ram:
  assumes "\<And>j. j < n \<Longrightarrow> ram_mapped (bus c) (pa + of_nat (i + j)) 1"
  shows "load_bytes n c pa va k i v = Some (c, Inr (v OR
    shl (from_le_bytes (map (\<lambda>j. ram_peek (bus c) (pa + of_nat (i + j))) [0..<n])) ((k + i) * 8)))"
  using assms
proof (induction n arbitrary: i v)
  case (Suc n)
  have m: "ram_mapped (bus c) (pa + of_nat i) 1" using Suc.prems [of 0] by simp
  have ih: "load_bytes n c pa va k (i + 1) w = Some (c, Inr (w OR
      shl (from_le_bytes (map (\<lambda>j. ram_peek (bus c) (pa + of_nat (i + 1 + j))) [0..<n])) ((k + (i + 1)) * 8)))" for w
    using Suc.prems [of "Suc j" for j] by (intro Suc.IH) simp
  have l: "map (\<lambda>j. ram_peek (bus c) (pa + of_nat (i + j))) [0..<Suc n] =
      ram_peek (bus c) (pa + of_nat i) # map (\<lambda>j. ram_peek (bus c) (pa + of_nat (i + 1 + j))) [0..<n]"
    by (subst upt_rec) (simp add: map_Suc_upt [symmetric] o_def ac_simps del: upt_Suc)
  have ld: "Cpu_load c (pa + of_nat i) 1 = Some (c, Inr (ucast (ram_peek (bus c) (pa + of_nat i))))"
    using Cpu_load_ram [OF m] ram_rd_byte [OF m] by simp
  have k: "(k + (i + 1)) * 8 = (k + i) * 8 + 8" by simp
  show ?case
    unfolding load_bytes.simps l from_le_bytes.simps ld Option.bind.simps prod.case sum.case
      byte_and_ff ih k
    by (simp only: push_bit_or push_bit_push_bit or.assoc)
qed simp

lemma store_bytes_ram:
  assumes "\<And>j. j < n \<Longrightarrow> ram_mapped (bus c) (pa + of_nat (i + j)) 1"
    and "\<And>j. j < n \<Longrightarrow> unat (pa + of_nat (i + j) - ram_base (bus c)) = p + i + j"
  shows "store_bytes n c pa va k i val = Some (c\<lparr>bus := (bus c)\<lparr>ram :=
    put_slice (ram (bus c)) (p + i) (map (\<lambda>j. ucast (shr val ((k + i + j) * 8))) [0..<n])\<rparr>\<rparr>, Inr ())"
  using assms
proof (induction n arbitrary: c i)
  case (Suc n)
  let ?b = "ucast (shr val ((k + i) * 8)) :: u8"
  let ?c = "c\<lparr>bus := (bus c)\<lparr>ram := put_slice (ram (bus c)) (p + i) [?b]\<rparr>\<rparr>"
  have m: "ram_mapped (bus c) (pa + of_nat i) 1" "unat (pa + of_nat i - ram_base (bus c)) = p + i"
    using Suc.prems(1) [of 0] Suc.prems(2) [of 0] by simp_all
  have len: "p + i + 1 \<le> length (ram (bus c))"
    using m by (simp add: ram_mapped_def in_ram_def)
  have "(ucast (shr val ((k + i) * 8) AND 0xff) :: u8) = ?b"
    by (rule bit_word_eqI) (simp add: bit_unsigned_iff bit_low8)
  then have s: "Cpu_store c (pa + of_nat i) 1 (shr val ((k + i) * 8) AND 0xff) = Some (?c, Inr ())"
    using Cpu_store_ram [OF m(1)] ram_wr_put_slice [OF m(1)] m(2) by simp
  have "ram_mapped (bus ?c) a 1 = ram_mapped (bus c) a 1" for a
    using len by (simp add: ram_mapped_def bus_wf_def in_ram_def length_put_slice)
  then have ih: "store_bytes n ?c pa va k (i + 1) val = Some (?c\<lparr>bus := (bus ?c)\<lparr>ram :=
      put_slice (ram (bus ?c)) (p + (i + 1)) (map (\<lambda>j. ucast (shr val ((k + (i + 1) + j) * 8))) [0..<n])\<rparr>\<rparr>, Inr ())"
    using Suc.prems(1) [of "Suc j" for j] Suc.prems(2) [of "Suc j" for j] by (intro Suc.IH) simp_all
  have l: "map (\<lambda>j. ucast (shr val ((k + i + j) * 8)) :: u8) [0..<Suc n] =
      ?b # map (\<lambda>j. ucast (shr val ((k + (i + 1) + j) * 8))) [0..<n]"
    by (subst upt_rec) (simp add: map_Suc_upt [symmetric] o_def ac_simps del: upt_Suc)
  show ?case
  proof (cases "n = 0")
    case True
    then show ?thesis
      unfolding store_bytes.simps Let_def s Option.bind.simps prod.case sum.case by simp
  next
    case False
    have "p + i + Suc n \<le> length (ram (bus c))"
      using Suc.prems(1) [of n] Suc.prems(2) [of n] by (simp add: ram_mapped_def in_ram_def)
    then have "put_slice (put_slice (ram (bus c)) (p + i) [?b]) (p + (i + 1))
        (map (\<lambda>j. ucast (shr val ((k + (i + 1) + j) * 8))) [0..<n]) =
        put_slice (ram (bus c)) (p + i) (map (\<lambda>j. ucast (shr val ((k + i + j) * 8))) [0..<Suc n])"
      unfolding l using put_slice_cons [of "p + i" "map (\<lambda>j. ucast (shr val ((k + (i + 1) + j) * 8))) [0..<n]"] by simp
    then show ?thesis
      unfolding store_bytes.simps Let_def s Option.bind.simps prod.case sum.case ih
      by (simp del: upt_Suc)
  qed
qed simp

lemma from_le_bytes_append:
  "from_le_bytes (xs @ ys) = from_le_bytes xs OR shl (from_le_bytes ys) (8 * length xs)"
  by (induction xs) (auto simp: push_bit_or ac_simps)

lemma page_off_less: "page_off va < 0x1000"
proof -
  have "va AND 0xFFF = take_bit 12 va"
    by (rule word64_eqI) (simp add: enum_bits)
  then show ?thesis
    using take_bit_nat_less_exp [of 12 "unat va"] by (simp add: page_off_def unsigned_take_bit_eq)
qed

lemma diff_via_sum: "x + y = a \<Longrightarrow> x + b = a + (b - y)" for x y a b :: u64
  by auto

lemma next_page_eq: "next_page va = va + of_nat (0x1000 - page_off va)"
proof -
  have "va = (va AND NOT 0xFFF) OR (va AND 0xFFF)"
    by (rule word64_eqI) (simp add: enum_bits)
  moreover have "(va AND NOT 0xFFF) + (va AND 0xFFF) = (va AND NOT 0xFFF) OR (va AND 0xFFF)"
  proof (rule disjunctive_add)
    fix n show "\<not> bit (va AND NOT 0xFFF) n \<or> \<not> bit (va AND 0xFFF) n"
      by (auto simp: bit_simps)
  qed
  ultimately have h: "(va AND NOT 0xFFF) + (va AND 0xFFF) = va" by metis
  have k: "of_nat (0x1000 - page_off va) = (0x1000 :: u64) - (va AND 0xFFF)"
    using page_off_less [of va] by (simp add: page_off_def of_nat_diff)
  show ?thesis
    unfolding next_page_def k by (rule diff_via_sum [OF h])
qed

lemma Cpu_translate_bare:
  "\<not> paged (satp (csr c)) md \<Longrightarrow> Cpu_translate c md va access = Some (c, Inr va)"
  by (simp add: Cpu_translate_def translate_cases)

lemma ram_mapped_byte: "ram_mapped b a n \<Longrightarrow> n \<le> 8 \<Longrightarrow> i < n \<Longrightarrow> ram_mapped b (a + of_nat i) 1"
  by (rule ram.byte_mapped)

lemma ram_mapped_offset:
  "ram_mapped b a n \<Longrightarrow> n \<le> 8 \<Longrightarrow> i < n \<Longrightarrow>
    unat (a + of_nat i - ram_base b) = unat (a - ram_base b) + i"
  using in_ram_offset(1) [of b a n i] by (simp add: ram_mapped_def)

lemma put_slice_append:
  assumes "p + length ys + length zs \<le> length xs"
  shows "put_slice (put_slice xs p ys) (p + length ys) zs = put_slice xs p (ys @ zs)"
proof (cases "length xs \<le> p")
  case True
  then have "length ys = 0" "length zs = 0" using assms by linarith+
  then show ?thesis by simp
qed (use assms in \<open>simp add: put_slice_def min_def add.commute add.left_commute\<close>)

lemma map_split: "f \<le> n \<Longrightarrow> map g [0..<f] @ map (\<lambda>j. g (f + j)) [0..<n - f] = map g [0..<n]"
  by (rule nth_equalityI) (auto simp: nth_append)

text \<open>Both loops over a part of an access whose bytes are all in RAM.\<close>

lemma part_mapped:
  assumes "ram_mapped b va n" "n \<le> 8" "f + m \<le> n" "j < m"
  shows "ram_mapped b (va + of_nat f + of_nat (0 + j)) 1"
    and "unat (va + of_nat f + of_nat (0 + j) - ram_base b) = unat (va - ram_base b) + f + 0 + j"
  using ram_mapped_byte [OF assms(1,2), of "f + j"] ram_mapped_offset [OF assms(1,2), of "f + j"] assms(3,4)
  by (simp_all add: add.assoc)

lemma load_part:
  assumes "ram_mapped (bus c) va n" "n \<le> 8" "f + m \<le> n"
  shows "load_bytes m c (va + of_nat f) va' f 0 w = Some (c, Inr (w OR
    shl (from_le_bytes (map (\<lambda>j. ram_peek (bus c) (va + of_nat (f + j))) [0..<m])) (f * 8)))"
  using load_bytes_ram [of m c "va + of_nat f" 0 va' f w] part_mapped(1) [OF assms]
  by (simp add: add.assoc)

lemma store_part:
  assumes "ram_mapped (bus c) va n" "n \<le> 8" "f + m \<le> n"
  shows "store_bytes m c (va + of_nat f) va' f 0 val = Some (c\<lparr>bus := (bus c)\<lparr>ram :=
    put_slice (ram (bus c)) (unat (va - ram_base (bus c)) + f) (map (\<lambda>j. ucast (shr val ((f + j) * 8))) [0..<m])\<rparr>\<rparr>, Inr ())"
  using store_bytes_ram [of m c "va + of_nat f" 0 "unat (va - ram_base (bus c)) + f" va' f val]
    part_mapped [OF assms]
  by (simp add: add.assoc)

lemma ram_mapped_put_slice:
  assumes "p + length ys \<le> length (ram b)"
  shows "ram_mapped (b\<lparr>ram := put_slice (ram b) p ys\<rparr>) a n = ram_mapped b a n"
  using assms by (simp add: ram_mapped_def bus_wf_def in_ram_def length_put_slice)

lemma split_load:
  assumes "ram_mapped (bus c) va n" "n \<in> {1, 2, 4, 8}" "f \<le> n"
  shows "load_bytes f c va va1 0 0 0 = Some (c, Inr (from_le_bytes (map (\<lambda>j. ram_peek (bus c) (va + of_nat j)) [0..<f])))"
    and "load_bytes (n - f) c (va + of_nat f) va2 f 0
        (from_le_bytes (map (\<lambda>j. ram_peek (bus c) (va + of_nat j)) [0..<f])) = Some (c, Inr (ram_rd (bus c) va n))"
proof -
  have n8: "n \<le> 8" using assms(2) by auto
  show "load_bytes f c va va1 0 0 0 = Some (c, Inr (from_le_bytes (map (\<lambda>j. ram_peek (bus c) (va + of_nat j)) [0..<f])))"
    using load_part [OF assms(1) n8, of 0 f va1 0] assms(3) by simp
  have "f + (n - f) \<le> n" using assms(3) by simp
  from load_part [OF assms(1) n8 this]
  show "load_bytes (n - f) c (va + of_nat f) va2 f 0
      (from_le_bytes (map (\<lambda>j. ram_peek (bus c) (va + of_nat j)) [0..<f])) = Some (c, Inr (ram_rd (bus c) va n))"
    using from_le_bytes_append [of "map (\<lambda>j. ram_peek (bus c) (va + of_nat j)) [0..<f]"
        "map (\<lambda>j. ram_peek (bus c) (va + of_nat (f + j))) [0..<n - f]"]
    unfolding map_split [OF assms(3), of "\<lambda>j. ram_peek (bus c) (va + of_nat j)"] ram_rd_bytes [OF assms(1,2)]
    by (simp only: length_map length_upt diff_zero mult.commute [of f 8])
qed

lemma split_store:
  assumes "ram_mapped (bus c) va n" "n \<in> {1, 2, 4, 8}" "f \<le> n"
  shows "\<exists>c1. store_bytes f c va va1 0 0 v = Some (c1, Inr ()) \<and>
    store_bytes (n - f) c1 (va + of_nat f) va2 f 0 v = Some (c\<lparr>bus := ram_wr (bus c) va n v\<rparr>, Inr ())"
proof -
  let ?o = "unat (va - ram_base (bus c))" and ?byte = "\<lambda>j. ucast (shr v (j * 8)) :: u8"
  let ?c1 = "c\<lparr>bus := (bus c)\<lparr>ram := put_slice (ram (bus c)) ?o (map ?byte [0..<f])\<rparr>\<rparr>"
  have n8: "n \<le> 8" using assms(2) by auto
  have fits: "?o + n \<le> length (ram (bus c))"
    using assms(1) by (simp add: ram_mapped_def in_ram_def)
  have s1: "store_bytes f c va va1 0 0 v = Some (?c1, Inr ())"
    using store_part [OF assms(1) n8, of 0 f va1 v] assms(3) by simp
  have m1: "ram_mapped (bus ?c1) va n"
    using assms(1,3) fits ram_mapped_put_slice [of ?o "map ?byte [0..<f]" "bus c"] by simp
  have "f + (n - f) \<le> n" using assms(3) by simp
  from store_part [OF m1 n8 this, of va2 v]
  have s2: "store_bytes (n - f) ?c1 (va + of_nat f) va2 f 0 v = Some (c\<lparr>bus := (bus c)\<lparr>ram :=
      put_slice (put_slice (ram (bus c)) ?o (map ?byte [0..<f])) (?o + f) (map (\<lambda>j. ?byte (f + j)) [0..<n - f])\<rparr>\<rparr>, Inr ())"
    by simp
  have "put_slice (put_slice (ram (bus c)) ?o (map ?byte [0..<f])) (?o + f) (map (\<lambda>j. ?byte (f + j)) [0..<n - f]) =
      put_slice (ram (bus c)) ?o (to_le_bytes n v)"
    using put_slice_append [of ?o "map ?byte [0..<f]" "map (\<lambda>j. ?byte (f + j)) [0..<n - f]" "ram (bus c)"]
      fits assms(3) map_split [OF assms(3), of ?byte]
    by (simp add: to_le_bytes_map mult.commute)
  then show ?thesis
    using s1 s2 by (simp add: ram_wr_put_slice [OF assms(1,2)])
qed

section \<open>Properties\<close>

text \<open>
  C13. An access that crosses a page is the wide access: with translation off, a load or store of any
  supported width to RAM, whether it lies in one page or is split into two loops over bytes, loads the
  little-endian value there and nothing else changes, or stores exactly the bytes the bus would.
\<close>

theorem split_access_is_wide:
  assumes "\<not> paged (satp (csr c)) md" "ram_mapped (bus c) va n" "n \<in> {1, 2, 4, 8}"
  shows "mmu_load c md va n = Some (c, Inr (ram_rd (bus c) va n)) \<and>
    mmu_store c md va n v = Some (c\<lparr>bus := ram_wr (bus c) va n v\<rparr>, Inr ())"
proof (cases "page_off va + n \<le> 0x1000")
  case True
  then show ?thesis
    using Cpu_translate_bare [OF assms(1)] Cpu_load_ram [OF assms(2,3)] Cpu_store_ram [OF assms(2,3)]
    by (simp add: mmu_load_def mmu_store_def)
next
  case False
  then have f: "0x1000 - page_off va \<le> n" using page_off_less [of va] by linarith
  obtain c1 where "store_bytes (0x1000 - page_off va) c va va 0 0 v = Some (c1, Inr ())"
    "store_bytes (n - (0x1000 - page_off va)) c1 (next_page va) (next_page va) (0x1000 - page_off va) 0 v =
      Some (c\<lparr>bus := ram_wr (bus c) va n v\<rparr>, Inr ())"
    using split_store [OF assms(2,3) f, of va v "next_page va"] by (auto simp: next_page_eq)
  then show ?thesis
    using False Cpu_translate_bare [OF assms(1)] split_load(1) [OF assms(2,3) f, of va]
      split_load(2) [OF assms(2,3) f, of "next_page va"]
    by (simp add: mmu_load_def mmu_store_def next_page_eq)
qed

theorem split_access_is_wide_witness:
  "page_off 0x80000FFE = 0xFFE \<and>
    mmu_load (Cpu_new (Bus_new 0x2000 0x80000000) 0x80000000) PrivMode_M 0x80000FFE 4 =
      Some (Cpu_new (Bus_new 0x2000 0x80000000) 0x80000000, Inr (ram_rd (Bus_new 0x2000 0x80000000) 0x80000FFE 4))"
proof -
  let ?c = "Cpu_new (Bus_new 0x2000 0x80000000) 0x80000000"
  have b: "bus ?c = Bus_new 0x2000 0x80000000" by (simp add: Cpu_new_def)
  have "ram_mapped (bus ?c) 0x80000FFE 4"
    unfolding b by (simp add: ram_mapped_def bus_wf_def in_ram_def Bus_new_def plic_wf_new)
  then show ?thesis
    using split_access_is_wide [of ?c PrivMode_M "0x80000FFE" 4 0] b
    by (simp add: paged_def page_off_def)
qed
section \<open>What a faulting access reports\<close>

text \<open>The hart apart from its memory side.\<close>

definition same_core :: "cpu \<Rightarrow> cpu \<Rightarrow> bool" where
  "same_core c d \<longleftrightarrow> d\<lparr>mmu := mmu c, bus := bus c\<rparr> = c"

lemma same_core_refl [simp]: "same_core c c"
  by (simp add: same_core_def)

lemma same_core_trans: "same_core c d \<Longrightarrow> same_core d e \<Longrightarrow> same_core c e"
  unfolding same_core_def by (cases c; cases d; cases e) simp

text \<open>
  A piece of an access that leaves the core of the hart alone and, when it fails, reports a fault
  with \<open>Q\<close>.
\<close>

definition reports :: "(trap_info \<Rightarrow> bool) \<Rightarrow> cpu \<Rightarrow> (cpu \<times> (trap_info + 'a)) option \<Rightarrow> bool" where
  "reports Q c res \<longleftrightarrow> (case res of
     None \<Rightarrow> True
   | Some (d, r) \<Rightarrow> same_core c d \<and> (case r of Inl f \<Rightarrow> Q f | Inr _ \<Rightarrow> True))"

lemma reports_simps [simp]:
  "reports Q c None"
  "reports Q c (Some (d, Inl f)) \<longleftrightarrow> same_core c d \<and> Q f"
  "reports Q c (Some (d, Inr x)) \<longleftrightarrow> same_core c d"
  by (auto simp: reports_def)

lemma reports_mono: "reports P c res \<Longrightarrow> (\<And>f. P f \<Longrightarrow> Q f) \<Longrightarrow> reports Q c res"
  by (auto simp: reports_def split: option.splits sum.splits)

lemma reports_core: "same_core c d \<Longrightarrow> reports Q d res \<Longrightarrow> reports Q c res"
  by (auto simp: reports_def split: option.splits intro: same_core_trans)

lemma reports_bind:
  assumes "reports Q c res" "\<And>d x. reports Q d (k d x)"
  shows "reports Q c (do { (d, t) \<leftarrow> res; case t of Inl f \<Rightarrow> Some (d, Inl f) | Inr x \<Rightarrow> k d x })"
  using assms by (auto simp: reports_def [of Q c res] split: option.splits sum.splits intro: reports_core)

text \<open>The address range and the causes of an access of \<open>n\<close> bytes at \<open>va\<close>.\<close>

definition fault_in :: "access_type \<Rightarrow> u64 \<Rightarrow> nat \<Rightarrow> trap_info \<Rightarrow> bool" where
  "fault_in access va n f \<longleftrightarrow>
    fst f \<in> {pf_cause access, af_cause access} \<and> (\<exists>i < n. snd f = va + of_nat i)"

lemma fault_in_at: "i < n \<Longrightarrow> cause \<in> {pf_cause access, af_cause access} \<Longrightarrow> fault_in access va n (cause, va + of_nat i)"
  by (auto simp: fault_in_def)

lemma reports_Cpu_translate: "0 < n \<Longrightarrow> reports (fault_in access va n) c (Cpu_translate c md va access)"
  using fault_in_at [of 0 n _ access va]
  by (auto simp: Cpu_translate_def same_core_def translate_cases
      split: bind_splits sum.splits mmu_fault.splits if_splits dest: tlb_hit_fault walk_fault)

lemma reports_Cpu_load:
  "0 < n \<Longrightarrow> reports (fault_in AccessType_Load va n) c
    (do { (c, r) \<leftarrow> Cpu_load c pa w; Some (c, case r of Inl _ \<Rightarrow> Inl (5, va) | Inr v \<Rightarrow> Inr v) })"
  using fault_in_at [of 0 n 5 AccessType_Load va]
  by (auto simp: Cpu_load_def same_core_def split: bind_splits sum.splits)

lemma reports_Cpu_store:
  "0 < n \<Longrightarrow> reports (fault_in AccessType_Store va n) c
    (do { (c, r) \<leftarrow> Cpu_store c pa w v; Some (c, case r of Inl _ \<Rightarrow> Inl (7, va) | Inr u \<Rightarrow> Inr u) })"
  using fault_in_at [of 0 n 7 AccessType_Store va]
  by (auto simp: Cpu_store_def same_core_def split: bind_splits sum.splits)

lemma reports_load_then:
  assumes "Q (5, fa)" "\<And>d v. reports Q d (k d v)"
  shows "reports Q c (do { (c, r) \<leftarrow> Cpu_load c pa w; case r of Inl _ \<Rightarrow> Some (c, Inl (5, fa)) | Inr v \<Rightarrow> k c v })"
  using assms by (auto simp: Cpu_load_def same_core_def split: bind_splits sum.splits intro!: reports_core [OF _ assms(2)])

lemma reports_store_then:
  assumes "Q (7, fa)" "\<And>d. reports Q d (k d)"
  shows "reports Q c (do { (c, r) \<leftarrow> Cpu_store c pa w v; case r of Inl _ \<Rightarrow> Some (c, Inl (7, fa)) | Inr _ \<Rightarrow> k c })"
  using assms by (auto simp: Cpu_store_def same_core_def split: bind_splits sum.splits intro!: reports_core [OF _ assms(2)])

lemma load_bytes_reports:
  assumes "\<And>j. j < i + m \<Longrightarrow> Q (5, va + of_nat j)"
  shows "reports Q c (load_bytes m c pa va k i v)"
  using assms
proof (induction m arbitrary: c i v)
  case (Suc m)
  show ?case
    unfolding load_bytes.simps by (intro reports_load_then Suc.IH Suc.prems) simp_all
qed simp

lemma store_bytes_reports:
  assumes "\<And>j. j < i + m \<Longrightarrow> Q (7, va + of_nat j)"
  shows "reports Q c (store_bytes m c pa va k i v)"
  using assms
proof (induction m arbitrary: c i)
  case (Suc m)
  show ?case
    unfolding store_bytes.simps Let_def by (intro reports_store_then Suc.IH Suc.prems) simp_all
qed simp

text \<open>The bytes of the second page are the last bytes of the access.\<close>

lemma fault_in_next:
  assumes "0x1000 < page_off va + n" "fault_in access (next_page va) (n - (0x1000 - page_off va)) f"
  shows "fault_in access va n f"
proof -
  from assms(2) obtain i where i: "i < n - (0x1000 - page_off va)"
      "snd f = va + of_nat (0x1000 - page_off va + i)" "fst f \<in> {pf_cause access, af_cause access}"
    by (auto simp: fault_in_def next_page_eq add.assoc)
  moreover have "0x1000 - page_off va + i < n" using i(1) by linarith
  ultimately show ?thesis unfolding fault_in_def by blast
qed

lemma split_reports:
  assumes "\<not> page_off va + n \<le> 0x1000" "access \<in> {AccessType_Load, AccessType_Store}"
  shows "j < 0x1000 - page_off va \<Longrightarrow> fault_in access va n (af_cause access, va + of_nat j)"
    and "j < n - (0x1000 - page_off va) \<Longrightarrow> fault_in access va n (af_cause access, next_page va + of_nat j)"
    and "reports (fault_in access va n) c (Cpu_translate c md (next_page va) access)"
proof -
  have far: "0x1000 < page_off va + n" and rest: "0 < n - (0x1000 - page_off va)"
    using assms(1) page_off_less [of va] by linarith+
  show "fault_in access va n (af_cause access, va + of_nat j)" if "j < 0x1000 - page_off va"
    by (rule fault_in_at) (use that far in linarith, simp)
  show "fault_in access va n (af_cause access, next_page va + of_nat j)" if "j < n - (0x1000 - page_off va)"
    by (rule fault_in_next [OF far]) (simp add: fault_in_at that)
  show "reports (fault_in access va n) c (Cpu_translate c md (next_page va) access)"
    by (rule reports_mono [OF reports_Cpu_translate [OF rest]]) (rule fault_in_next [OF far])
qed

lemma mmu_load_reports:
  assumes "0 < n"
  shows "reports (fault_in AccessType_Load va n) c (mmu_load c md va n)"
proof (cases "page_off va + n \<le> 0x1000")
  case True
  then show ?thesis
    unfolding mmu_load_def if_P [OF True]
    by (intro reports_bind reports_Cpu_translate reports_Cpu_load assms)
next
  case False
  note split = split_reports [OF False, of AccessType_Load, simplified]
  show ?thesis
    unfolding mmu_load_def if_not_P [OF False] Let_def
    by (intro reports_bind reports_Cpu_translate load_bytes_reports assms split) simp_all
qed

lemma mmu_store_reports:
  assumes "0 < n"
  shows "reports (fault_in AccessType_Store va n) c (mmu_store c md va n v)"
proof (cases "page_off va + n \<le> 0x1000")
  case True
  then show ?thesis
    unfolding mmu_store_def if_P [OF True]
    by (intro reports_bind reports_Cpu_translate reports_Cpu_store assms)
next
  case False
  note split = split_reports [OF False, of AccessType_Store, simplified]
  show ?thesis
    unfolding mmu_store_def if_not_P [OF False] Let_def
    by (intro reports_bind reports_Cpu_translate store_bytes_reports assms split) simp_all
qed
section \<open>Load-reserved and store-conditional\<close>

lemma exec_lr_ram:
  assumes "\<not> paged (satp (csr c)) (ls_mode c)" "reg c rs1 = Some a" "ram_mapped (bus c) a w" "w \<in> {4, 8}" "rd < 32"
  shows "exec_lr c p w rd rs1 = (do {
    c \<leftarrow> set_reg c rd (atomic_value w (ram_rd (bus c) a w)); Some (c\<lparr>reservation := Some a\<rparr>, p) })"
  using assms(2) Cpu_translate_bare [OF assms(1)] Cpu_load_ram [OF assms(3)] assms(4)
  by (auto simp: exec_lr_def)

lemma exec_sc_ram:
  assumes "\<not> paged (satp (csr c)) (ls_mode c)" "reg c rs1 = Some a" "reg c rs2 = Some v"
    "ram_mapped (bus c) a w" "w \<in> {4, 8}"
  shows "exec_sc c p w rd rs1 rs2 =
    (if reservation c = Some a
     then do { c \<leftarrow> set_reg (c\<lparr>bus := ram_wr (bus c) a w v\<rparr>) rd 0; Some (c\<lparr>reservation := None\<rparr>, p) }
     else do { c \<leftarrow> set_reg c rd 1; Some (c\<lparr>reservation := None\<rparr>, p) })"
  using assms(2,3) Cpu_translate_bare [OF assms(1)] Cpu_store_ram [OF assms(4)] assms(5)
  by (auto simp: exec_sc_def)

lemma reg_cong: "regs d = regs c \<Longrightarrow> reg d n = reg c n"
  by (simp add: reg_def)

definition with_reg :: "cpu \<Rightarrow> nat \<Rightarrow> u64 \<Rightarrow> cpu" where
  "with_reg c n v = (if n = 0 then c else c\<lparr>regs := (regs c)[n := v]\<rparr>)"

lemma set_reg_with_reg: "n < 32 \<Longrightarrow> set_reg c n v = Some (with_reg c n v)"
  by (simp add: set_reg_def with_reg_def)

lemma with_reg_frame [simp]:
  "bus (with_reg c n v) = bus c" "csr (with_reg c n v) = csr c" "mode (with_reg c n v) = mode c"
  "reservation (with_reg c n v) = reservation c" "mmu (with_reg c n v) = mmu c" "pc (with_reg c n v) = pc c"
  "fregs (with_reg c n v) = fregs c"
  by (simp_all add: with_reg_def)

lemma reg_with_reg:
  "length (regs c) = 32 \<Longrightarrow> reg (with_reg c n v) m = (if m < 32 then Some (if m = 0 then 0 else if m = n then v else regs c ! m) else None)"
  by (auto simp: reg_def with_reg_def)

lemma reg_with_reg_other: "m \<noteq> n \<Longrightarrow> reg (with_reg c n v) m = reg c m"
  by (auto simp: reg_def with_reg_def)

lemma reg_frame [simp]:
  "reg (c\<lparr>bus := b\<rparr>) n = reg c n" "reg (c\<lparr>reservation := r\<rparr>) n = reg c n"
  "ls_mode (c\<lparr>bus := b\<rparr>) = ls_mode c" "ls_mode (c\<lparr>reservation := r\<rparr>) = ls_mode c"
  "ls_mode (with_reg c n v) = ls_mode c"
  by (simp_all add: reg_def ls_mode_def)

section \<open>Properties of accesses\<close>

text \<open>
  C14. Faulting loads and stores are precise: one that fails reports a page fault or an access fault
  of its own kind, at the address of a byte of the access, also when the access was split at a page
  boundary, and nothing of the hart but the TLB and the bus has changed.
\<close>

theorem access_fault_precise:
  assumes "0 < n"
  shows "(case mmu_load c md va n of
      Some (d, Inl (cause, tval)) \<Rightarrow>
        cause \<in> {13, 5} \<and> (\<exists>i < n. tval = va + of_nat i) \<and> d\<lparr>mmu := mmu c, bus := bus c\<rparr> = c
    | _ \<Rightarrow> True) \<and>
    (case mmu_store c md va n v of
      Some (d, Inl (cause, tval)) \<Rightarrow>
        cause \<in> {15, 7} \<and> (\<exists>i < n. tval = va + of_nat i) \<and> d\<lparr>mmu := mmu c, bus := bus c\<rparr> = c
    | _ \<Rightarrow> True)"
  using mmu_load_reports [OF assms, of va c md] mmu_store_reports [OF assms, of va c md v]
  by (auto simp: same_core_def fault_in_def split: option.splits sum.splits)

theorem access_fault_precise_witness:
  "mmu_load (Cpu_new (Bus_new 16 0x80000000) 0x80000000) PrivMode_M 0xFFE 4 =
      Some (Cpu_new (Bus_new 16 0x80000000) 0x80000000, Inl (5, 0xFFE)) \<and> 5 \<in> {13, 5 :: u64}"
proof -
  let ?c = "Cpu_new (Bus_new 16 0x80000000) 0x80000000"
  have "\<not> in_ram (bus ?c) 0xFFE 1" "bus_wf (bus ?c)" "\<not> device_addr 0xFFE"
    by (simp_all add: Cpu_new_def Bus_new_def bus_wf_def plic_wf_new in_ram_def device_addr_def)
  then have "Cpu_load ?c 0xFFE 1 = Some (?c, Inl (BusFault 0xFFE 1))"
    by (simp add: Cpu_load_def Bus_fault(1))
  then have "load_bytes 2 ?c 0xFFE 0xFFE 0 0 0 = Some (?c, Inl (5, 0xFFE))"
    by (simp add: numeral_2_eq_2)
  then have "mmu_load ?c PrivMode_M 0xFFE 4 = Some (?c, Inl (5, 0xFFE))"
    by (simp add: mmu_load_def page_off_def Cpu_translate_bare paged_def Let_def)
  then show ?thesis
    using access_fault_precise [of 4 "0xFFE" ?c PrivMode_M 0] by simp
qed



end
