(* ===== verification/JitSim.thy ===== *)
theory JitSim
  imports Jit MemProps
begin

text \<open>
  The code of one instruction against the interpreter: what each emitter's code does to the hart it
  runs on is what the arm of \<open>execute\<close> does.
\<close>

section \<open>Symbolic execution\<close>

text \<open>
  The state inside a block: the two base registers, the hart, and the block's frame on the stack: the
  alignment word, the caller's \<open>r14\<close> and \<open>r15\<close>, the return address.  After the block has returned,
  the frame is gone and the two registers are the caller's again.
\<close>

type_synonym frame = "val \<times> val"

definition in_block :: "frame \<Rightarrow> cpu \<Rightarrow> x86 \<Rightarrow> bool" where
  "in_block f c s \<longleftrightarrow> xregs s R15 = Vregs \<and> xregs s R14 = Vcpu \<and>
     xstack s = [Vundef, fst f, snd f, Vret] \<and> guest s = c"

definition exited :: "frame \<Rightarrow> cpu \<Rightarrow> x86 \<Rightarrow> bool" where
  "exited f c s \<longleftrightarrow> xregs s R14 = fst f \<and> xregs s R15 = snd f \<and> xstack s = [] \<and> guest s = c"

lemma get_put [simp]: "get (put r v s) r' = (if r' = r then word_of v else get s r')"
  by (simp add: get_def put_def)

lemma put_fields [simp]:
  "xregs (put r v s) = (xregs s)(r := v)" "xflags (put r v s) = xflags s" "xstack (put r v s) = xstack s"
  "guest (put r v s) = guest s"
  by (simp_all add: put_def)

lemma set_flags_fields [simp]:
  "xregs (set_flags g s) = xregs s" "xflags (set_flags g s) = g" "xstack (set_flags g s) = xstack s"
  "guest (set_flags g s) = guest s" "get (set_flags g s) r = get s r"
  by (simp_all add: set_flags_def get_def)

lemma word_of_Vint [simp]: "word_of (Vint w) = Some w"
  by (simp add: word_of_def)

text \<open>Register slots.\<close>

lemma mem_get_scratch [simp]:
  "r \<noteq> base \<Longrightarrow> mem_get (put r v s) base off = mem_get s base off"
  "mem_get (set_flags g s) base off = mem_get s base off"
  by (simp_all add: mem_get_def mem_slot_def)

lemma in_block_scratch [simp]:
  "r \<noteq> R14 \<Longrightarrow> r \<noteq> R15 \<Longrightarrow> in_block f c (put r v s) = in_block f c s"
  "in_block f c (set_flags g s) = in_block f c s"
  by (simp_all add: in_block_def)

lemma mem_get_reg:
  "in_block f c s \<Longrightarrow> length (regs c) = 32 \<Longrightarrow> r < 32 \<Longrightarrow> mem_get s R15 (r * 8) = Some (regs c ! r)"
  by (simp add: in_block_def mem_get_def mem_slot_def)

lemma mem_put_reg:
  "in_block f c s \<Longrightarrow> length (regs c) = 32 \<Longrightarrow> r < 32 \<Longrightarrow> r \<noteq> 0 \<Longrightarrow>
    mem_put R15 (r * 8) w s = Some (s\<lparr>guest := with_reg c r w\<rparr>)"
  by (simp add: in_block_def mem_put_def mem_slot_def with_reg_def)

lemma in_block_guest: "in_block f c s \<Longrightarrow> in_block f d (s\<lparr>guest := d\<rparr>)"
  by (simp add: in_block_def)

text \<open>
  Code that runs through to what follows it: it takes the hart from \<open>c\<close> to \<open>c'\<close> (\<open>passes\<close>), or
  leaves the hart alone and a value in \<open>rax\<close> (\<open>computes\<close>).
\<close>

definition passes :: "insn list \<Rightarrow> cpu \<Rightarrow> cpu \<Rightarrow> bool" where
  "passes code c c' \<longleftrightarrow> (\<forall>f s rest. in_block f c s \<longrightarrow>
     (\<exists>s'. run (code @ rest) s = run rest s' \<and> in_block f c' s'))"

definition computes :: "insn list \<Rightarrow> cpu \<Rightarrow> u64 \<Rightarrow> bool" where
  "computes code c w \<longleftrightarrow> (\<forall>f s rest. in_block f c s \<longrightarrow>
     (\<exists>s'. run (code @ rest) s = run rest s' \<and> in_block f c s' \<and> get s' RAX = Some w))"

lemma computesI:
  assumes "\<And>f s rest. in_block f c s \<Longrightarrow> \<exists>s'. run (code @ rest) s = run rest s' \<and> in_block f c s' \<and> get s' RAX = Some w"
  shows "computes code c w"
  using assms by (simp add: computes_def)

text \<open>The end of a symbolic run.\<close>

lemma ran: "P s \<Longrightarrow> \<exists>s'. run rest s = run rest s' \<and> P s'"
  by blast

lemma put_rd_passes:
  assumes "computes code c w" "length (regs c) = 32" "rd < 32"
  shows "passes (code @ put_rd rd) c (with_reg c rd w)"
  unfolding passes_def
proof (intro allI impI)
  fix f s rest
  assume "in_block f c s"
  with assms(1) obtain s' where s': "run (code @ put_rd rd @ rest) s = run (put_rd rd @ rest) s'"
      "in_block f c s'" "get s' RAX = Some w"
    unfolding computes_def by blast
  show "\<exists>s'. run ((code @ put_rd rd) @ rest) s = run rest s' \<and> in_block f (with_reg c rd w) s'"
  proof (cases "rd = 0")
    case True
    then show ?thesis using s' by (auto simp: put_rd_def with_reg_def)
  next
    case False
    then have "run (put_rd rd @ rest) s' = run rest (s'\<lparr>guest := with_reg c rd w\<rparr>)"
      using s' assms by (simp add: put_rd_def mem_put_reg)
    then show ?thesis using s' in_block_guest [OF s'(2)] by auto
  qed
qed


section \<open>The values\<close>

lemma unat_and_less: "unat (b AND 0x3f) < 64" "unat (b AND 0x1f) < 32" for b :: u64
proof -
  have "b AND 0x3f \<le> 0x3f" "b AND 0x1f \<le> 0x1f" by (rule word_and_le1)+
  then show "unat (b AND 0x3f) < 64" "unat (b AND 0x1f) < 32" by (simp_all add: word_le_nat_alt)
qed

lemma shift_count:
  "unat (ucast (b AND 0x3f) :: u8) mod 64 = unat (b AND 0x3f)"
  "unat (ucast (b AND 0x1f) :: u8) mod 32 = unat (b AND 0x1f)" for b :: u64
proof -
  have "unat (ucast (b AND 0x3f) :: u8) = unat (b AND 0x3f)" "unat (ucast (b AND 0x1f) :: u8) = unat (b AND 0x1f)"
    using unat_and_less [of b] by (simp_all add: unsigned_ucast_eq take_bit_nat_eq_self)
  then show "unat (ucast (b AND 0x3f) :: u8) mod 64 = unat (b AND 0x3f)"
    "unat (ucast (b AND 0x1f) :: u8) mod 32 = unat (b AND 0x1f)"
    using unat_and_less [of b] by simp_all
qed

lemma int_div_63:
  fixes x :: int
  assumes "- (2 ^ 64) \<le> x" "x < 2 ^ 64"
  shows "x div 2 ^ 63 = (if x < - (2 ^ 63) then -2 else if x < 0 then -1 else if x < 2 ^ 63 then 0 else 1)"
    (is "_ = ?q")
  using assms by (intro int_div_pos_eq [where r = "x - 2 ^ 63 * ?q"]) auto

lemma signed_less_flags: "(sf (cmp_flags a b) \<noteq> ovf (cmp_flags a b)) = (a <s b)"
proof -
  define x where "x = sint a - sint b"
  have w: "a - b = word_of_int x"
    by (simp add: x_def wi_homs [symmetric])
  have "bit (a - b) 63 = bit x 63"
    unfolding w by (simp add: bit_word_of_int_iff)
  moreover have "x div 2 ^ 63 = (if x < - (2 ^ 63) then -2 else if x < 0 then -1 else if x < 2 ^ 63 then 0 else 1)"
    using sint_bounds [of a] sint_bounds [of b] by (intro int_div_63) (simp_all add: x_def)
  moreover have "sint (a - b) \<noteq> x \<longleftrightarrow> x < - (2 ^ 63) \<or> 2 ^ 63 \<le> x"
    using sint_bounds [of "a - b"] sint_in_range [of x, where 'a = 64] unfolding w
    by (cases "- (2 ^ 63) \<le> x"; cases "x < 2 ^ 63") auto
  moreover have "a <s b \<longleftrightarrow> x < 0"
    by (simp add: x_def word_sless_alt)
  ultimately show ?thesis
    unfolding bit_iff_odd [of x 63] by (auto simp: cmp_flags_def x_def [symmetric])
qed

lemma holds_cmp:
  "holds CondE (cmp_flags a b) = (a = b)" "holds CondNE (cmp_flags a b) = (a \<noteq> b)"
  "holds CondL (cmp_flags a b) = (a <s b)" "holds CondGE (cmp_flags a b) = (\<not> a <s b)"
  "holds CondB (cmp_flags a b) = (a < b)" "holds CondAE (cmp_flags a b) = (b \<le> a)"
  using signed_less_flags [of a b] by (auto simp: cmp_flags_def)

lemma holds_test:
  "holds CondE (test_flags w) = (w = 0)" "holds CondNE (test_flags w) = (w \<noteq> 0)"
  by (simp_all add: test_flags_def)

lemma setcc_value: "set_al a p AND 0xFF = (of_bool p :: u64)"
  by (rule word64_eqI, cases p) (simp_all add: set_al_def enum_bits)

declare holds.simps [simp del]

lemma ucast_lo32: "ucast (lo32 x) = x AND 0xFFFFFFFF"
  by (rule word64_eqI) (simp add: enum_bits)

lemma scast_small: "scast (63 :: u32) = (63 :: u64)" "scast (31 :: u32) = (31 :: u64)"
  by simp_all

text \<open>An immediate of at most 32 signed bits survives \<open>as i32\<close>.\<close>

lemma fits_imm32: "fits n imm \<Longrightarrow> 0 < n \<Longrightarrow> n \<le> 32 \<Longrightarrow> scast (lo32 imm) = imm"
proof -
  assume "fits n imm" "0 < n" "n \<le> 32"
  then have e: "imm = signed_take_bit (n - 1) imm" and n: "n - 1 \<le> 31" by (simp_all add: fits_def)
  have "scast (lo32 imm) = signed_take_bit 31 imm"
    by (rule bit_word_eqI) (auto simp: bit_simps min_def)
  also have "\<dots> = imm"
    using n by (subst (1 2) e) (simp add: min_def)
  finally show ?thesis .
qed
section \<open>Arithmetic\<close>

lemma shift_count_w: "unat (ucast (ucast (lo32 b AND 0x1f) :: u64) :: u8) mod 32 = unat (b AND 0x1f)" for b :: u64
proof -
  have "ucast (lo32 b AND 0x1f) = b AND 0x1f"
    by (rule word64_eqI) (simp add: enum_bits)
  then show ?thesis by (simp only: shift_count)
qed

lemmas run_values = holds_cmp setcc_value shift_count shift_count_w sext_31 lo32_arith lo32_shl

lemma emit_r_passes:
  assumes "length (regs c) = 32" "rd < 32" "rs1 < 32" "rs2 < 32"
  shows "passes (emit_r op rd rs1 rs2) c (with_reg c rd (r_value op (regs c ! rs1) (regs c ! rs2)))"
  apply (cases op; simp only: emit_r.simps emit_r_op_def emit_shift_r_def emit_set_r_def emit_w_op_def emit_shift_w_def append_assoc [symmetric];
       rule put_rd_passes [OF computesI assms(1,2)]) 
  apply (simp_all add: mem_get_reg run_values assms split del: split_of_bool)
  apply (rule ran, simp add: run_values split del: split_of_bool)+
  done

lemma emit_i_passes:
  assumes "length (regs c) = 32" "rd < 32" "rs1 < 32" "scast (lo32 imm) = imm"
  shows "passes (emit_i op rd rs1 imm) c (with_reg c rd (i_value op (regs c ! rs1) imm))"
  apply (cases op; simp only: emit_i.simps emit_i_op_def emit_set_i_def append_assoc [symmetric];
       rule put_rd_passes [OF computesI assms(1,2)])
  apply (simp_all add: mem_get_reg run_values assms split del: split_of_bool)
  apply (rule ran, simp add: run_values assms split del: split_of_bool)+
  done

lemma shift_amount: "n < 64 \<Longrightarrow> unat (of_nat n :: u8) = n"
  by (simp add: unat_of_nat)

lemma emit_shift_passes:
  assumes "length (regs c) = 32" "rd < 32" "rs1 < 32" "shamt < (if is_w_shift op then 32 else 64)"
  shows "passes (emit_shift op rd rs1 shamt) c (with_reg c rd (shift_value op (regs c ! rs1) shamt))"
proof -
  have n: "unat (of_nat shamt :: u8) = shamt" "shamt < 64"
    using assms(4) shift_amount [of shamt] by (auto split: if_splits)
  have w: "shamt mod 32 = shamt" if "is_w_shift op"
    using assms(4) that by simp
  show ?thesis
    apply (cases op; simp only: emit_shift.simps emit_shift_i_def emit_shift_iw_def append_assoc [symmetric];
        rule put_rd_passes [OF computesI assms(1,2)])
         apply (simp_all add: mem_get_reg run_values assms n w is_w_shift_def)
         apply (rule ran, simp add: run_values)+
    done
qed

section \<open>Multiplication and division\<close>

lemma high_word: "ucast (shr (p :: u128) 64) = (ucast (sar p 64) :: u64)"
  by (rule bit_word_eqI) (auto simp: bit_simps bit_signed_drop_bit_iff)

lemma mul_low: "m_value Mul a b = a * b"
  unfolding m_value_products by (simp add: wi_homs [symmetric])

lemma mul_wide_high:
  "fst (mul_wide True a b) = m_value Mulh a b" "fst (mul_wide False a b) = m_value Mulhu a b"
  by (simp_all add: mul_wide_def Let_def high_word [symmetric])

lemma sign_extended: fixes a :: u64 shows "sint (if bit a 63 then -1 else 0 :: u64) * 2 ^ 64 + uint a = sint a"
proof -
  have "sint a = uint a - (if bit a 63 then 2 ^ 64 else 0)"
    using uint_bounds [of a] by (simp add: sint_uint signed_take_bit_eq_take_bit_minus bit_uint_iff take_bit_int_eq_self)
  then show ?thesis by simp
qed

lemma idiv_value:
  assumes "d \<noteq> 0" "\<not> (a = i64_MIN \<and> d = -1)"
  shows "div_wide True (if bit a 63 then -1 else 0) a d =
    Some (word_of_int (sint a sdiv sint d), word_of_int (sint a smod sint d))"
proof -
  have "\<not> (sint a = - (2 ^ 63) \<and> sint d = -1)"
    using assms(2) unfolding min_word .
  then have "- (2 ^ 63) \<le> sint a sdiv sint d \<and> sint a sdiv sint d < 2 ^ 63"
    using sint_bounds [of a] by (intro sdiv_in_range) auto
  then show ?thesis
    using assms(1) unfolding div_wide_def sign_extended Let_def by simp
qed

lemma div_value: "d \<noteq> 0 \<Longrightarrow> div_wide False 0 a d = Some (a div d, a mod d)"
proof -
  assume "d \<noteq> 0"
  have "uint a div uint d < 2 ^ 64" using uint_bounds [of "a div d"] by (simp only: uint_div)
  then show ?thesis using \<open>d \<noteq> 0\<close> by (simp add: div_wide_def Let_def word_div_def word_mod_def)
qed

lemma div_value32: "d \<noteq> 0 \<Longrightarrow> div_wide32 0 a d = Some (a div d, a mod d)"
proof -
  assume "d \<noteq> 0"
  have "uint (a div d) < 2 ^ 32" using uint_bounded [of "a div d"] by simp
  then have "uint a div uint d < 2 ^ 32" by (simp only: uint_div)
  then show ?thesis using \<open>d \<noteq> 0\<close> by (simp add: div_wide32_def Let_def word_div_def word_mod_def)
qed

lemma sint_scast32: "sint (scast (x :: u32) :: u64) = sint x"
proof -
  have "- (2 ^ 31) \<le> sint x" "sint x < 2 ^ 31"
    using sint_greater_eq [of x] sint_less [of x] by simp_all
  then show ?thesis unfolding scast_eq by (intro sint_in_range) simp_all
qed

lemma scast32_eq: "scast (x :: u32) = (scast y :: u64) \<longleftrightarrow> x = y"
  using lo32_scast by metis

lemma scast32_consts: "scast (x :: u32) = (0 :: u64) \<longleftrightarrow> x = 0" "scast (x :: u32) = (-1 :: u64) \<longleftrightarrow> x = -1"
  using scast32_eq [of x 0] scast32_eq [of x "-1"] by simp_all

lemma ucast32_eq_0: "ucast (x :: u32) = (0 :: u64) \<longleftrightarrow> x = 0"
  using lo32_ucast [of x] by (metis lo32_ucast unsigned_0)

lemma lo32_word_of_int: "lo32 (word_of_int x) = word_of_int x"
  by (rule bit_word_eqI) (simp add: bit_simps)

lemma movsx_4: "signed_take_bit 31 w = (scast (lo32 w) :: u64)"
  by (rule bit_word_eqI) (auto simp: bit_simps min_def)

lemma scast32_not_min: "scast (x :: u32) \<noteq> i64_MIN"
proof -
  have "sint (scast x :: u64) \<noteq> - (2 ^ 63)"
    unfolding sint_scast32 using sint_greater_eq [of x] by simp
  then show ?thesis unfolding min_word .
qed
lemma lo32_uminus: "lo32 (- a) = - lo32 a"
  using lo32_arith(2) [of 0 a] by simp

lemmas emit_m_code = emit_m.simps option.inject emit_r_op_def emit_mulh_def emit_divw_def emit_divuw_def emit_remw_def
  emit_remuw_def append_assoc [symmetric]

lemmas run_m_values = mem_get_reg run_values holds_test mul_low mul_wide_high div_value div_value32 movsx_4
  scast32_eq scast32_consts ucast32_eq_0 lo32_word_of_int split_def idiv_value sint_scast32 scast32_not_min lo32_uminus

lemma emit_m_passes_64:
  assumes "emit_m lb op rd rs1 rs2 = Some code" "op \<in> {Mul, Mulh, Mulhu, Div, Divu, Rem, Remu}"
    and "length (regs c) = 32" "rd < 32" "rs1 < 32" "rs2 < 32"
  shows "passes code c (with_reg c rd (m_value op (regs c ! rs1) (regs c ! rs2)))"
  apply (insert assms(1,2); elim insertE emptyE; hypsubst_thin; simp only: emit_m_code; erule subst;
      rule put_rd_passes [OF computesI assms(3,4)];
      cases "regs c ! rs2 = 0"; cases "regs c ! rs1 = i64_MIN"; cases "regs c ! rs2 = -1")
  apply (simp_all add: run_m_values assms(3-6) del: m_value.simps(1-4) split del: if_split split_of_bool)
  apply (rule ran, simp add: run_m_values del: m_value.simps(1-4) split del: if_split split_of_bool)+
  done

lemma emit_m_passes_32:
  assumes "emit_m lb op rd rs1 rs2 = Some code" "op \<in> {Mulw, Divw, Divuw, Remw, Remuw}"
    and "length (regs c) = 32" "rd < 32" "rs1 < 32" "rs2 < 32"
  shows "passes code c (with_reg c rd (m_value op (regs c ! rs1) (regs c ! rs2)))"
  apply (insert assms(1,2); elim insertE emptyE; hypsubst_thin; simp only: emit_m_code; erule subst;
      rule put_rd_passes [OF computesI assms(3,4)];
      cases "lo32 (regs c ! rs2) = 0"; cases "lo32 (regs c ! rs1) = i32_MIN"; cases "lo32 (regs c ! rs2) = -1")
  apply (simp_all add: run_m_values assms(3-6) split del: if_split split_of_bool)
  apply (rule ran, simp add: run_m_values split del: if_split split_of_bool)+
  done
section \<open>Ends of an instruction's code\<close>

text \<open>
  How the code of one instruction, or of a whole block, can end: it runs into what follows with a new
  hart, returns from the block with a value in \<open>rax\<close>, or a memory access does not return.
\<close>

datatype (plugins only: code) block_end = Pass cpu | Leave u64 cpu | Hang

definition sim :: "insn list \<Rightarrow> cpu \<Rightarrow> block_end \<Rightarrow> bool" where
  "sim code c e \<longleftrightarrow> (\<forall>f s rest. in_block f c s \<longrightarrow> (case e of
     Pass c' \<Rightarrow> \<exists>s'. run (code @ rest) s = run rest s' \<and> in_block f c' s'
   | Leave w c' \<Rightarrow> \<exists>s'. run (code @ rest) s = Returned (Vint w) s' \<and> exited f c' s'
   | Hang \<Rightarrow> run (code @ rest) s = NoReturn))"

lemma sim_Pass: "sim code c (Pass c') \<longleftrightarrow> passes code c c'"
  by (simp add: sim_def passes_def)

lemma sim_LeaveD: "sim code c (Leave w c') \<Longrightarrow> in_block f c s \<Longrightarrow>
    \<exists>s'. run (code @ rest) s = Returned (Vint w) s' \<and> exited f c' s'"
  unfolding sim_def block_end.case by blast

lemma sim_append_Pass: "sim code1 c (Pass c') \<Longrightarrow> sim code2 c' e \<Longrightarrow> sim (code1 @ code2) c e"
  unfolding sim_def by (cases e; simp; metis)

lemma sim_append_Leave: "sim code1 c (Leave w c') \<Longrightarrow> sim (code1 @ code2) c (Leave w c')"
  by (simp add: sim_def)

lemma sim_append_Hang: "sim code1 c Hang \<Longrightarrow> sim (code1 @ code2) c Hang"
  by (simp add: sim_def)

lemma sim_Nil: "sim [] c (Pass c)"
  by (auto simp: sim_def)

lemma ran_out: "P s \<Longrightarrow> \<exists>s'. Returned w s = Returned w s' \<and> P s'"
  by blast

lemma emit_return_leaves: "sim (emit_return w) c (Leave w c)"
  by (auto simp: sim_def emit_return_def in_block_def exited_def)

lemma emit_slow_path_leaves: "sim emit_slow_path c (Leave u64_MAX c)"
  by (auto simp: sim_def emit_slow_path_def in_block_def exited_def)

lemma emit_fault_return_leaves: "sim (emit_fault_return w) c (Leave u64_MAX (c\<lparr>pc := w\<rparr>))"
  by (auto simp: sim_def emit_fault_return_def in_block_def exited_def get_def)

section \<open>Loads and stores\<close>

lemma jit_load_core: "jit_load n c a = Some (c1, v) \<Longrightarrow> same_core c c1"
  by (auto simp: jit_load_def same_core_def Cpu_translate_def Cpu_load_def split: bind_splits sum.splits)

lemma jit_store_core: "jit_store n c a w = Some (c1, v) \<Longrightarrow> same_core c c1"
  by (auto simp: jit_store_def same_core_def Cpu_translate_def Cpu_store_def split: bind_splits sum.splits)

lemma same_core_regs: "same_core c d \<Longrightarrow> regs d = regs c"
  unfolding same_core_def by (cases c; cases d) simp

definition load_end :: "u64 \<Rightarrow> nat \<Rightarrow> (u64 \<Rightarrow> u64) \<Rightarrow> (cpu \<times> u64) option \<Rightarrow> block_end" where
  "load_end gpc rd ext r = (case r of
     None \<Rightarrow> Hang
   | Some (c, v) \<Rightarrow> if v = u64_MAX then Leave u64_MAX (c\<lparr>pc := gpc\<rparr>) else Pass (with_reg c rd (ext v)))"

definition store_end :: "u64 \<Rightarrow> (cpu \<times> u64) option \<Rightarrow> block_end" where
  "store_end gpc r = (case r of
     None \<Rightarrow> Hang
   | Some (c, v) \<Rightarrow> if v = u64_MAX then Leave u64_MAX (c\<lparr>pc := gpc\<rparr>) else Pass c)"

text \<open>The state after the helper's call has returned \<open>v\<close>.\<close>

definition called :: "cpu \<Rightarrow> u64 \<Rightarrow> x86 \<Rightarrow> x86" where
  "called c v s = s\<lparr>guest := c, xflags := None, xregs := (xregs s)(RAX := Vint v, RCX := Vundef, RDX := Vundef,
     RSI := Vundef, RDI := Vundef)\<rparr>"

lemma called_simps [simp]: "get (called c v s) RAX = Some v" "in_block f d s \<Longrightarrow> in_block f c (called c v s)"
  by (simp_all add: called_def get_def in_block_def)

lemma call_load:
  "in_block f c s \<Longrightarrow> get s RSI = Some a \<Longrightarrow> xregs s RDI = Vcpu \<Longrightarrow>
    call_helper (JitLoad n) s = Some (map_option (\<lambda>(c1, v). called c1 v s) (jit_load n c a))"
  by (cases "jit_load n c a") (auto simp: call_helper_def in_block_def called_def)

lemma call_store:
  "in_block f c s \<Longrightarrow> get s RSI = Some a \<Longrightarrow> get s RDX = Some w \<Longrightarrow> xregs s RDI = Vcpu \<Longrightarrow>
    call_helper (JitStore n) s = Some (map_option (\<lambda>(c1, v). called c1 v s) (jit_store n c a w))"
  by (cases "jit_store n c a w") (auto simp: call_helper_def in_block_def called_def)

text \<open>What follows the call of a helper: compare with the failure value, go on or leave.\<close>

definition callout_tail :: "nat \<Rightarrow> insn list \<Rightarrow> u64 \<Rightarrow> insn list" where
  "callout_tail lb code gpc = CmpRI RAX (-1) # Jcc CondE (Dyn lb) # code @
    [Jmp (Dyn (lb + 1)), Label (Dyn lb)] @ emit_fault_return gpc @ [Label (Dyn (lb + 1))]"

lemma after_put_rd: "after l (put_rd rd @ xs) = after l xs"
  by (simp add: put_rd_def)

lemma all_ones: "(-1 :: u64) = u64_MAX"
  by simp

lemma callout_fault:
  assumes "in_block f c s" "get s RAX = Some u64_MAX" "\<And>xs. after (Dyn lb) (code @ xs) = after (Dyn lb) xs"
  shows "\<exists>s'. run (callout_tail lb code gpc @ rest) s = Returned (Vint u64_MAX) s' \<and> exited f (c\<lparr>pc := gpc\<rparr>) s'"
proof -
  let ?s = "set_flags (Some (cmp_flags u64_MAX (-1))) s"
  have "in_block f c ?s" using assms(1) by simp
  then have "\<exists>s'. run (emit_fault_return gpc @ Label (Dyn (Suc lb)) # rest) ?s = Returned (Vint u64_MAX) s' \<and>
      exited f (c\<lparr>pc := gpc\<rparr>) s'"
    by (rule sim_LeaveD [OF emit_fault_return_leaves])
  then show ?thesis
    using assms(2,3) by (simp add: callout_tail_def holds_cmp)
qed

lemma callout_pass:
  assumes "in_block f c s" "get s RAX = Some v" "v \<noteq> u64_MAX"
    and "\<And>s rest. in_block f c s \<Longrightarrow> get s RAX = Some v \<Longrightarrow> \<exists>s'. run (code @ rest) s = run rest s' \<and> in_block f c' s'"
  shows "\<exists>s'. run (callout_tail lb code gpc @ rest) s = run rest s' \<and> in_block f c' s'"
proof -
  let ?s = "set_flags (Some (cmp_flags v (-1))) s"
  let ?rest = "Jmp (Dyn (Suc lb)) # Label (Dyn lb) # emit_fault_return gpc @ Label (Dyn (Suc lb)) # rest"
  obtain s' where "run (code @ ?rest) ?s = run ?rest s'" "in_block f c' s'"
    using assms(1,2) assms(4) [of ?s ?rest] by auto
  moreover have "run ?rest s' = run rest s'" by (simp add: emit_fault_return_def)
  ultimately show ?thesis
    using assms(2,3) by (auto simp: callout_tail_def holds_cmp)
qed

lemma put_rd_block:
  assumes "in_block f c s" "get s RAX = Some w" "length (regs c) = 32" "rd < 32"
  shows "\<exists>s'. run (put_rd rd @ rest) s = run rest s' \<and> in_block f (with_reg c rd w) s'"
proof (cases "rd = 0")
  case True
  then show ?thesis using assms(1) by (auto simp: put_rd_def with_reg_def)
next
  case False
  then have "run (put_rd rd @ rest) s = run rest (s\<lparr>guest := with_reg c rd w\<rparr>)"
    using assms by (simp add: put_rd_def mem_put_reg)
  then show ?thesis using in_block_guest [OF assms(1)] by auto
qed

lemma emit_load_sim:
  assumes "length (regs c) = 32" "rd < 32" "rs1 < 32" "scast (lo32 imm) = imm"
  shows "sim (emit_load lb rd rs1 imm n gpc) c (load_end gpc rd id (jit_load n c (regs c ! rs1 + imm)))"
  unfolding sim_def
proof (intro allI impI)
  fix f s rest
  let ?a = "regs c ! rs1 + imm"
  assume b: "in_block f c s"
  define s1 where "s1 = put RAX (Vhelper (JitLoad n)) (put RDI Vcpu (put RSI (Vint ?a)
    (set_flags None (put RSI (Vint (regs c ! rs1)) s))))"
  have b1: "in_block f c s1" using b by (simp add: s1_def)
  have call: "call_helper (JitLoad n) s1 = Some (map_option (\<lambda>(c1, v). called c1 v s1) (jit_load n c ?a))"
    using call_load [OF b1] by (simp add: s1_def)
  have r14: "xregs s R14 = Vcpu" using b by (simp add: in_block_def)
  have start: "run (emit_load lb rd rs1 imm n gpc @ rest) s = (case call_helper (JitLoad n) s1 of
      None \<Rightarrow> Stuck | Some None \<Rightarrow> NoReturn
    | Some (Some s2) \<Rightarrow> run (callout_tail lb (put_rd rd) gpc @ rest) s2)"
    using b r14 assms by (simp add: emit_load_def mem_get_reg s1_def callout_tail_def del: run.simps(1)
        split: option.split)
  show "case load_end gpc rd id (jit_load n c ?a) of
      Pass c' \<Rightarrow> \<exists>s'. run (emit_load lb rd rs1 imm n gpc @ rest) s = run rest s' \<and> in_block f c' s'
    | Leave w c' \<Rightarrow> \<exists>s'. run (emit_load lb rd rs1 imm n gpc @ rest) s = Returned (Vint w) s' \<and> exited f c' s'
    | Hang \<Rightarrow> run (emit_load lb rd rs1 imm n gpc @ rest) s = NoReturn"
  proof (cases "jit_load n c ?a")
    case None
    then show ?thesis by (simp add: start call load_end_def)
  next
    case (Some r)
    obtain c1 v where r: "jit_load n c ?a = Some (c1, v)" using Some by (cases r) simp
    have b2: "in_block f c1 (called c1 v s1)" "get (called c1 v s1) RAX = Some v" using b1 by simp_all
    have l: "length (regs c1) = 32" using same_core_regs [OF jit_load_core [OF r]] assms(1) by simp
    show ?thesis
      using callout_fault [of f c1 "called c1 v s1" lb "put_rd rd" gpc rest] b2 after_put_rd [of "Dyn lb" rd]
        callout_pass [OF b2, of "put_rd rd" "with_reg c1 rd v" lb gpc rest] put_rd_block [OF _ _ l assms(2)]
      by (simp add: start call r load_end_def)
  qed
qed

lemma emit_store_sim:
  assumes "length (regs c) = 32" "rs1 < 32" "rs2 < 32" "scast (lo32 imm) = imm"
  shows "sim (emit_store lb rs1 rs2 imm n gpc) c (store_end gpc (jit_store n c (regs c ! rs1 + imm) (regs c ! rs2)))"
  unfolding sim_def
proof (intro allI impI)
  fix f s rest
  let ?a = "regs c ! rs1 + imm" and ?w = "regs c ! rs2"
  assume b: "in_block f c s"
  define s1 where "s1 = put RAX (Vhelper (JitStore n)) (put RDI Vcpu (put RDX (Vint ?w) (put RSI (Vint ?a)
    (set_flags None (put RSI (Vint (regs c ! rs1)) s)))))"
  have b1: "in_block f c s1" using b by (simp add: s1_def)
  have call: "call_helper (JitStore n) s1 = Some (map_option (\<lambda>(c1, v). called c1 v s1) (jit_store n c ?a ?w))"
    using call_store [OF b1] by (simp add: s1_def)
  have r14: "xregs s R14 = Vcpu" using b by (simp add: in_block_def)
  have start: "run (emit_store lb rs1 rs2 imm n gpc @ rest) s = (case call_helper (JitStore n) s1 of
      None \<Rightarrow> Stuck | Some None \<Rightarrow> NoReturn
    | Some (Some s2) \<Rightarrow> run (callout_tail lb [] gpc @ rest) s2)"
    using b r14 assms by (simp add: emit_store_def mem_get_reg s1_def callout_tail_def del: run.simps(1)
        split: option.split)
  show "case store_end gpc (jit_store n c ?a ?w) of
      Pass c' \<Rightarrow> \<exists>s'. run (emit_store lb rs1 rs2 imm n gpc @ rest) s = run rest s' \<and> in_block f c' s'
    | Leave w c' \<Rightarrow> \<exists>s'. run (emit_store lb rs1 rs2 imm n gpc @ rest) s = Returned (Vint w) s' \<and> exited f c' s'
    | Hang \<Rightarrow> run (emit_store lb rs1 rs2 imm n gpc @ rest) s = NoReturn"
  proof (cases "jit_store n c ?a ?w")
    case None
    then show ?thesis by (simp add: start call store_end_def)
  next
    case (Some r)
    obtain c1 v where r: "jit_store n c ?a ?w = Some (c1, v)" using Some by (cases r) simp
    have b2: "in_block f c1 (called c1 v s1)" "get (called c1 v s1) RAX = Some v" using b1 by simp_all
    show ?thesis
      using callout_fault [of f c1 "called c1 v s1" lb "[]" gpc rest] b2
        callout_pass [OF b2, of "[]" c1 lb gpc rest]
      by (auto simp: start call r store_end_def)
  qed
qed
section \<open>Every instruction\<close>

lemma sext_eq_signed_take_bit: "b < 64 \<Longrightarrow> sext v b = signed_take_bit b v"
proof (rule bit_word_eqI)
  fix n assume "b < 64" "n < LENGTH(64)"
  then show "bit (sext v b) n = bit (signed_take_bit b v) n"
    by (cases n b rule: linorder_cases) (auto simp: sext_def Let_def bit_simps bit_signed_drop_bit_iff min_def)
qed

lemma with_reg_again [simp]: "with_reg (with_reg c n v) n w = with_reg c n w"
  by (simp add: with_reg_def)

lemma length_regs_with_reg [simp]: "length (regs (with_reg c n v)) = length (regs c)"
  by (simp add: with_reg_def)

lemma nth_regs_with_reg: "n \<noteq> 0 \<Longrightarrow> n < length (regs c) \<Longrightarrow> regs (with_reg c n v) ! n = v"
  by (simp add: with_reg_def)

lemma extend_rd_passes:
  assumes "length (regs c) = 32" "rd < 32"
  shows "sim (extend_rd n rd) (with_reg c rd v) (Pass (with_reg c rd (signed_take_bit (8 * n - 1) v)))"
proof (cases "rd = 0")
  case True
  then show ?thesis using sim_Nil by (simp add: extend_rd_def with_reg_def)
next
  case False
  have "passes ([MovsxRM n RAX R15 (rd * 8)] @ put_rd rd) (with_reg c rd v)
      (with_reg (with_reg c rd v) rd (signed_take_bit (8 * n - 1) v))"
    by (rule put_rd_passes [OF computesI])
      (simp add: mem_get_reg assms nth_regs_with_reg False, rule ran, simp, simp_all add: assms)
  then show ?thesis using False by (simp add: sim_Pass extend_rd_def put_rd_def)
qed

lemma load_extended:
  assumes "length (regs c) = 32" "rd < 32" "sim code c (load_end gpc rd id r)" "same_core c (fst (the r))"
  shows "sim (code @ extend_rd n rd) c (load_end gpc rd (signed_take_bit (8 * n - 1)) r)"
proof (cases r)
  case None
  then show ?thesis using assms(3) by (simp add: load_end_def sim_append_Hang)
next
  case (Some x)
  obtain c1 v where x: "x = (c1, v)" by (cases x)
  have l: "length (regs c1) = 32" using assms(1,4) same_core_regs Some x by fastforce
  show ?thesis
    using assms(3) sim_append_Pass [OF _ extend_rd_passes [OF l assms(2)]]
    by (auto simp: load_end_def Some x intro: sim_append_Leave)
qed

lemma emit_load_op_sim:
  assumes "length (regs c) = 32" "rd < 32" "rs1 < 32" "scast (lo32 imm) = imm"
  shows "sim (emit_load_op lb op rd rs1 imm gpc) c
    (load_end gpc rd (load_value op) (jit_load (load_width op) c (regs c ! rs1 + imm)))"
proof -
  have core: "jit_load n c a \<noteq> None \<Longrightarrow> same_core c (fst (the (jit_load n c a)))" for n a
    using jit_load_core by fastforce
  have ext: "sim (emit_load lb rd rs1 imm n gpc @ extend_rd n rd) c
      (load_end gpc rd (signed_take_bit (8 * n - 1)) (jit_load n c (regs c ! rs1 + imm)))" for n
  proof (cases "jit_load n c (regs c ! rs1 + imm)")
    case None
    then show ?thesis using emit_load_sim [OF assms, of lb n gpc] by (simp add: load_end_def sim_append_Hang)
  next
    case (Some r)
    then show ?thesis
      using load_extended [OF assms(1,2) emit_load_sim [OF assms, of lb n gpc] core] by simp
  qed
  have v: "load_value Lb = signed_take_bit (8 * 1 - 1)" "load_value Lh = signed_take_bit (8 * 2 - 1)"
    "load_value Lw = signed_take_bit (8 * 4 - 1)" "load_value Ld = id" "load_value Lbu = id"
    "load_value Lhu = id" "load_value Lwu = id"
    by (simp_all add: fun_eq_iff sext_eq_signed_take_bit)
  show ?thesis
    by (cases op; simp only: emit_load_op.simps load_width.simps v) (rule ext emit_load_sim [OF assms])+
qed

fun jit_end :: "u64 \<Rightarrow> u64 \<Rightarrow> cpu \<Rightarrow> instruction \<Rightarrow> block_end" where
  "jit_end gpc nxt c (RType op rd rs1 rs2) = Pass (with_reg c rd (r_value op (regs c ! rs1) (regs c ! rs2)))"
| "jit_end gpc nxt c (MType op rd rs1 rs2) = Pass (with_reg c rd (m_value op (regs c ! rs1) (regs c ! rs2)))"
| "jit_end gpc nxt c (IType op rd rs1 imm) = Pass (with_reg c rd (i_value op (regs c ! rs1) imm))"
| "jit_end gpc nxt c (Shift op rd rs1 shamt) = Pass (with_reg c rd (shift_value op (regs c ! rs1) shamt))"
| "jit_end gpc nxt c (Lui rd imm) = Pass (with_reg c rd imm)"
| "jit_end gpc nxt c (Auipc rd imm) = Pass (with_reg c rd (gpc + imm))"
| "jit_end gpc nxt c (Load op rd rs1 imm) =
     load_end gpc rd (load_value op) (jit_load (load_width op) c (regs c ! rs1 + imm))"
| "jit_end gpc nxt c (Store op rs1 rs2 imm) =
     store_end gpc (jit_store (store_width op) c (regs c ! rs1 + imm) (regs c ! rs2))"
| "jit_end gpc nxt c (Branch op rs1 rs2 imm) =
     Leave (if branch_taken op (regs c ! rs1) (regs c ! rs2) then gpc + imm else nxt) c"
| "jit_end gpc nxt c (Jal rd imm) = Leave (gpc + imm) (with_reg c rd nxt)"
| "jit_end gpc nxt c (Jalr rd rs1 imm) = Leave ((regs c ! rs1 + imm) AND NOT 1) (with_reg c rd nxt)"
| "jit_end gpc nxt c _ = Pass c"

lemma set_rd_passes:
  assumes "length (regs c) = 32" "rd < 32"
  shows "sim (if rd \<noteq> 0 then [MovRI RAX w, MovMR R15 (rd * 8) RAX] else []) c (Pass (with_reg c rd w))"
proof -
  have "passes ([MovRI RAX w] @ put_rd rd) c (with_reg c rd w)"
    by (rule put_rd_passes [OF computesI]) (simp, rule ran, simp, simp_all add: assms)
  then show ?thesis using sim_Nil by (auto simp: sim_Pass put_rd_def with_reg_def)
qed

lemma emit_branch_sim:
  assumes "length (regs c) = 32" "rs1 < 32" "rs2 < 32"
  shows "sim (emit_branch lb op rs1 rs2 t nxt) c
    (Leave (if branch_taken op (regs c ! rs1) (regs c ! rs2) then t else nxt) c)"
  unfolding sim_def block_end.case
proof (intro allI impI)
  fix f s rest
  let ?a = "regs c ! rs1" and ?b = "regs c ! rs2"
  assume b: "in_block f c s"
  define s1 where "s1 = set_flags (Some (cmp_flags ?a ?b)) (put RAX (Vint ?a) s)"
  have b1: "in_block f c s1" using b by (simp add: s1_def)
  have h: "holds (branch_cond op) (cmp_flags ?a ?b) = branch_taken op ?a ?b"
    by (cases op) (simp_all add: holds_cmp)
  have "run (emit_branch lb op rs1 rs2 t nxt @ rest) s =
      (if branch_taken op ?a ?b then run (emit_return t @ rest) s1
       else run (emit_return nxt @ Label (Dyn lb) # emit_return t @ rest) s1)"
    using b assms by (simp add: emit_branch_def mem_get_reg h s1_def emit_return_def)
  then show "\<exists>s'. run (emit_branch lb op rs1 rs2 t nxt @ rest) s =
      Returned (Vint (if branch_taken op ?a ?b then t else nxt)) s' \<and> exited f c s'"
    using sim_LeaveD [OF emit_return_leaves b1] by simp
qed

lemma emit_return_rcx_leaves:
  "in_block f c s \<Longrightarrow> get s RCX = Some w \<Longrightarrow>
    \<exists>s'. run (emit_return_rcx @ rest) s = Returned (Vint w) s' \<and> exited f c s'"
  by (auto simp: emit_return_rcx_def in_block_def exited_def get_def word_of_def split: val.splits)

lemma scast_minus_2: "scast (- 2 :: u32) = (NOT 1 :: u64)"
  by simp

lemma get_guest [simp]: "get (s\<lparr>guest := c\<rparr>) r = get s r"
  by (simp add: get_def)

lemma in_block_self: "in_block f d (s\<lparr>guest := d\<rparr>) = in_block f (guest s) s"
  by (simp add: in_block_def)

lemma emit_jalr_sim:
  assumes "length (regs c) = 32" "rd < 32" "rs1 < 32" "scast (lo32 imm) = imm"
  shows "sim (emit_jalr rd rs1 imm nxt) c (Leave ((regs c ! rs1 + imm) AND NOT 1) (with_reg c rd nxt))"
  unfolding sim_def block_end.case
proof (intro allI impI)
  fix f s rest
  let ?t = "(regs c ! rs1 + imm) AND NOT 1"
  assume b: "in_block f c s"
  show "\<exists>s'. run (emit_jalr rd rs1 imm nxt @ rest) s = Returned (Vint ?t) s' \<and> exited f (with_reg c rd nxt) s'"
  proof (cases "rd = 0")
    case True
    show ?thesis
      using b assms
      by (simp add: emit_jalr_def True mem_get_reg) (rule emit_return_rcx_leaves, simp_all add: with_reg_def)
  next
    case False
    show ?thesis
      using b assms False
      by (simp add: emit_jalr_def mem_get_reg mem_put_reg)
        (rule emit_return_rcx_leaves, auto simp: in_block_def)
  qed
qed

lemma emit_inst_sim:
  assumes "emit_inst lb gpc nxt i = (code, eff)" "eff \<noteq> Unhandled" "length (regs c) = 32" "encodable i"
  shows "sim code c (jit_end gpc nxt c i)"
proof -
  have fits: "fits 12 imm \<Longrightarrow> scast (lo32 imm) = imm" for imm
    using fits_imm32 [of 12 imm] by simp
  show ?thesis
  proof (cases i)
    case (RType op rd rs1 rs2)
    then show ?thesis using assms emit_r_passes [of c rd rs1 rs2 op] by (auto simp: sim_Pass)
  next
    case (MType op rd rs1 rs2)
    then obtain code' where m: "emit_m lb op rd rs1 rs2 = Some code'" "code = code'"
      using assms by (auto split: option.splits)
    have r: "rd < 32" "rs1 < 32" "rs2 < 32" using MType assms(4) by simp_all
    have "op \<in> {Mul, Mulh, Mulhu, Div, Divu, Rem, Remu} \<or> op \<in> {Mulw, Divw, Divuw, Remw, Remuw}"
      using m by (cases op) auto
    then show ?thesis
      unfolding MType jit_end.simps sim_Pass m(2)
      using emit_m_passes_64 [OF m(1) _ assms(3) r] emit_m_passes_32 [OF m(1) _ assms(3) r] by blast
  next
    case (IType op rd rs1 imm)
    then show ?thesis using assms emit_i_passes [of c rd rs1 imm op] fits by (auto simp: sim_Pass)
  next
    case (Shift op rd rs1 shamt)
    then show ?thesis using assms emit_shift_passes [of c rd rs1 shamt op] by (auto simp: sim_Pass)
  next
    case (Load op rd rs1 imm)
    then show ?thesis using assms emit_load_op_sim [of c rd rs1 imm lb op gpc] fits by auto
  next
    case (Store op rs1 rs2 imm)
    then show ?thesis using assms emit_store_sim [of c rs1 rs2 imm lb _ gpc] fits by auto
  next
    case (Branch op rs1 rs2 imm)
    then show ?thesis using assms emit_branch_sim [of c rs1 rs2 lb op] by auto
  next
    case (Jal rd imm)
    then show ?thesis
      using assms sim_append_Pass [OF set_rd_passes emit_return_leaves, of c rd nxt] by (auto simp: emit_jal_def)
  next
    case (Jalr rd rs1 imm)
    then show ?thesis using assms emit_jalr_sim [of c rd rs1 imm nxt] fits by auto
  next
    case (Lui rd imm)
    then show ?thesis using assms set_rd_passes [of c rd imm] by (auto simp: emit_lui_def)
  next
    case (Auipc rd imm)
    then show ?thesis using assms set_rd_passes [of c rd "gpc + imm"] by (auto simp: emit_auipc_def)
  next
    case Fence
    then show ?thesis using assms sim_Nil by auto
  qed (use assms in auto)
qed

end
