(* ===== verification/JitRvc.thy ===== *)
theory JitRvc
  imports JitSim
begin

text \<open>
  The compiler's own decoder of compressed instructions, \<open>emit_rvc\<close>, against the interpreter's
  \<open>decode_rvc\<close>: an instruction it compiles is decoded by \<open>decode_rvc\<close>, and its code does what the
  decoded instruction's does.
\<close>

lemma bit_u16: "16 \<le> n \<Longrightarrow> \<not> bit (w :: u16) n"
  using bit_imp_le_length [of w n] by auto

lemma rvc_cond:
  fixes raw :: u16
  shows "(ucast raw :: u32) AND 0x3 = ucast (raw AND 0x3)"
    "shr (ucast raw :: u32) 13 AND 0x7 = ucast (shr raw 13)"
    "shr (ucast raw :: u32) 12 AND 1 = ucast (shr raw 12 AND 1)"
    "shr (ucast raw :: u32) 10 AND 0x3 = ucast (shr raw 10 AND 0x3)"
    "shr (ucast raw :: u32) 5 AND 0x3 = ucast (shr raw 5 AND 0x3)"
  by (rule word32_eqI, simp add: enum_bits bit_u16)+

lemma ucast_u16_eq: "(ucast (x :: u16) :: u32) = ucast y \<longleftrightarrow> x = y"
proof
  assume e: "(ucast x :: u32) = ucast y"
  show "x = y"
  proof (rule bit_word_eqI)
    fix n assume "n < LENGTH(16)"
    moreover have "bit (ucast x :: u32) n = bit (ucast y :: u32) n" by (simp only: e)
    ultimately show "bit x n = bit y n" by (simp add: bit_simps)
  qed
qed simp

text \<open>Comparisons of a field with a constant, in either width and as a number.\<close>

lemma field_eq:
  fixes x :: u16
  shows "(ucast x :: u32) = 0 \<longleftrightarrow> x = 0" "(ucast x :: u32) = 1 \<longleftrightarrow> x = 1" "(ucast x :: u32) = 2 \<longleftrightarrow> x = 2"
    "(ucast x :: u32) = 3 \<longleftrightarrow> x = 3" "(ucast x :: u32) = 4 \<longleftrightarrow> x = 4" "(ucast x :: u32) = 5 \<longleftrightarrow> x = 5"
    "(ucast x :: u32) = 6 \<longleftrightarrow> x = 6" "(ucast x :: u32) = 7 \<longleftrightarrow> x = 7"
    "unat x = 0 \<longleftrightarrow> x = 0" "unat x = Suc 0 \<longleftrightarrow> x = 1" "unat x = 1 \<longleftrightarrow> x = 1" "unat x = 2 \<longleftrightarrow> x = 2" "unat x = 3 \<longleftrightarrow> x = 3"
    "unat x = 4 \<longleftrightarrow> x = 4" "unat x = 5 \<longleftrightarrow> x = 5" "unat x = 6 \<longleftrightarrow> x = 6" "unat x = 7 \<longleftrightarrow> x = 7"
  using ucast_u16_eq [of x 0] ucast_u16_eq [of x 1] ucast_u16_eq [of x 2] ucast_u16_eq [of x 3]
    ucast_u16_eq [of x 4] ucast_u16_eq [of x 5] ucast_u16_eq [of x 6] ucast_u16_eq [of x 7]
  by (simp_all add: word_unat_eq_iff)

lemma rvc_regs:
  fixes raw :: u16
  shows "rvc_rp (ucast raw) 2 = rvc_reg3 raw 2" "rvc_rp (ucast raw) 7 = rvc_reg3 raw 7"
    "unat (shr (ucast raw :: u32) 7 AND 0x1f) = rvc_reg5 raw 7" "unat (shr (ucast raw :: u32) 2 AND 0x1f) = rvc_reg5 raw 2"
proof -
  have f: "shr (ucast raw :: u32) n AND 0x7 = ucast (shr raw n AND 0x7)" "shr (ucast raw :: u32) n AND 0x1f = ucast (shr raw n AND 0x1f)" for n
    by (rule bit_word_eqI, auto simp: bit_simps dest: bit_imp_le_length)+
  have u: "unat (ucast (x :: u16) :: u32) = unat x" for x
    by (simp add: unsigned_ucast_eq take_bit_nat_eq_self unsigned_less [THEN less_trans])
  have "unat (8 + ucast (shr raw n AND 0x7) :: u32) = unat (shr raw n AND 0x7) + 8" for n
  proof -
    have "unat (shr raw n AND 0x7) \<le> 7" using word_and_le1 [of "shr raw n" 7] by (simp add: word_le_nat_alt and.commute)
    then show ?thesis by (simp add: unat_word_ariths u)
  qed
  then show "rvc_rp (ucast raw) 2 = rvc_reg3 raw 2" "rvc_rp (ucast raw) 7 = rvc_reg3 raw 7"
    by (simp_all add: rvc_rp_def rvc_reg3_def f)
  show "unat (shr (ucast raw :: u32) 7 AND 0x1f) = rvc_reg5 raw 7" "unat (shr (ucast raw :: u32) 2 AND 0x1f) = rvc_reg5 raw 2"
    by (simp_all add: rvc_reg5_def f u)
qed


lemma sign_ext_eq: "0 < b \<Longrightarrow> b \<le> 64 \<Longrightarrow> sign_ext v b = signed_take_bit (b - 1) v"
proof -
  assume "0 < b" "b \<le> 64"
  then have "sign_ext v b = sext v (b - 1)" by (simp add: sign_ext_def sext_def Suc_diff_le)
  then show ?thesis using \<open>0 < b\<close> \<open>b \<le> 64\<close> by (simp add: sext_eq_signed_take_bit)
qed

lemma rvc_uimms:
  fixes raw :: u16
  shows "(ucast (shl (shr (ucast raw) 6 AND 1) 2 OR shl (shr (ucast raw) 5 AND 1) 3 OR shl (shr (ucast raw) 11 AND 3) 4
      OR shl (shr (ucast raw) 7 AND 0xf) 6 :: u32) :: i64) =
      shl (ucast (shr raw 11 AND 0x3)) 4 OR shl (ucast (shr raw 7 AND 0xf)) 6
        OR shl (ucast (shr raw 6 AND 0x1)) 2 OR shl (ucast (shr raw 5 AND 0x1)) 3"
    "(ucast (shl (shr (ucast raw) 10 AND 7) 3 OR shl (shr (ucast raw) 5 AND 3) 6 :: u32) :: i64) =
      shl (ucast (shr raw 10 AND 0x7)) 3 OR shl (ucast (shr raw 5 AND 0x3)) 6"
    "(ucast (shl (shr (ucast raw) 12 AND 1) 5 OR shl (shr (ucast raw) 5 AND 3) 3 OR shl (shr (ucast raw) 2 AND 7) 6 :: u32) :: i64) =
      shl (ucast (shr raw 12 AND 0x1)) 5 OR shl (ucast (shr raw 5 AND 0x3)) 3 OR shl (ucast (shr raw 2 AND 0x7)) 6"
    "(ucast (shl (shr (ucast raw) 10 AND 7) 3 OR shl (shr (ucast raw) 7 AND 7) 6 :: u32) :: i64) =
      shl (ucast (shr raw 10 AND 0x7)) 3 OR shl (ucast (shr raw 7 AND 0x7)) 6"
  by (rule word64_eqI, simp add: enum_bits bit_u16)+

lemma rvc_simms:
  fixes raw :: u16
  shows "rvc_sext (shl (shr (ucast raw) 12 AND 1) 5 OR (shr (ucast raw) 2 AND 0x1f)) 5 (-64) = sign_ext (rvc_imm6 raw) 6"
    "rvc_sext (shl (shr (ucast raw) 12 AND 1) 9 OR shl (shr (ucast raw) 3 AND 3) 7 OR shl (shr (ucast raw) 5 AND 1) 6
        OR shl (shr (ucast raw) 2 AND 1) 5 OR shl (shr (ucast raw) 6 AND 1) 4) 9 (NOT 0x3ff) =
      sign_ext (shl (ucast (shr raw 12 AND 0x1)) 9 OR shl (ucast (shr raw 3 AND 0x3)) 7
        OR shl (ucast (shr raw 5 AND 0x1)) 6 OR shl (ucast (shr raw 2 AND 0x1)) 5
        OR shl (ucast (shr raw 6 AND 0x1)) 4) 10"
    "rvc_sext (shl (shr (ucast raw) 12 AND 1) 17 OR shl (shr (ucast raw) 2 AND 0x1f) 12) 17 (NOT 0x3ffff) =
      shl (sign_ext (rvc_imm6 raw) 6) 12"
    "rvc_branch_imm (ucast raw) = rvc_b_imm raw"
    "rvc_jump_imm (ucast raw) = rvc_j_imm raw"
  unfolding rvc_sext_def sign_ext_eq rvc_imm6_def rvc_branch_imm_def rvc_b_imm_def rvc_jump_imm_def rvc_j_imm_def Let_def bit_tests
  by (rule word64_eqI, simp add: enum_bits bit_u16 sign_ext_eq, (simp add: numeral_2_eq_2 numeral_3_eq_3)?)+

lemma rvc_shamts:
  fixes raw :: u16
  shows "unat (rvc_shamt raw) = unat (shl (shr (ucast raw :: u32) 12 AND 1) 5 OR (shr (ucast raw) 2 AND 0x1f))"
proof -
  have "shl (shr (ucast raw :: u32) 12 AND 1) 5 OR (shr (ucast raw) 2 AND 0x1f) = ucast (rvc_shamt raw)"
    by (rule word32_eqI) (simp add: enum_bits bit_u16 rvc_shamt_def)
  moreover have "unat (ucast (x :: u8) :: u32) = unat x" for x
    by (simp add: unsigned_ucast_eq take_bit_nat_eq_self unsigned_less [THEN less_trans])
  ultimately show ?thesis by simp
qed
lemma rmw_sim:
  assumes "computes [MovRM QWORD RAX R15 (rd * 8), op] c w" "length (regs c) = 32" "0 < rd" "rd < 32"
  shows "sim (rvc_rmw rd op) c (Pass (with_reg c rd w))"
  using put_rd_passes [OF assms(1,2,4)] assms(3) by (simp add: sim_Pass rvc_rmw_def put_rd_def)

lemma put_rd_sim:
  assumes "computes code c w" "length (regs c) = 32" "0 < rd" "rd < 32"
  shows "sim (code @ [MovMR R15 (rd * 8) RAX]) c (Pass (with_reg c rd w))"
  using put_rd_passes [OF assms(1,2,4)] assms(3) by (simp add: sim_Pass put_rd_def)

lemma rvc_reg3_range: "0 < rvc_reg3 raw n" "rvc_reg3 raw n < 32"
proof -
  have "unat (shr raw n AND 0x7) \<le> 7" using word_and_le1 [of "shr raw n" 7] by (simp add: word_le_nat_alt and.commute)
  then show "0 < rvc_reg3 raw n" "rvc_reg3 raw n < 32" by (simp_all add: rvc_reg3_def)
qed

lemma rvc_reg5_range: "rvc_reg5 raw n < 32"
proof -
  have "unat (shr raw n AND 0x1f) \<le> 31" using word_and_le1 [of "shr raw n" 31] by (simp add: word_le_nat_alt and.commute)
  then show ?thesis by (simp add: rvc_reg5_def)
qed

lemma fits_12: "fits 12 imm \<Longrightarrow> scast (lo32 imm) = imm"
  using fits_imm32 [of 12 imm] by simp

definition rvc_sound :: "u64 \<Rightarrow> cpu \<Rightarrow> insn list \<Rightarrow> decoded \<Rightarrow> bool" where
  "rvc_sound gpc c code d \<longleftrightarrow> (\<exists>i. d = Ok i \<and> sim code c (jit_end gpc (gpc + 2) c i))"

lemma rvc_soundI: "d = Ok i \<Longrightarrow> sim code c (jit_end gpc (gpc + 2) c i) \<Longrightarrow> rvc_sound gpc c code d"
  by (auto simp: rvc_sound_def)

lemma rvc_uimm_0:
  "(shl (shr (ucast raw) 6 AND 1) 2 OR shl (shr (ucast raw) 5 AND 1) 3 OR shl (shr (ucast raw) 11 AND 3) 4
      OR shl (shr (ucast raw) 7 AND 0xf) 6 :: u32) = 0 \<longleftrightarrow>
    (shl (ucast (shr raw 11 AND 0x3)) 4 OR shl (ucast (shr raw 7 AND 0xf)) 6
        OR shl (ucast (shr raw 6 AND 0x1)) 2 OR shl (ucast (shr raw 5 AND 0x1)) 3 :: i64) = 0" for raw :: u16
  by (simp only: rvc_uimms(1) [symmetric] ucast32_eq_0)

lemmas rvc_fields = rvc_cond field_eq rvc_regs rvc_uimms rvc_uimm_0 rvc_simms rvc_shamts [symmetric]

lemmas mem_get_sp = mem_get_reg [where r = 2, simplified]

declare push_bit_and [simp del]

lemma emit_rvc_q0_sound:
  assumes "emit_rvc_q0 lb raw (unat (shr raw 13)) gpc = (code, eff)" "eff \<noteq> Unhandled" "length (regs c) = 32"
    and "all_ok encodable (rvc_q0 (ucast raw) (ucast (shr raw 13)))"
  shows "rvc_sound gpc c code (rvc_q0 (ucast raw) (ucast (shr raw 13)))"
proof -
  note r = rvc_reg3_range [of raw 2] rvc_reg3_range [of raw 7]
  consider (addi4spn) "shr raw 13 = 0" | (ld) "shr raw 13 = 3" | (sd) "shr raw 13 = 7"
    using assms(1,2) unfolding emit_rvc_q0_def by (auto simp: field_eq Let_def split: if_splits)
  then show ?thesis
  proof cases
    case addi4spn
    define imm :: i64 where "imm = (shl (ucast (shr raw 11 AND 0x3)) 4 OR shl (ucast (shr raw 7 AND 0xf)) 6
             OR shl (ucast (shr raw 6 AND 0x1)) 2 OR shl (ucast (shr raw 5 AND 0x1)) 3)"
    have e: "code = [MovRM QWORD RAX R15 (2 * 8), AluRI XAdd QWORD RAX (ucast imm)] @ [MovMR R15 (rvc_reg3 raw 2 * 8) RAX]" "imm \<noteq> 0"
      using assms(1,2) by (auto simp: emit_rvc_q0_def addi4spn Let_def imm_def split: if_splits)
    have d: "rvc_q0 (ucast raw) (ucast (shr raw 13)) = Ok (IType Addi (rvc_reg3 raw 2) 2 imm)"
      using e(2) by (simp add: rvc_q0_def addi4spn Let_def rvc_fields imm_def)
    have f: "scast (lo32 imm) = imm"
      using assms(4) by (intro fits_12) (simp add: d)
    show ?thesis
      using d unfolding e(1)
      by (rule rvc_soundI) (simp only: jit_end.simps, rule put_rd_sim [OF computesI],
          simp add: mem_get_sp assms(3) f, rule ran, simp, simp_all add: assms(3) r)
  next
    case ld
    define imm :: i64 where "imm = shl (ucast (shr raw 10 AND 0x7)) 3 OR shl (ucast (shr raw 5 AND 0x3)) 6"
    have e: "code = emit_load_op lb Ld (rvc_reg3 raw 2) (rvc_reg3 raw 7) imm gpc"
      using assms(1,2) by (simp add: emit_rvc_q0_def ld Let_def imm_def field_eq)
    have d: "rvc_q0 (ucast raw) (ucast (shr raw 13)) = Ok (Load Ld (rvc_reg3 raw 2) (rvc_reg3 raw 7) imm)"
      by (simp add: rvc_q0_def ld Let_def field_eq rvc_regs rvc_uimms imm_def)
    have f: "scast (lo32 imm) = imm"
      using assms(4) by (intro fits_12) (simp add: d)
    show ?thesis
      using emit_load_op_sim [OF assms(3) r(2,4) f, of lb Ld gpc] unfolding e
      by (intro rvc_soundI [OF d]) simp
  next
    case sd
    define imm :: i64 where "imm = shl (ucast (shr raw 10 AND 0x7)) 3 OR shl (ucast (shr raw 5 AND 0x3)) 6"
    have e: "code = emit_store lb (rvc_reg3 raw 7) (rvc_reg3 raw 2) imm 8 gpc"
      using assms(1,2) by (simp add: emit_rvc_q0_def sd Let_def imm_def field_eq)
    have d: "rvc_q0 (ucast raw) (ucast (shr raw 13)) = Ok (Store Sd (rvc_reg3 raw 7) (rvc_reg3 raw 2) imm)"
      by (simp add: rvc_q0_def sd Let_def field_eq rvc_regs rvc_uimms imm_def)
    have f: "scast (lo32 imm) = imm"
      using assms(4) by (intro fits_12) (simp add: d)
    show ?thesis
      using emit_store_sim [OF assms(3) r(4,2) f, of lb 8 gpc] unfolding e
      by (intro rvc_soundI [OF d]) simp
  qed
qed

text \<open>Quadrant 01, the register operations.\<close>

lemma passes_emit_r: "length (regs c) = 32 \<Longrightarrow> 0 < rd \<Longrightarrow> rd < 32 \<Longrightarrow> rs2 < 32 \<Longrightarrow>
    sim (rvc_rmw rd (AluRM op QWORD RAX R15 (rs2 * 8))) c (Pass (with_reg c rd (alu op (regs c ! rd) (regs c ! rs2))))"
  by (rule rmw_sim [OF computesI]) (simp add: mem_get_reg, rule ran, simp, simp_all)

lemma rvc_rmw_w:
  assumes "length (regs c) = 32" "0 < rd" "rd < 32" "rs2 < 32"
  shows "sim [MovRM DWORD RAX R15 (rd * 8), AluRM op DWORD RAX R15 (rs2 * 8), MovsxdRR RAX RAX, MovMR R15 (rd * 8) RAX] c
      (Pass (with_reg c rd (scast (alu op (lo32 (regs c ! rd)) (lo32 (regs c ! rs2))))))"
proof -
  have "sim ([MovRM DWORD RAX R15 (rd * 8), AluRM op DWORD RAX R15 (rs2 * 8), MovsxdRR RAX RAX] @ [MovMR R15 (rd * 8) RAX]) c
      (Pass (with_reg c rd (scast (alu op (lo32 (regs c ! rd)) (lo32 (regs c ! rs2))))))"
    by (rule put_rd_sim [OF computesI]) (simp add: mem_get_reg assms, rule ran, simp, simp_all add: assms)
  then show ?thesis by simp
qed

lemma rvc_shift_sim:
  assumes "length (regs c) = 32" "0 < rd" "rd < 32" "unat sh < 64"
  shows "sim (rvc_rmw rd (ShiftI op QWORD RAX sh)) c (Pass (with_reg c rd (shift_by op (regs c ! rd) (unat sh))))"
  by (rule rmw_sim [OF computesI]) (simp add: mem_get_reg assms, rule ran, simp add: assms, simp_all add: assms)

lemma rvc_alu_i_sim:
  assumes "length (regs c) = 32" "0 < rd" "rd < 32" "scast (lo32 imm) = imm"
  shows "sim (rvc_rmw rd (AluRI op QWORD RAX (ucast imm))) c (Pass (with_reg c rd (alu op (regs c ! rd) imm)))"
  by (rule rmw_sim [OF computesI]) (simp add: mem_get_reg assms, rule ran, simp add: assms, simp_all add: assms)
section \<open>Quadrant 01\<close>

lemma field_1: "shr (raw :: u16) n AND 0x1 \<in> {0, 1}"
  by (simp add: and_one_eq mod_2_eq_odd) 

lemma field_3: "shr (raw :: u16) n AND 0x3 \<in> {0, 1, 2, 3}"
proof -
  have "unat (shr raw n AND 0x3) \<le> 3" using word_and_le1 [of "shr raw n" 3] by (simp add: word_le_nat_alt and.commute)
  then have "unat (shr raw n AND 0x3) \<in> {0, 1, 2, 3}" by auto
  then show ?thesis by (simp add: field_eq)
qed

text \<open>The interpreter's decoder over the compiler's fields.\<close>

lemma rvc_q1_alu_fields:
  fixes raw :: u16
  defines "rd \<equiv> rvc_reg3 raw 7" and "rs2 \<equiv> rvc_reg3 raw 2" and "op2 \<equiv> shr raw 10 AND 0x3"
    and "bit12 \<equiv> shr raw 12 AND 0x1" and "sel \<equiv> shr raw 5 AND 0x3"
  shows "rvc_q1_alu (ucast raw) =
    (if op2 = 0 then Ok (Shift Srli rd rd (unat (rvc_shamt raw)))
     else if op2 = 1 then Ok (Shift Srai rd rd (unat (rvc_shamt raw)))
     else if op2 = 2 then Ok (IType Andi rd rd (sign_ext (rvc_imm6 raw) 6))
     else if bit12 = 0 then
       Ok (RType (if sel = 0 then Sub else if sel = 1 then Xor else if sel = 2 then Or else And) rd rd rs2)
     else if sel = 0 then Ok (RType Subw rd rd rs2)
     else if sel = 1 then Ok (RType Addw rd rd rs2)
     else Err (IllegalInstruction (ucast raw)))"
proof -
  have f: "op2 \<in> {0, 1, 2, 3}" "bit12 \<in> {0, 1}" "sel \<in> {0, 1, 2, 3}"
    unfolding assms by (rule field_1 field_3)+
  have d: "rvc_q1_alu (ucast raw) =
    (if op2 = 0 then Ok (Shift Srli rd rd (unat (rvc_shamt raw)))
     else if op2 = 1 then Ok (Shift Srai rd rd (unat (rvc_shamt raw)))
     else if op2 = 2 then Ok (IType Andi rd rd (sign_ext (rvc_imm6 raw) 6))
     else if op2 = 3 then
        match_table (ucast raw)
          [((0, 0b00), RType Sub rd rd rs2), ((0, 0b01), RType Xor rd rd rs2),
           ((0, 0b10), RType Or rd rd rs2), ((0, 0b11), RType And rd rd rs2),
           ((1, 0b00), RType Subw rd rd rs2), ((1, 0b01), RType Addw rd rd rs2)] (ucast bit12 :: u32, ucast sel :: u32)
     else None)"
    unfolding rvc_q1_alu_def Let_def rvc_simms rvc_shamts [symmetric] rvc_regs unfolding rvc_cond field_eq assms ..
  show ?thesis
    using f unfolding d match_table_def by (elim insertE emptyE) simp_all
qed

lemma rvc_shamt_bound: "unat (rvc_shamt raw) < 64"
proof -
  let ?w = "shl (shr (ucast raw :: u32) 12 AND 1) 5 OR (shr (ucast raw) 2 AND 0x1f)"
  have "?w = ?w AND 0x3f"
    by (rule word32_eqI) (simp add: enum_bits bit_u16)
  also have "\<dots> \<le> 0x3f" by (rule word_and_le1)
  finally show ?thesis unfolding rvc_shamts by (simp only: word_le_nat_alt) simp
qed

lemma imm6_fits: "scast (lo32 (sign_ext (rvc_imm6 raw) 6)) = sign_ext (rvc_imm6 raw) 6"
  unfolding rvc_simms(1) [symmetric] by (rule fits_12) (rule rvc_fits_signed)

lemma emit_rvc_alu_sound:
  assumes "emit_rvc_alu raw = (code, eff)" "eff \<noteq> Unhandled" "length (regs c) = 32"
  shows "rvc_sound gpc c code (rvc_q1_alu (ucast raw))"
proof -
  note r = rvc_reg3_range [of raw 7] rvc_reg3_range [of raw 2] and l = assms(3)
  note q = passes_emit_r [OF l r(1,2,4)] and w = rvc_rmw_w [OF l r(1,2,4)]
  note sims = q [of XSub] q [of XXor] q [of XOr] q [of XAnd] w [of XSub] w [of XAdd]
    rvc_alu_i_sim [OF l r(1,2) imm6_fits, of XAnd] rvc_shift_sim [OF l r(1,2) rvc_shamt_bound, of XShr]
    rvc_shift_sim [OF l r(1,2) rvc_shamt_bound, of XSar]
  show ?thesis
    using assms(1,2) unfolding rvc_q1_alu_fields emit_rvc_alu_def Let_def
    by (auto split: if_splits intro!: rvc_soundI [OF refl] intro: sims [unfolded alu.simps shift_by.simps]
        simp: sext_31 lo32_arith rvc_shamt_bound)
qed
lemma rvc_q1_fields:
  fixes raw :: u16
  defines "rd \<equiv> rvc_reg5 raw 7" and "imm6 \<equiv> sign_ext (rvc_imm6 raw) 6" and "f3 \<equiv> shr raw 13"
    and "imm10 \<equiv> sign_ext (shl (ucast (shr raw 12 AND 0x1)) 9 OR shl (ucast (shr raw 3 AND 0x3)) 7
        OR shl (ucast (shr raw 5 AND 0x1)) 6 OR shl (ucast (shr raw 2 AND 0x1)) 5
        OR shl (ucast (shr raw 6 AND 0x1)) 4) 10"
  shows "rvc_q1 (ucast raw) (ucast f3) =
    (if f3 = 0 then Ok (IType Addi rd rd imm6)
     else if f3 = 1 then if rd = 0 then Err (IllegalInstruction (ucast raw)) else Ok (IType Addiw rd rd imm6)
     else if f3 = 2 then Ok (IType Addi rd 0 imm6)
     else if f3 = 3 then
       if rd = 2 then if imm10 = 0 then Err (IllegalInstruction (ucast raw)) else Ok (IType Addi 2 2 imm10)
       else if rd \<noteq> 0 then if shl imm6 12 = 0 then Err (IllegalInstruction (ucast raw)) else Ok (Lui rd (shl imm6 12))
       else Err (IllegalInstruction (ucast raw))
     else if f3 = 4 then rvc_q1_alu (ucast raw)
     else if f3 = 5 then Ok (Jal 0 (rvc_j_imm raw))
     else if f3 = 6 then Ok (Branch Beq (rvc_reg3 raw 7) 0 (rvc_b_imm raw))
     else if f3 = 7 then Ok (Branch Bne (rvc_reg3 raw 7) 0 (rvc_b_imm raw))
     else Err (IllegalInstruction (ucast raw)))"
  unfolding rvc_q1_def Let_def rvc_simms rvc_regs unfolding rvc_cond field_eq assms ..

lemma imm6_shl_0: "shl (sign_ext (rvc_imm6 raw) 6) 12 = 0 \<longleftrightarrow> sign_ext (rvc_imm6 raw) 6 = 0"
proof -
  have "sar (shl (sign_ext (rvc_imm6 raw) 6) 12) 12 = sign_ext (rvc_imm6 raw) 6"
    unfolding sign_ext_eq rvc_imm6_def by (rule word64_eqI, simp add: enum_bits bit_u16 sign_ext_eq)
  then show ?thesis by (metis push_bit_of_0 signed_drop_bit_of_0)
qed

lemma imm10_fits:
  fixes raw :: u16
  defines "imm10 \<equiv> sign_ext (shl (ucast (shr raw 12 AND 0x1)) 9 OR shl (ucast (shr raw 3 AND 0x3)) 7
        OR shl (ucast (shr raw 5 AND 0x1)) 6 OR shl (ucast (shr raw 2 AND 0x1)) 5
        OR shl (ucast (shr raw 6 AND 0x1)) 4) 10"
  shows "scast (lo32 imm10) = imm10" "ucast imm10 = (0 :: u32) \<longleftrightarrow> imm10 = 0"
proof -
  show f: "scast (lo32 imm10) = imm10"
    unfolding imm10_def rvc_simms(2) [symmetric] using rvc_fits_signed(2) by (intro fits_12) simp
  show "ucast imm10 = (0 :: u32) \<longleftrightarrow> imm10 = 0"
    using f by (metis scast_0 unsigned_0)
qed

lemma emit_rvc_branch_sim:
  assumes "length (regs c) = 32"
  shows "sim (emit_rvc_branch lb cc raw gpc nxt) c
    (Leave (if holds cc (test_flags (regs c ! rvc_reg3 raw 7)) then gpc + rvc_b_imm raw else nxt) c)"
  unfolding sim_def block_end.case
proof (intro allI impI)
  fix f s rest
  let ?a = "regs c ! rvc_reg3 raw 7" and ?t = "gpc + rvc_b_imm raw"
  assume b: "in_block f c s"
  define s1 where "s1 = set_flags (Some (test_flags ?a)) (put RAX (Vint ?a) s)"
  have b1: "in_block f c s1" using b by (simp add: s1_def)
  have "run (emit_rvc_branch lb cc raw gpc nxt @ rest) s =
      (if holds cc (test_flags ?a) then run (emit_return ?t @ rest) s1
       else run (emit_return nxt @ Label (Dyn lb) # emit_return ?t @ rest) s1)"
    using b assms rvc_reg3_range [of raw 7]
    by (simp add: emit_rvc_branch_def mem_get_reg s1_def emit_return_def)
  then show "\<exists>s'. run (emit_rvc_branch lb cc raw gpc nxt @ rest) s =
      Returned (Vint (if holds cc (test_flags ?a) then ?t else nxt)) s' \<and> exited f c s'"
    using sim_LeaveD [OF emit_return_leaves b1] by simp
qed

lemma rvc_li_sim:
  assumes "length (regs c) = 32" "0 < rd" "rd < 32" "scast (lo32 imm) = imm"
  shows "sim [MovRI32 RAX (ucast imm), MovMR R15 (rd * 8) RAX] c (Pass (with_reg c rd imm))"
proof -
  have "sim ([MovRI32 RAX (ucast imm)] @ [MovMR R15 (rd * 8) RAX]) c (Pass (with_reg c rd imm))"
    by (rule put_rd_sim [OF computesI]) (simp add: assms, rule ran, simp add: assms, simp_all add: assms)
  then show ?thesis by simp
qed

lemma rvc_lui_sim:
  assumes "length (regs c) = 32" "0 < rd" "rd < 32"
  shows "sim [MovRI RAX imm, MovMR R15 (rd * 8) RAX] c (Pass (with_reg c rd imm))"
proof -
  have "sim ([MovRI RAX imm] @ [MovMR R15 (rd * 8) RAX]) c (Pass (with_reg c rd imm))"
    by (rule put_rd_sim [OF computesI]) (simp add: assms, rule ran, simp add: assms, simp_all add: assms)
  then show ?thesis by simp
qed

lemma rvc_addiw_sim:
  assumes "length (regs c) = 32" "0 < rd" "rd < 32" "scast (lo32 imm) = imm"
  shows "sim [MovRM DWORD RAX R15 (rd * 8), AluRI XAdd DWORD RAX (ucast imm), MovsxdRR RAX RAX, MovMR R15 (rd * 8) RAX] c
      (Pass (with_reg c rd (sext (regs c ! rd + imm) 31)))"
proof -
  have "sim ([MovRM DWORD RAX R15 (rd * 8), AluRI XAdd DWORD RAX (ucast imm), MovsxdRR RAX RAX] @ [MovMR R15 (rd * 8) RAX]) c
      (Pass (with_reg c rd (sext (regs c ! rd + imm) 31)))"
    by (rule put_rd_sim [OF computesI]) (simp add: mem_get_reg run_values assms, rule ran, simp add: run_values assms, simp_all add: assms)
  then show ?thesis by simp
qed

lemma with_reg_0: "with_reg c 0 v = c"
  by (simp add: with_reg_def)

lemma emit_rvc_q1_sound:
  assumes "emit_rvc_q1 lb raw (unat (shr raw 13)) gpc = (code, eff)" "eff \<noteq> Unhandled"
    and l: "length (regs c) = 32" and z: "regs c ! 0 = 0"
  shows "rvc_sound gpc c code (rvc_q1 (ucast raw) (ucast (shr raw 13)))"
proof -
  define rd where "rd = rvc_reg5 raw 7"
  have r: "rd < 32" by (simp add: rd_def rvc_reg5_range)
  have addi: "sim (rvc_rmw n (AluRI XAdd QWORD RAX (ucast imm))) c (Pass (with_reg c n (regs c ! n + imm)))"
    if "0 < n" "n < 32" "scast (lo32 imm) = imm" for n imm
    using rvc_alu_i_sim [OF l that, of XAdd] by simp
  define imm6 where "imm6 = sign_ext (rvc_imm6 raw) 6"
  define imm10 where "imm10 = sign_ext (shl (ucast (shr raw 12 AND 0x1)) 9 OR shl (ucast (shr raw 3 AND 0x3)) 7
        OR shl (ucast (shr raw 5 AND 0x1)) 6 OR shl (ucast (shr raw 2 AND 0x1)) 5
        OR shl (ucast (shr raw 6 AND 0x1)) 4) 10"
  note abbr = rd_def [symmetric] imm6_def [symmetric] imm10_def [symmetric]
  have f6: "scast (lo32 imm6) = imm6" and s6: "shl imm6 12 = 0 \<longleftrightarrow> imm6 = 0"
    unfolding imm6_def by (rule imm6_fits imm6_shl_0)+
  have f10: "scast (lo32 imm10) = imm10" and s10: "ucast imm10 = (0 :: u32) \<longleftrightarrow> imm10 = 0"
    unfolding imm10_def by (rule imm10_fits)+
  note e = assms(1) [unfolded emit_rvc_q1_def Let_def abbr field_eq]
  note d = rvc_q1_fields [of raw, unfolded abbr]
  consider "shr raw 13 = 0" | "shr raw 13 = 1" | "shr raw 13 = 2" | "shr raw 13 = 3" | "shr raw 13 = 4"
    | "shr raw 13 = 5" | "shr raw 13 = 6" | "shr raw 13 = 7"
    using e assms(2) by (auto split: if_splits)
  then show ?thesis
  proof cases
    case 1
    then show ?thesis
      using e addi [OF _ r f6] unfolding d
      by (cases "rd = 0") (auto simp: with_reg_0 intro!: rvc_soundI [OF refl] sim_Nil)
  next
    case 2
    then show ?thesis
      using e assms(2) rvc_addiw_sim [OF l _ r f6] unfolding d
      by (cases "rd = 0") (auto intro!: rvc_soundI [OF refl])
  next
    case 3
    then show ?thesis
      using e rvc_li_sim [OF l _ r f6] unfolding d
      by (cases "rd = 0") (auto simp: with_reg_0 z intro!: rvc_soundI [OF refl] sim_Nil)
  next
    case 4
    then show ?thesis
      using e assms(2) addi [of 2, OF _ _ f10] rvc_lui_sim [OF l _ r, of "shl imm6 12"] unfolding d
      by (cases "rd = 2"; cases "rd = 0") (auto simp: s6 s10 intro!: rvc_soundI [OF refl] split: if_splits)
  next
    case 5
    then show ?thesis
      using e emit_rvc_alu_sound [OF _ assms(2) l] unfolding d by simp
  next
    case 6
    then show ?thesis
      using e emit_return_leaves [of "gpc + rvc_j_imm raw" c] unfolding d
      by (auto simp: with_reg_0 intro!: rvc_soundI [OF refl])
  next
    case 7
    then show ?thesis
      using e emit_rvc_branch_sim [OF l, of lb CondE raw gpc "gpc + 2"] unfolding d
      by (auto simp: holds_test z intro!: rvc_soundI [OF refl])
  next
    case 8
    then show ?thesis
      using e emit_rvc_branch_sim [OF l, of lb CondNE raw gpc "gpc + 2"] unfolding d
      by (auto simp: holds_test z intro!: rvc_soundI [OF refl])
  qed
qed
section \<open>Quadrant 10\<close>

text \<open>
  \<open>C.ADD\<close> with the zero register as its target is a hint.  The compiler skips it; \<open>decode_rvc\<close> has
  no arm for it, so the interpreter raises an illegal instruction exception.
\<close>

definition add_hint :: "u16 \<Rightarrow> bool" where
  "add_hint raw \<longleftrightarrow> raw AND 0x3 = 2 \<and> shr raw 13 = 4 \<and> shr raw 12 AND 0x1 = 1 \<and> rvc_reg5 raw 7 = 0 \<and> rvc_reg5 raw 2 \<noteq> 0"

lemma rvc_q2_fields:
  fixes raw :: u16
  defines "rd \<equiv> rvc_reg5 raw 7" and "rs2 \<equiv> rvc_reg5 raw 2" and "f3 \<equiv> shr raw 13"
    and "bit12 \<equiv> shr raw 12 AND 0x1"
  assumes "f3 \<in> {0, 3, 4, 7}"
  shows "rvc_q2 (ucast raw) (ucast f3) =
    (if f3 = 0 then Ok (Shift Slli rd rd (unat (rvc_shamt raw)))
     else if f3 = 3 then
       if rd = 0 then Err (IllegalInstruction (ucast raw))
       else Ok (Load Ld rd 2 (shl (ucast (shr raw 12 AND 0x1)) 5 OR shl (ucast (shr raw 5 AND 0x3)) 3
         OR shl (ucast (shr raw 2 AND 0x7)) 6))
     else if f3 = 4 then
       if bit12 = 0 \<and> rs2 = 0 \<and> rd \<noteq> 0 then Ok (Jalr 0 rd 0)
       else if bit12 = 0 \<and> rs2 \<noteq> 0 then Ok (RType Add rd 0 rs2)
       else if bit12 = 1 \<and> rd = 0 \<and> rs2 = 0 then Ok Ebreak
       else if bit12 = 1 \<and> rs2 = 0 \<and> rd \<noteq> 0 then Ok (Jalr 1 rd 0)
       else if bit12 = 1 \<and> rd \<noteq> 0 \<and> rs2 \<noteq> 0 then Ok (RType Add rd rd rs2)
       else Err (IllegalInstruction (ucast raw))
     else Ok (Store Sd 2 rs2 (shl (ucast (shr raw 10 AND 0x7)) 3 OR shl (ucast (shr raw 7 AND 0x7)) 6)))"
proof -
  have n: "f3 \<noteq> 1" "f3 \<noteq> 2" "f3 \<noteq> 5" "f3 \<noteq> 6" "f3 \<noteq> 0 \<Longrightarrow> f3 \<noteq> 3 \<Longrightarrow> f3 \<noteq> 4 \<Longrightarrow> f3 = 7" using assms(5) by auto
  show ?thesis
    unfolding rvc_q2_def Let_def rvc_shamts [symmetric] rvc_regs rvc_uimms unfolding rvc_cond field_eq
    using n unfolding assms(1-4) by simp
qed

lemma rvc_q2_fits:
  fixes raw :: u16
  defines "ld \<equiv> shl (ucast (shr raw 12 AND 0x1)) 5 OR shl (ucast (shr raw 5 AND 0x3)) 3
         OR shl (ucast (shr raw 2 AND 0x7)) 6 :: i64"
    and "sd \<equiv> shl (ucast (shr raw 10 AND 0x7)) 3 OR shl (ucast (shr raw 7 AND 0x7)) 6 :: i64"
  shows "scast (lo32 ld) = ld" "scast (lo32 sd) = sd"
  unfolding assms rvc_uimms [symmetric] by (rule fits_12, rule rvc_fits_unsigned)+

lemma emit_rvc_jr_sim:
  assumes "length (regs c) = 32" "rd < 32"
  shows "sim ([MovRM QWORD RCX R15 (rd * 8), AluRI XAnd QWORD RCX (-2)] @ emit_return_rcx) c
      (Leave (regs c ! rd AND NOT 1) c)"
    and "sim ([MovRM QWORD RCX R15 (rd * 8), MovRI RAX nxt, MovMR R15 8 RAX, AluRI XAnd QWORD RCX (-2)] @ emit_return_rcx) c
      (Leave (regs c ! rd AND NOT 1) (with_reg c 1 nxt))"
proof -
  have put: "in_block f c s \<Longrightarrow> mem_put R15 8 w s = Some (s\<lparr>guest := with_reg c 1 w\<rparr>)" for f w s
    using mem_put_reg [of f c s 1 w] assms(1) by simp
  show "sim ([MovRM QWORD RCX R15 (rd * 8), AluRI XAnd QWORD RCX (-2)] @ emit_return_rcx) c
      (Leave (regs c ! rd AND NOT 1) c)"
    unfolding sim_def block_end.case
    by (intro allI impI, simp add: mem_get_reg assms) (rule emit_return_rcx_leaves, simp_all)
  show "sim ([MovRM QWORD RCX R15 (rd * 8), MovRI RAX nxt, MovMR R15 8 RAX, AluRI XAnd QWORD RCX (-2)] @ emit_return_rcx) c
      (Leave (regs c ! rd AND NOT 1) (with_reg c 1 nxt))"
    unfolding sim_def block_end.case
    by (intro allI impI, simp add: mem_get_reg put assms) (rule emit_return_rcx_leaves, auto simp: in_block_def)
qed

lemma rvc_mv_sim:
  assumes "length (regs c) = 32" "0 < rd" "rd < 32" "rs2 < 32"
  shows "sim [MovRM QWORD RAX R15 (rs2 * 8), MovMR R15 (rd * 8) RAX] c (Pass (with_reg c rd (regs c ! rs2)))"
proof -
  have "sim ([MovRM QWORD RAX R15 (rs2 * 8)] @ [MovMR R15 (rd * 8) RAX]) c (Pass (with_reg c rd (regs c ! rs2)))"
    by (rule put_rd_sim [OF computesI]) (simp add: mem_get_reg assms, rule ran, simp add: assms, simp_all add: assms)
  then show ?thesis by simp
qed

lemma emit_rvc_q2_sound:
  assumes "emit_rvc_q2 lb raw (unat (shr raw 13)) gpc = (code, eff)" "eff \<noteq> Unhandled"
    and l: "length (regs c) = 32" and z: "regs c ! 0 = 0"
    and h: "\<not> (shr raw 13 = 4 \<and> shr raw 12 AND 0x1 = 1 \<and> rvc_reg5 raw 7 = 0 \<and> rvc_reg5 raw 2 \<noteq> 0)"
  shows "rvc_sound gpc c code (rvc_q2 (ucast raw) (ucast (shr raw 13)))"
proof -
  define rd where "rd = rvc_reg5 raw 7"
  define rs2 where "rs2 = rvc_reg5 raw 2"
  have r: "rd < 32" "rs2 < 32" by (simp_all add: rd_def rs2_def rvc_reg5_range)
  define ld where "ld = (shl (ucast (shr raw 12 AND 0x1)) 5 OR shl (ucast (shr raw 5 AND 0x3)) 3
         OR shl (ucast (shr raw 2 AND 0x7)) 6 :: i64)"
  define sd where "sd = (shl (ucast (shr raw 10 AND 0x7)) 3 OR shl (ucast (shr raw 7 AND 0x7)) 6 :: i64)"
  note abbr = rd_def [symmetric] rs2_def [symmetric] ld_def [symmetric] sd_def [symmetric]
  have f: "scast (lo32 ld) = ld" "scast (lo32 sd) = sd" unfolding ld_def sd_def by (rule rvc_q2_fits)+
  note e = assms(1) [unfolded emit_rvc_q2_def Let_def abbr field_eq]
  note d = rvc_q2_fields [of raw, unfolded abbr]
  note h = h [unfolded abbr]
  consider "shr raw 13 = 0" | "shr raw 13 = 3" | "shr raw 13 = 4" | "shr raw 13 = 7"
    using e assms(2) by (auto split: if_splits)
  then show ?thesis
  proof cases
    case 1
    then show ?thesis
      using e rvc_shift_sim [OF l _ r(1) rvc_shamt_bound [of raw], of XShl] d rvc_shamt_bound [of raw]
      by (cases "rd = 0") (auto simp: with_reg_0 intro!: rvc_soundI sim_Nil)
  next
    case 2
    then show ?thesis
      using e assms(2) emit_load_op_sim [OF l r(1) _ f(1), of 2 lb Ld gpc] d
      by (cases "rd = 0") (auto intro!: rvc_soundI)
  next
    case 4
    then show ?thesis
      using e emit_store_sim [OF l _ r(2) f(2), of 2 lb 8 gpc] d
      by (auto intro!: rvc_soundI)
  next
    case 3
    have b: "shr raw 12 AND 0x1 \<in> {0, 1}" by (rule field_1)
    note e4 = e [unfolded 3, simplified]
    have d4: "rvc_q2 (ucast raw) (ucast (shr raw 13)) =
      (if shr raw 12 AND 1 = 0 \<and> rs2 = 0 \<and> rd \<noteq> 0 then Ok (Jalr 0 rd 0)
       else if shr raw 12 AND 1 = 0 \<and> rs2 \<noteq> 0 then Ok (RType Add rd 0 rs2)
       else if shr raw 12 AND 1 = 1 \<and> rd = 0 \<and> rs2 = 0 then Ok Ebreak
       else if shr raw 12 AND 1 = 1 \<and> rs2 = 0 \<and> rd \<noteq> 0 then Ok (Jalr 1 rd 0)
       else if shr raw 12 AND 1 = 1 \<and> rd \<noteq> 0 \<and> rs2 \<noteq> 0 then Ok (RType Add rd rd rs2)
       else Err (IllegalInstruction (ucast raw)))"
      using d 3 by simp
    note jr = emit_rvc_jr_sim [OF l r(1)] and mv = rvc_mv_sim [OF l _ r]
    have add: "0 < rd \<Longrightarrow> sim (rvc_rmw rd (AluRM XAdd QWORD RAX R15 (rs2 * 8))) c
        (Pass (with_reg c rd (regs c ! rd + regs c ! rs2)))"
      using passes_emit_r [OF l _ r, of XAdd] by simp
    show ?thesis
      using b h 3 assms(2) jr mv add e4 unfolding d4
      by (cases "shr raw 12 AND 1 = 0"; cases "rd = 0"; cases "rs2 = 0")
        (auto simp: with_reg_0 z intro!: rvc_soundI [OF refl] sim_Nil)
  qed
qed

section \<open>The whole decoder\<close>

lemma decode_rvc_eq: "decode_rvc raw =
      (if raw AND 0x3 = 0 then rvc_q0 (ucast raw) (ucast (shr raw 13))
       else if raw AND 0x3 = 1 then rvc_q1 (ucast raw) (ucast (shr raw 13))
       else if raw AND 0x3 = 2 then rvc_q2 (ucast raw) (ucast (shr raw 13)) else None)"
  unfolding decode_rvc_def Let_def rvc_cond field_eq ..

theorem emit_rvc_sound:
  assumes "emit_rvc lb raw gpc = (code, eff)" "eff \<noteq> Unhandled" "length (regs c) = 32" "regs c ! 0 = 0"
    and "\<not> add_hint raw"
  shows "\<exists>i. decode_rvc raw = Ok i \<and> sim code c (jit_end gpc (gpc + 2) c i)"
proof -
  have q: "raw AND 0x3 \<in> {0, 1, 2, 3}" using field_3 [where raw = raw and n = 0] by simp
  have "rvc_sound gpc c code (decode_rvc raw)"
    using q assms(1,2) emit_rvc_q0_sound [OF _ assms(2,3) rvc_q0_encodable, where lb = lb and raw = raw and gpc = gpc and code = code]
      emit_rvc_q1_sound [OF _ assms(2-4), where lb = lb and raw = raw and gpc = gpc and code = code] emit_rvc_q2_sound [OF _ assms(2-4), where lb = lb and raw = raw and gpc = gpc and code = code] assms(5)
    unfolding decode_rvc_eq emit_rvc_def Let_def add_hint_def by (auto split: if_splits)
  then show ?thesis by (simp add: rvc_sound_def)
qed

text \<open>The hint: no code in the block, an exception in the interpreter.\<close>

lemma add_hint_diverges:
  assumes "add_hint raw"
  shows "emit_rvc lb raw gpc = ([], Seq)" "decode_rvc raw = Err (IllegalInstruction (ucast raw))"
  using assms rvc_q2_fields [of raw]
  unfolding add_hint_def emit_rvc_def Let_def emit_rvc_q2_def decode_rvc_def rvc_cond field_eq by simp_all

lemma add_hint_exists: "add_hint 0x9006"
  by (simp add: add_hint_def rvc_reg5_def)

end
