(* ===== verification/JitExec.thy ===== *)
theory JitExec
  imports JitRvc Execute
begin

text \<open>
  The compiled code of an instruction against the interpreter's arm for it: \<open>decode_execute\<close> on the
  same bits.
\<close>

section \<open>The hart between two instructions of a block\<close>

text \<open>
  A block keeps \<open>pc\<close> and \<open>inst_size\<close> of the hart as they were when it was entered; the interpreter sets
  both at every instruction.  \<open>at c p z\<close> is the hart of the block as the interpreter would have it.
\<close>

definition at :: "cpu \<Rightarrow> u64 \<Rightarrow> u64 \<Rightarrow> cpu" where
  "at c p z = c\<lparr>pc := p, inst_size := z\<rparr>"

lemma at_frame [simp]:
  "pc (at c p z) = p" "inst_size (at c p z) = z" "mode (at c p z) = mode c" "csr (at c p z) = csr c" "bus (at c p z) = bus c"
  "regs (at c p z) = regs c" "mmu (at c p z) = mmu c" "ls_mode (at c p z) = ls_mode c" "reg (at c p z) n = reg c n"
  "at (at c p z) q y = at c q y" "(at c p z)\<lparr>pc := q\<rparr> = at c q z" "(at c p z)\<lparr>inst_size := y\<rparr> = at c p y"
  "with_reg (at c p z) n v = at (with_reg c n v) p z"
  by (simp_all add: at_def ls_mode_def reg_def with_reg_def)

lemma at_memory:
  "Cpu_translate (at c p z) md va access = map_option (\<lambda>(d, r). (at d p z, r)) (Cpu_translate c md va access)"
  "Cpu_load (at c p z) pa n = map_option (\<lambda>(d, r). (at d p z, r)) (Cpu_load c pa n)"
  "Cpu_store (at c p z) pa n v = map_option (\<lambda>(d, r). (at d p z, r)) (Cpu_store c pa n v)"
  by (auto simp: Cpu_translate_def Cpu_load_def Cpu_store_def at_def split: bind_splits)

lemma reg_at: "length (regs c) = 32 \<Longrightarrow> regs c ! 0 = 0 \<Longrightarrow> n < 32 \<Longrightarrow> reg c n = Some (regs c ! n)"
  by (auto simp: reg_def)

section \<open>The helpers and the interpreter's accesses\<close>

text \<open>
  On an access within a page, in a mode that translates loads and stores as it does fetches, a helper
  that answers anything but \<open>u64::MAX\<close> has done what the interpreter's access does.
\<close>

lemma jit_load_mmu_load:
  assumes "page_off va + n \<le> 0x1000"
  shows "jit_load n c va = None \<Longrightarrow> mmu_load (at c p z) (mode c) va n = None"
    and "jit_load n c va = Some (d, v) \<Longrightarrow> v \<noteq> u64_MAX \<Longrightarrow> mmu_load (at c p z) (mode c) va n = Some (at d p z, Inr v)"
  using assms by (auto simp: jit_load_def mmu_load_def at_memory split: bind_splits sum.splits)

lemma jit_store_mmu_store:
  assumes "page_off va + n \<le> 0x1000"
  shows "jit_store n c va w = None \<Longrightarrow> mmu_store (at c p z) (mode c) va n w = None"
    and "jit_store n c va w = Some (d, v) \<Longrightarrow> v \<noteq> u64_MAX \<Longrightarrow> mmu_store (at c p z) (mode c) va n w = Some (at d p z, Inr ())"
  using assms by (auto simp: jit_store_def mmu_store_def at_memory split: bind_splits sum.splits)

section \<open>One instruction\<close>

text \<open>The accesses a block makes as the interpreter does: those within a page.\<close>

fun access_in_page :: "cpu \<Rightarrow> instruction \<Rightarrow> bool" where
  "access_in_page c (Load op rd rs1 imm) \<longleftrightarrow> page_off (regs c ! rs1 + imm) + load_width op \<le> 0x1000"
| "access_in_page c (Store op rs1 rs2 imm) \<longleftrightarrow> page_off (regs c ! rs1 + imm) + store_width op \<le> 0x1000"
| "access_in_page c _ \<longleftrightarrow> True"

text \<open>
  What the end of an instruction's code means for the interpreter: the code runs into the next
  instruction, or leaves for the target of a jump, exactly when the arm of \<open>execute\<close> gets there; with
  \<open>u64::MAX\<close> it leaves the instruction to the interpreter, at its \<open>pc\<close>, with nothing but the TLB and
  the bus changed.
\<close>

definition agrees :: "arm \<Rightarrow> cpu \<Rightarrow> u64 \<Rightarrow> u64 \<Rightarrow> u64 \<Rightarrow> block_end \<Rightarrow> bool" where
  "agrees a c gpc z nxt e \<longleftrightarrow> (case e of
     Pass d \<Rightarrow> a = Some (at d gpc z, nxt)
   | Leave w d \<Rightarrow> if w = u64_MAX then \<exists>d'. same_core c d' \<and> d = d'\<lparr>pc := gpc\<rparr> else a = Some (at d gpc z, w)
   | Hang \<Rightarrow> a = None)"

lemma agrees_simps [simp]:
  "agrees a c gpc z nxt (Pass d) \<longleftrightarrow> a = Some (at d gpc z, nxt)"
  "agrees a c gpc z nxt (Leave w d) \<longleftrightarrow>
    (if w = u64_MAX then \<exists>d'. same_core c d' \<and> d = d'\<lparr>pc := gpc\<rparr> else a = Some (at d gpc z, w))"
  "agrees a c gpc z nxt Hang \<longleftrightarrow> a = None"
  by (simp_all add: agrees_def)

lemma exec_load_agrees:
  assumes "length (regs c) = 32" "regs c ! 0 = 0" "rd < 32" "rs1 < 32" "ls_mode c = mode c"
    and "page_off (regs c ! rs1 + imm) + load_width op \<le> 0x1000"
  shows "agrees (exec_load (at c gpc z) nxt op rd rs1 imm) c gpc z nxt
    (load_end gpc rd (load_value op) (jit_load (load_width op) c (regs c ! rs1 + imm)))"
proof (cases "jit_load (load_width op) c (regs c ! rs1 + imm)")
  case None
  then show ?thesis
    using assms jit_load_mmu_load(1) [OF assms(6) None]
    by (simp add: exec_load_def reg_at load_end_def)
next
  case (Some r)
  obtain d v where r: "r = (d, v)" by (cases r)
  note s = Some [unfolded r]
  show ?thesis
    using assms jit_load_mmu_load(2) [OF assms(6) s] jit_load_core [OF s]
    by (auto simp: exec_load_def reg_at load_end_def s set_reg_with_reg)
qed

lemma exec_store_agrees:
  assumes "length (regs c) = 32" "regs c ! 0 = 0" "rs1 < 32" "rs2 < 32" "ls_mode c = mode c"
    and "page_off (regs c ! rs1 + imm) + store_width op \<le> 0x1000"
  shows "agrees (exec_store (at c gpc z) nxt op rs1 rs2 imm) c gpc z nxt
    (store_end gpc (jit_store (store_width op) c (regs c ! rs1 + imm) (regs c ! rs2)))"
proof (cases "jit_store (store_width op) c (regs c ! rs1 + imm) (regs c ! rs2)")
  case None
  then show ?thesis
    using assms jit_store_mmu_store(1) [OF assms(6) None]
    by (simp add: exec_store_def reg_at store_end_def)
next
  case (Some r)
  obtain d v where r: "r = (d, v)" by (cases r)
  note s = Some [unfolded r]
  show ?thesis
    using assms jit_store_mmu_store(2) [OF assms(6) s] jit_store_core [OF s]
    by (auto simp: exec_store_def reg_at store_end_def s)
qed

lemma odd_test: "w AND 1 \<noteq> 0 \<longleftrightarrow> bit w 0" for w :: u64
  by (simp add: and_one_eq odd_iff_mod_2_eq_one [symmetric] bit_0)

lemma even_not_MAX: "\<not> bit w 0 \<Longrightarrow> w \<noteq> u64_MAX" for w :: u64
  by auto

lemma jit_end_agrees:
  assumes "encodable i" "length (regs c) = 32" "regs c ! 0 = 0" "ls_mode c = mode c" "access_in_page c i"
    and "\<not> bit gpc 0" "\<not> bit nxt 0" "snd (emit_inst lb gpc nxt i) \<noteq> Unhandled"
  shows "agrees (exec_arm h (at c gpc z) nxt i) c gpc z nxt (jit_end gpc nxt c i)"
proof -
  note ex = exec_r_def exec_m_def exec_i_def exec_shift_def exec_lui_def exec_auipc_def exec_jal_def exec_jalr_def
    exec_branch_def reg_at [OF assms(2,3)] set_reg_with_reg odd_test
  have e: "\<not> bit imm 0 \<Longrightarrow> \<not> bit (gpc + imm) 0" "\<not> bit (w AND NOT 1) 0" for imm w :: u64
    using even_pc_add [of gpc imm] assms(6) by (simp_all add: even_pc_def bit_simps)
  show ?thesis
  proof (cases i)
    case (Load op rd rs1 imm)
    then show ?thesis using assms exec_load_agrees [of c rd rs1 imm op] by simp
  next
    case (Store op rs1 rs2 imm)
    then show ?thesis using assms exec_store_agrees [of c rs1 rs2 imm op] by simp
  next
    case (Branch op rs1 rs2 imm)
    then show ?thesis using assms even_not_MAX [OF assms(7)] even_not_MAX [OF e(1)] e(1)
      by (auto simp: ex Let_def)
  next
    case (Jal rd imm)
    then show ?thesis using assms even_not_MAX [OF e(1)] e(1) by (auto simp: ex Let_def)
  next
    case (Jalr rd rs1 imm)
    then show ?thesis using assms even_not_MAX [OF e(2)] e(2) by (auto simp: ex Let_def)
  qed (use assms in \<open>simp_all add: ex\<close>)
qed
section \<open>The bits of one instruction\<close>

text \<open>How the code of an instruction ends the block, or that there is none.\<close>

fun effect :: "instruction \<Rightarrow> rvc_effect" where
  "effect (RType op rd rs1 rs2) = Seq"
| "effect (IType op rd rs1 imm) = Seq"
| "effect (Shift op rd rs1 shamt) = Seq"
| "effect (MType op rd rs1 rs2) = (if op = Mulhsu then Unhandled else Seq)"
| "effect (Lui rd imm) = Seq"
| "effect (Auipc rd imm) = Seq"
| "effect (Load op rd rs1 imm) = Seq"
| "effect (Store op rs1 rs2 imm) = Seq"
| "effect (Branch op rs1 rs2 imm) = Terminal"
| "effect (Jal rd imm) = Terminal"
| "effect (Jalr rd rs1 imm) = Terminal"
| "effect Fence = Seq"
| "effect _ = Unhandled"

lemma snd_emit_inst: "snd (emit_inst lb gpc nxt i) = effect i"
proof (cases i)
  case (MType op rd rs1 rs2)
  then show ?thesis by (cases op) simp_all
qed simp_all

lemma emit_rvc_q0_effect:
  "emit_rvc_q0 lb raw (unat (shr raw 13)) gpc = (code, eff) \<Longrightarrow> eff \<noteq> Unhandled \<Longrightarrow>
    rvc_q0 (ucast raw) (ucast (shr raw 13)) = Ok i \<Longrightarrow> effect i = eff"
  unfolding emit_rvc_q0_def rvc_q0_def Let_def field_eq by (auto split: if_splits)

lemma emit_rvc_alu_effect:
  "emit_rvc_alu raw = (code, eff) \<Longrightarrow> eff \<noteq> Unhandled \<Longrightarrow> rvc_q1_alu (ucast raw) = Ok i \<Longrightarrow> effect i = eff"
  unfolding emit_rvc_alu_def rvc_q1_alu_fields Let_def by (auto split: if_splits)

lemma emit_rvc_q1_effect:
  "emit_rvc_q1 lb raw (unat (shr raw 13)) gpc = (code, eff) \<Longrightarrow> eff \<noteq> Unhandled \<Longrightarrow>
    rvc_q1 (ucast raw) (ucast (shr raw 13)) = Ok i \<Longrightarrow> effect i = eff"
  using emit_rvc_alu_effect [of raw code eff i]
  unfolding emit_rvc_q1_def rvc_q1_fields Let_def field_eq by (auto split: if_splits)

lemma emit_rvc_q2_effect:
  assumes "emit_rvc_q2 lb raw (unat (shr raw 13)) gpc = (code, eff)" "eff \<noteq> Unhandled"
    and "rvc_q2 (ucast raw) (ucast (shr raw 13)) = Ok i" "\<not> (shr raw 13 = 4 \<and> shr raw 12 AND 0x1 = 1 \<and> rvc_reg5 raw 7 = 0 \<and> rvc_reg5 raw 2 \<noteq> 0)"
  shows "effect i = eff"
proof -
  note e = assms(1) [unfolded emit_rvc_q2_def Let_def field_eq]
  have f3: "shr raw 13 \<in> {0, 3, 4, 7}" using e assms(2) by (auto split: if_splits)
  have b: "shr raw 12 AND 1 = 0 \<or> shr raw 12 AND 1 = 1" using field_1 [where raw = raw and n = 12] by simp
  show ?thesis
    using e assms(2-4) b rvc_q2_fields [OF f3] by (auto split: if_splits)
qed

lemma emit_rvc_effect:
  assumes "emit_rvc lb raw gpc = (code, eff)" "eff \<noteq> Unhandled" "decode_rvc raw = Ok i" "\<not> add_hint raw"
  shows "effect i = eff"
proof -
  have q: "raw AND 0x3 \<in> {0, 1, 2, 3}" using field_3 [where raw = raw and n = 0] by simp
  show ?thesis
    using q assms emit_rvc_q0_effect [OF _ assms(2)] emit_rvc_q1_effect [OF _ assms(2)] emit_rvc_q2_effect [OF _ assms(2)]
    unfolding decode_rvc_eq emit_rvc_def Let_def add_hint_def by (auto split: if_splits)
qed

definition decode_raw :: "u32 \<Rightarrow> decoded" where
  "decode_raw raw = (if raw AND 0x3 \<noteq> 0x3 then decode_rvc (ucast raw) else decode raw)"

definition raw_size :: "u32 \<Rightarrow> u64" where
  "raw_size raw = (if raw AND 0x3 \<noteq> 0x3 then 2 else 4)"

definition hint_raw :: "u32 \<Rightarrow> bool" where
  "hint_raw raw \<longleftrightarrow> raw AND 0x3 \<noteq> 0x3 \<and> add_hint (ucast raw)"

lemma ucast_low_half: "ucast (raw AND 0xffff) = (ucast raw :: u16)" for raw :: u32
  by (rule bit_word_eqI) (auto simp: bit_simps less_Suc_eq numeral_eq_Suc)

lemma decode_raw_encodable: "decode_raw raw = Ok i \<Longrightarrow> encodable i"
  unfolding decode_raw_def using decode_rvc_encodable decode_encodable by (auto split: if_splits)

text \<open>
  The code the compiler appends for the bits \<open>raw\<close> is that of the instruction the interpreter decodes
  them to.
\<close>

lemma emit_raw_sound:
  assumes "emit_raw lb gpc raw = Some (ins, eff, sz)" "eff \<noteq> Unhandled" "length (regs c) = 32" "regs c ! 0 = 0"
    and "\<not> hint_raw raw"
  shows "sz = raw_size raw \<and> (\<exists>i. decode_raw raw = Ok i \<and> effect i = eff \<and> sim ins c (jit_end gpc (gpc + sz) c i))"
proof (cases "raw AND 0x3 \<noteq> 0x3")
  case True
  then have e: "emit_rvc lb (ucast raw) gpc = (ins, eff)" "sz = 2"
    using assms(1) unfolding emit_raw_def ucast_low_half by (auto split: prod.splits)
  have h: "\<not> add_hint (ucast raw)" using assms(5) True by (simp add: hint_raw_def)
  show ?thesis
    using emit_rvc_sound [OF e(1) assms(2-4) h] emit_rvc_effect [OF e(1) assms(2) _ h] True
    by (auto simp: e(2) raw_size_def decode_raw_def)
next
  case False
  then obtain i where i: "decode raw = Ok i" "emit_inst lb gpc (gpc + 4) i = (ins, eff)" "sz = 4"
    using assms(1,2) unfolding emit_raw_def by (auto split: bind_splits sum.splits prod.splits)
  show ?thesis
    using emit_inst_sim [OF i(2) assms(2,3) decode_encodable [OF i(1)]] i False snd_emit_inst [of lb gpc "gpc + 4" i]
    by (auto simp: raw_size_def decode_raw_def)
qed

lemma decode_execute_at:
  "decode_raw raw = Ok i \<Longrightarrow> decode_execute h (at c gpc y) raw = (case exec_arm h (at c gpc (raw_size raw)) (gpc + raw_size raw) i of
     None \<Rightarrow> None | Some (d, n) \<Rightarrow> Some (d\<lparr>pc := n\<rparr>))"
  by (auto simp: decode_raw_def decode_execute_def execute_def raw_size_def split: if_splits bind_splits option.splits)

end
