(* ===== verification/JitBlock.thy ===== *)
theory JitBlock
  imports JitExec
begin

text \<open>
  Compiled blocks against the interpreter: what a call of a block does, to the host's registers and
  stack and to the hart.
\<close>

section \<open>Blocks\<close>

text \<open>
  The instructions of a block: the bits the compiler fetches one after the other from \<open>gpc\<close> on.
\<close>

fun fetched :: "cpu \<Rightarrow> u64 \<Rightarrow> u32 list \<Rightarrow> bool" where
  "fetched c gpc [] = True"
| "fetched c gpc (raw # raws) = (case compile_fetch c gpc of
     Some (d, Some raw') \<Rightarrow> raw' = raw \<and> fetched d (gpc + raw_size raw) raws
   | _ \<Rightarrow> False)"

text \<open>The interpreter on them, without looking for interrupts in between.\<close>

fun exec_raws :: "host \<Rightarrow> cpu \<Rightarrow> u32 list \<Rightarrow> cpu option" where
  "exec_raws h c [] = Some c"
| "exec_raws h c (raw # raws) = do { c \<leftarrow> decode_execute h c raw; exec_raws h c raws }"

text \<open>None of its accesses crosses a page.\<close>

fun in_pages :: "host \<Rightarrow> cpu \<Rightarrow> u32 list \<Rightarrow> bool" where
  "in_pages h c [] = True"
| "in_pages h c (raw # raws) =
     ((case decode_raw raw of Some (Inr i) \<Rightarrow> access_in_page c i | _ \<Rightarrow> True) \<and>
      (case decode_execute h c raw of Some d \<Rightarrow> in_pages h d raws | None \<Rightarrow> True))"

text \<open>The harts a block may be called on: \<open>x0\<close> is zero, and loads and stores are translated in the
  current mode.\<close>

definition jit_hart :: "cpu \<Rightarrow> bool" where
  "jit_hart c \<longleftrightarrow> length (regs c) = 32 \<and> regs c ! 0 = 0 \<and> ls_mode c = mode c"

lemma jit_hart_with_reg: "jit_hart c \<Longrightarrow> jit_hart (with_reg c n v)"
  by (auto simp: jit_hart_def nth_list_update with_reg_def ls_mode_def)

lemma jit_hart_same_core: "same_core c d \<Longrightarrow> jit_hart c \<Longrightarrow> jit_hart d"
proof -
  assume "same_core c d"
  then have "regs d = regs c" "csr d = csr c" "mode d = mode c"
    unfolding same_core_def by (cases c; cases d; simp)+
  moreover from this have "ls_mode d = ls_mode c" by (simp only: ls_mode_def)
  ultimately show "jit_hart c \<Longrightarrow> jit_hart d" by (simp add: jit_hart_def)
qed

lemma jit_end_Pass: "jit_hart c \<Longrightarrow> jit_end gpc nxt c i = Pass d \<Longrightarrow> jit_hart d"
  by (cases i) (auto simp: jit_hart_with_reg load_end_def store_end_def split: option.splits if_splits
      dest!: jit_load_core jit_store_core intro: jit_hart_same_core intro!: jit_hart_with_reg)

lemma jit_end_Seq: "effect i = Seq \<Longrightarrow> jit_end gpc nxt c i = Leave w d \<Longrightarrow> w = u64_MAX"
  by (cases i) (auto simp: load_end_def store_end_def split: option.splits if_splits)

lemma jit_end_Terminal: "effect i = Terminal \<Longrightarrow> jit_end gpc nxt c i \<noteq> Pass d"
  by (cases i) (auto split: if_splits)

text \<open>
  How the end of a block's code compares with the interpreter on its instructions: it returns the
  interpreter's next \<open>pc\<close> and the hart it leaves; or \<open>u64::MAX\<close> in front of an instruction, the
  \<open>k\<close>-th, after doing what the interpreter does up to it, with \<open>pc\<close> at that instruction (the access
  that failed has changed nothing but the TLB and the bus); or an access did not return.
\<close>

definition same_hart :: "cpu \<Rightarrow> cpu \<Rightarrow> bool" where
  "same_hart c d \<longleftrightarrow> d\<lparr>mmu := mmu c, bus := bus c, inst_size := inst_size c\<rparr> = c"

definition block_agrees :: "host \<Rightarrow> cpu \<Rightarrow> u32 list \<Rightarrow> block_end \<Rightarrow> bool" where
  "block_agrees h c raws e \<longleftrightarrow> (case e of
     Pass d \<Rightarrow> False
   | Leave w d \<Rightarrow>
       if w = u64_MAX
       then \<exists>k < length raws. \<exists>c'. exec_raws h c (take k raws) = Some c' \<and> same_hart c' d
       else \<exists>z. exec_raws h c raws = Some (at d w z)
   | Hang \<Rightarrow> exec_raws h c raws = None)"

lemma block_agrees_Nil: "\<not> bit gpc 0 \<Longrightarrow> block_agrees h (at c gpc y) [] (Leave gpc c)"
  using even_not_MAX [of gpc] by (auto simp: block_agrees_def)

text \<open>One instruction in front of a block.\<close>

lemma block_agrees_Cons:
  assumes "agrees (exec_arm h (at c gpc (raw_size raw)) (gpc + raw_size raw) i) c gpc (raw_size raw) (gpc + raw_size raw) e1"
    and "decode_raw raw = Ok i"
    and "sim ins c e1"
    and "\<And>d. e1 = Pass d \<Longrightarrow> decode_execute h (at c gpc y) raw = Some (at d (gpc + raw_size raw) (raw_size raw)) \<Longrightarrow>
      \<exists>e. sim code d e \<and> block_agrees h (at d (gpc + raw_size raw) (raw_size raw)) raws e"
    and "\<And>w d. e1 = Leave w d \<Longrightarrow> w \<noteq> u64_MAX \<Longrightarrow> raws = []"
  shows "\<exists>e. sim (ins @ code) c e \<and> block_agrees h (at c gpc y) (raw # raws) e"
proof (cases e1)
  case (Pass d)
  have x: "decode_execute h (at c gpc y) raw = Some (at d (gpc + raw_size raw) (raw_size raw))"
    using assms(1,2) Pass by (simp add: decode_execute_at)
  then obtain e where e: "sim code d e" "block_agrees h (at d (gpc + raw_size raw) (raw_size raw)) raws e"
    using assms(4) Pass by blast
  have "block_agrees h (at c gpc y) (raw # raws) e"
  proof (cases e)
    case (Leave w d')
    show ?thesis
    proof (cases "w = u64_MAX")
      case True
      then obtain k c' where "k < length raws" "exec_raws h (at d (gpc + raw_size raw) (raw_size raw)) (take k raws) = Some c'" "same_hart c' d'"
        using e(2) Leave by (auto simp: block_agrees_def)
      then show ?thesis
        using True Leave x by (auto simp: block_agrees_def intro!: exI [of _ "Suc k"])
    next
      case False
      then show ?thesis using e(2) Leave x by (auto simp: block_agrees_def)
    qed
  qed (use e(2) x in \<open>auto simp: block_agrees_def\<close>)
  then show ?thesis using sim_append_Pass [OF assms(3) [unfolded Pass] e(1)] by blast
next
  case (Leave w d)
  have "block_agrees h (at c gpc y) (raw # raws) e1"
  proof (cases "w = u64_MAX")
    case True
    then obtain d' where "same_core c d'" "d = d'\<lparr>pc := gpc\<rparr>" using assms(1) Leave by auto
    then have "same_hart (at c gpc y) d"
      unfolding same_core_def same_hart_def at_def by (cases c; cases d') simp
    then show ?thesis using True Leave by (auto simp: block_agrees_def intro!: exI [of _ 0])
  next
    case False
    then show ?thesis
      using assms(1,2,5) Leave by (auto simp: block_agrees_def decode_execute_at)
  qed
  then show ?thesis using sim_append_Leave [OF assms(3) [unfolded Leave]] Leave by blast
next
  case Hang
  then have "block_agrees h (at c gpc y) (raw # raws) e1"
    using assms(1,2) by (simp add: block_agrees_def decode_execute_at)
  then show ?thesis using sim_append_Hang [OF assms(3) [unfolded Hang]] Hang by blast
qed

text \<open>What the compiler's loop has appended, from the \<open>n\<close>-th instruction on.\<close>

definition tail_sound :: "host \<Rightarrow> u64 \<Rightarrow> u32 list \<Rightarrow> insn list \<Rightarrow> bool" where
  "tail_sound h gpc raws code \<longleftrightarrow> (\<forall>c y. jit_hart c \<longrightarrow> \<not> bit gpc 0 \<longrightarrow> (\<forall>raw \<in> set raws. \<not> hint_raw raw) \<longrightarrow>
     in_pages h (at c gpc y) raws \<longrightarrow> (\<exists>e. sim code c e \<and> block_agrees h (at c gpc y) raws e))"

lemma tail_sound_Nil: "tail_sound h gpc [] (emit_return gpc)"
  unfolding tail_sound_def using emit_return_leaves block_agrees_Nil by blast

lemma even_raw_size: "\<not> bit gpc 0 \<Longrightarrow> \<not> bit (gpc + raw_size raw) 0"
  using even_pc_add [of gpc "raw_size raw"] by (simp add: even_pc_def raw_size_def bit_0)

lemma tail_sound_Cons:
  assumes "emit_raw lb gpc raw = Some (ins, eff, sz)" "eff \<noteq> Unhandled"
    and "eff = Seq \<Longrightarrow> tail_sound h (gpc + sz) raws code" "eff = Terminal \<Longrightarrow> raws = []"
  shows "tail_sound h gpc (raw # raws) (ins @ code)"
  unfolding tail_sound_def
proof (intro allI impI)
  fix c y
  assume c: "jit_hart c" and g: "\<not> bit gpc 0" and hints: "\<forall>raw \<in> set (raw # raws). \<not> hint_raw raw"
    and pages: "in_pages h (at c gpc y) (raw # raws)"
  note w = c [unfolded jit_hart_def]
  obtain i where i: "sz = raw_size raw" "decode_raw raw = Ok i" "effect i = eff" "sim ins c (jit_end gpc (gpc + sz) c i)"
    using emit_raw_sound [OF assms(1,2)] w hints by auto
  note nxt = even_raw_size [OF g, of raw]
  have "access_in_page (at c gpc y) i" using pages i(2) by simp
  then have "access_in_page c i" by (cases i) simp_all
  then have a: "agrees (exec_arm h (at c gpc sz) (gpc + sz) i) c gpc sz (gpc + sz) (jit_end gpc (gpc + sz) c i)"
    using jit_end_agrees [OF decode_raw_encodable [OF i(2)], where c = c and gpc = gpc and nxt = "gpc + sz" and z = sz and h = h and lb = lb]
      w g nxt i(1,3) assms(2) snd_emit_inst by auto
  show "\<exists>e. sim (ins @ code) c e \<and> block_agrees h (at c gpc y) (raw # raws) e"
  proof (rule block_agrees_Cons [OF a [unfolded i(1)] i(2) i(4) [unfolded i(1)]])
    fix d
    assume d: "jit_end gpc (gpc + raw_size raw) c i = Pass d"
      and x: "decode_execute h (at c gpc y) raw = Some (at d (gpc + raw_size raw) (raw_size raw))"
    have "eff = Seq" using d jit_end_Terminal i(3) assms(2) by (cases eff) auto
    then have "tail_sound h (gpc + raw_size raw) raws code" using assms(3) i(1) by simp
    moreover have "jit_hart d" using jit_end_Pass [OF c d] .
    ultimately show "\<exists>e. sim code d e \<and> block_agrees h (at d (gpc + raw_size raw) (raw_size raw)) raws e"
      unfolding tail_sound_def using nxt hints pages x by simp
  next
    fix v d
    assume "jit_end gpc (gpc + raw_size raw) c i = Leave v d" "v \<noteq> u64_MAX"
    then have "eff \<noteq> Seq" using jit_end_Seq i(3) by blast
    then show "raws = []" using assms(2,4) by (cases eff) auto
  qed
qed
lemma compile_loop_sound:
  assumes "compile_loop c gpc n = Some (d, code, m)" "0 < m" "n < 128"
  shows "\<exists>raws. fetched c gpc raws \<and> m = n + length raws \<and> m \<le> 128 \<and> (\<forall>h. tail_sound h gpc raws code)"
  using assms
proof (induction "128 - n" arbitrary: c gpc n code rule: less_induct)
  case less
  note loop = less.prems(1) [unfolded compile_loop.simps [of c gpc n]]
  obtain c1 raw where f: "compile_fetch c gpc = Some (c1, raw)"
    using loop by (cases "compile_fetch c gpc") auto
  have exit: "\<exists>raws. fetched c gpc raws \<and> m = n + length raws \<and> m \<le> 128 \<and> (\<forall>h. tail_sound h gpc raws code)"
    if "code = block_exit n gpc" "m = n"
    using that less.prems(2,3) by (intro exI [of _ "[]"]) (simp add: block_exit_def tail_sound_Nil)
  show ?case
  proof (cases raw)
    case None
    show ?thesis by (rule exit) (use loop f None in auto)
  next
    case (Some raw4)
    obtain ins eff sz where e: "emit_raw (2 * n) gpc raw4 = Some (ins, eff, sz)"
      using loop f Some by (cases "emit_raw (2 * n) gpc raw4") auto
    have sz: "sz = raw_size raw4"
      using e by (auto simp: emit_raw_def raw_size_def split: if_splits prod.splits bind_splits sum.splits)
    have one: "\<exists>raws. fetched c gpc raws \<and> m = n + length raws \<and> m \<le> 128 \<and> (\<forall>h. tail_sound h gpc raws code)"
      if "code = ins @ last" "m = n + 1" "eff \<noteq> Unhandled" "eff = Seq \<Longrightarrow> last = emit_return (gpc + sz)" for last
    proof (intro exI [of _ "[raw4]"] conjI allI)
      fix h
      show "tail_sound h gpc [raw4] code"
        unfolding that(1) by (rule tail_sound_Cons [OF e that(3)]) (simp_all add: that(4) tail_sound_Nil)
    qed (use that less.prems(3) f Some in simp_all)
    show ?thesis
    proof (cases eff)
      case Seq
      show ?thesis
      proof (cases "128 \<le> n + 1")
        case True
        then show ?thesis
          using loop f Some e Seq by (intro one [of "emit_return (gpc + sz)"]) simp_all
      next
        case False
        then obtain code' where r: "compile_loop c1 (gpc + sz) (n + 1) = Some (d, code', m)" "code = ins @ code'"
          using loop f Some e Seq by (auto simp: emit_then_def)
        have less_n: "128 - (n + 1) < 128 - n" "n + 1 < 128" using False by linarith+
        obtain raws where raws: "fetched c1 (gpc + sz) raws" "m = n + 1 + length raws" "m \<le> 128"
            "\<And>h. tail_sound h (gpc + sz) raws code'"
          using less.hyps [OF less_n(1) r(1) less.prems(2) less_n(2)] by blast
        show ?thesis
        proof (intro exI [of _ "raw4 # raws"] conjI allI)
          fix h
          show "tail_sound h gpc (raw4 # raws) code"
            unfolding r(2) by (rule tail_sound_Cons [OF e]) (simp_all add: raws Seq)
        qed (use raws f Some sz in simp_all)
      qed
    next
      case Terminal
      then show ?thesis
        using loop f Some e by (intro one [of "[]"]) simp_all
    next
      case Unhandled
      show ?thesis by (rule exit) (use loop f Some e Unhandled in auto)
    qed
  qed
qed

section \<open>Calling a block\<close>

lemma emit_prologue_run:
  "\<exists>s. run (emit_prologue @ code) (call_state c) = run code s \<and> in_block (Vsaved R14, Vsaved R15) c s"
  by (auto simp: emit_prologue_def call_state_def in_block_def put_def)

definition block_outcome :: "host \<Rightarrow> cpu \<Rightarrow> u32 list \<Rightarrow> outcome \<Rightarrow> bool" where
  "block_outcome h c raws r \<longleftrightarrow> (case r of
     Stuck \<Rightarrow> False
   | NoReturn \<Rightarrow> exec_raws h c raws = None
   | Returned v s \<Rightarrow> xregs s R14 = Vsaved R14 \<and> xregs s R15 = Vsaved R15 \<and> xstack s = [] \<and>
       (\<exists>w. v = Vint w \<and>
         (if w = u64_MAX
          then \<exists>k < length raws. \<exists>c'. exec_raws h c (take k raws) = Some c' \<and> same_hart c' (guest s)
          else \<exists>z. exec_raws h c raws = Some (at (guest s) w z))))"

lemma sim_outcome:
  assumes "sim code c e" "block_agrees h c raws e"
  shows "block_outcome h c raws (call_block (emit_prologue @ code) c)"
proof -
  obtain s where s: "run (emit_prologue @ code) (call_state c) = run code s" "in_block (Vsaved R14, Vsaved R15) c s"
    using emit_prologue_run by blast
  show ?thesis
  proof (cases e)
    case (Pass d)
    then show ?thesis using assms(2) by (simp add: block_agrees_def)
  next
    case (Leave w d)
    obtain s' where "run code s = Returned (Vint w) s'" "exited (Vsaved R14, Vsaved R15) d s'"
      using sim_LeaveD [OF assms(1) [unfolded Leave] s(2), of "[]"] by auto
    then show ?thesis
      using assms(2) by (auto simp: block_outcome_def block_agrees_def call_block_def s(1) Leave exited_def split: if_splits)
  next
    case Hang
    have "run code s = NoReturn"
      using assms(1) s(2) unfolding sim_def Hang block_end.case by (metis append_Nil2)
    then show ?thesis
      using assms(2) by (simp add: block_outcome_def block_agrees_def call_block_def s(1) Hang)
  qed
qed


end
