(* ===== verification/JitSafe.thy ===== *)
theory JitSafe
  imports JitBlock
begin

text \<open>
  The compiler's code keeps the machine well-formed, whatever the instructions: no hypothesis on page
  crossings or on the mode loads are translated in.
\<close>

section \<open>What an instruction's code does to the machine\<close>

text \<open>
  \<open>draining b\<close>: from the bus \<open>b\<close> accesses lead to one in which a write of the block device's notify
  register does not return.
\<close>

definition draining :: "bus \<Rightarrow> bool" where
  "draining b \<longleftrightarrow> (\<exists>b' n v. bus_reaches b b' \<and> n \<in> {1, 2, 4, 8} \<and> Bus_store b' NOTIFY_REG n v = None)"

lemma draining_reaches: "bus_reaches b b' \<Longrightarrow> draining b' \<Longrightarrow> draining b"
  unfolding draining_def using bus_reaches_trans by blast

lemma runs_iff: "runs Q b r \<longleftrightarrow> (case r of Some (c, x) \<Rightarrow> cpu_wf c \<and> Q x \<and> bus_reaches b (bus c) | None \<Rightarrow> draining b)"
  unfolding runs_def draining_def ..

lemma runs_jit_load: "cpu_wf c \<Longrightarrow> n \<in> {1, 2, 4, 8} \<Longrightarrow> runs (\<lambda>_. True) (bus c) (jit_load n c a)"
  unfolding jit_load_def
  by (rule runs_bind [OF runs_translate], assumption) (auto split: sum.split intro!: runs_bind [OF runs_load])

lemma runs_jit_store: "cpu_wf c \<Longrightarrow> n \<in> {1, 2, 4, 8} \<Longrightarrow> runs (\<lambda>_. True) (bus c) (jit_store n c a w)"
  unfolding jit_store_def
  by (rule runs_bind [OF runs_translate], assumption) (auto split: sum.split intro!: runs_bind [OF runs_store])

text \<open>Ends that leave a well-formed hart, with an even \<open>pc\<close> to go on at.\<close>

definition end_ok :: "bus \<Rightarrow> block_end \<Rightarrow> bool" where
  "end_ok b e \<longleftrightarrow> (case e of
     Pass d \<Rightarrow> cpu_wf d \<and> bus_reaches b (bus d)
   | Leave w d \<Rightarrow> cpu_wf d \<and> bus_reaches b (bus d) \<and> (w = u64_MAX \<or> \<not> bit w 0)
   | Hang \<Rightarrow> draining b)"

lemma end_ok_simps [simp]:
  "end_ok b (Pass d) \<longleftrightarrow> cpu_wf d \<and> bus_reaches b (bus d)"
  "end_ok b (Leave w d) \<longleftrightarrow> cpu_wf d \<and> bus_reaches b (bus d) \<and> (w = u64_MAX \<or> \<not> bit w 0)"
  "end_ok b Hang \<longleftrightarrow> draining b"
  by (simp_all add: end_ok_def)

lemma end_ok_reaches: "bus_reaches b b' \<Longrightarrow> end_ok b' e \<Longrightarrow> end_ok b e"
  by (cases e) (auto intro: bus_reaches_trans draining_reaches)

lemma cpu_wf_with_reg: "cpu_wf c \<Longrightarrow> cpu_wf (with_reg c n v)"
  by (auto simp: cpu_wf_def with_reg_def nth_list_update)

lemma load_end_ok:
  assumes "cpu_wf c" "\<not> bit gpc 0" "n \<in> {1, 2, 4, 8}"
  shows "end_ok (bus c) (load_end gpc rd ext (jit_load n c a))"
  using runs_jit_load [OF assms(1,3), of a] assms(2)
  by (auto simp: runs_iff load_end_def cpu_wf_with_reg cpu_wf_pc even_pc_def split: option.splits)

lemma store_end_ok:
  assumes "cpu_wf c" "\<not> bit gpc 0" "n \<in> {1, 2, 4, 8}"
  shows "end_ok (bus c) (store_end gpc (jit_store n c a w))"
  using runs_jit_store [OF assms(1,3), of a w] assms(2)
  by (auto simp: runs_iff store_end_def cpu_wf_pc even_pc_def split: option.splits)

lemma jit_end_ok:
  assumes "cpu_wf c" "encodable i" "\<not> bit gpc 0" "\<not> bit nxt 0"
  shows "end_ok (bus c) (jit_end gpc nxt c i)"
proof -
  have e: "\<not> bit imm 0 \<Longrightarrow> \<not> bit (gpc + imm) 0" for imm
    using even_pc_add [of gpc imm] assms(3) by (simp add: even_pc_def)
  have l: "load_width op \<in> {1, 2, 4, 8}" for op by (cases op) simp_all
  have s: "store_width op \<in> {1, 2, 4, 8}" for op by (cases op) simp_all
  show ?thesis
  proof (cases i)
    case (Load op rd rs1 imm)
    then show ?thesis using load_end_ok [OF assms(1,3) l] by simp
  next
    case (Store op rs1 rs2 imm)
    then show ?thesis using store_end_ok [OF assms(1,3) s] by simp
  qed (use assms e in \<open>simp_all add: cpu_wf_with_reg bit_simps\<close>)
qed

text \<open>The code appended for any bits is safe to run, a \<open>C.ADD\<close> hint's included.\<close>

lemma emit_raw_safe:
  assumes "emit_raw lb gpc raw = Some (ins, eff, sz)" "eff \<noteq> Unhandled" "cpu_wf c" "\<not> bit gpc 0"
  shows "\<exists>e. sim ins c e \<and> end_ok (bus c) e \<and> (eff = Terminal \<longrightarrow> (\<forall>d. e \<noteq> Pass d))"
proof (cases "hint_raw raw")
  case True
  then have "ins = []" "eff = Seq"
    using assms(1) add_hint_diverges(1) unfolding hint_raw_def emit_raw_def ucast_low_half by auto
  then show ?thesis using sim_Nil assms(3) by (intro exI [of _ "Pass c"]) simp
next
  case False
  have w: "length (regs c) = 32" "regs c ! 0 = 0" using assms(3) by (simp_all add: cpu_wf_def)
  obtain i where i: "sz = raw_size raw" "decode_raw raw = Ok i" "effect i = eff" "sim ins c (jit_end gpc (gpc + sz) c i)"
    using emit_raw_sound [OF assms(1,2) w False] by blast
  have "end_ok (bus c) (jit_end gpc (gpc + sz) c i)"
    using jit_end_ok [OF assms(3) decode_raw_encodable [OF i(2)] assms(4)] even_raw_size [OF assms(4)] i(1) by simp
  then show ?thesis using i jit_end_Terminal by blast
qed

section \<open>What a block does to the machine\<close>

definition code_safe :: "insn list \<Rightarrow> bool" where
  "code_safe code \<longleftrightarrow> (\<forall>c. cpu_wf c \<longrightarrow> (\<exists>e. sim code c e \<and> end_ok (bus c) e \<and> (\<forall>d. e \<noteq> Pass d)))"

lemma code_safe_return: "\<not> bit gpc 0 \<Longrightarrow> code_safe (emit_return gpc)"
  unfolding code_safe_def
proof (intro allI impI)
  fix c assume "\<not> bit gpc 0" "cpu_wf c"
  then show "\<exists>e. sim (emit_return gpc) c e \<and> end_ok (bus c) e \<and> (\<forall>d. e \<noteq> Pass d)"
    by (intro exI [of _ "Leave gpc c"]) (simp add: emit_return_leaves)
qed

lemma code_safe_exit: "\<not> bit gpc 0 \<Longrightarrow> code_safe (block_exit n gpc)"
  using code_safe_return [of gpc] unfolding block_exit_def code_safe_def
  by (auto intro!: exI [of _ "Leave u64_MAX _"] emit_slow_path_leaves)

lemma code_safe_append:
  assumes "emit_raw lb gpc raw = Some (ins, eff, sz)" "eff \<noteq> Unhandled" "\<not> bit gpc 0"
    and "eff = Seq \<Longrightarrow> code_safe code"
  shows "code_safe (ins @ code)"
  unfolding code_safe_def
proof (intro allI impI)
  fix c
  assume c: "cpu_wf c"
  obtain e where e: "sim ins c e" "end_ok (bus c) e" "eff = Terminal \<longrightarrow> (\<forall>d. e \<noteq> Pass d)"
    using emit_raw_safe [OF assms(1,2) c assms(3)] by blast
  show "\<exists>e. sim (ins @ code) c e \<and> end_ok (bus c) e \<and> (\<forall>d. e \<noteq> Pass d)"
  proof (cases e)
    case (Pass d)
    then have "code_safe code" using e(3) assms(2,4) by (cases eff) auto
    then obtain e2 where "sim code d e2" "end_ok (bus d) e2" "\<forall>d. e2 \<noteq> Pass d"
      using e(2) Pass unfolding code_safe_def by auto
    then show ?thesis
      using e(1,2) Pass sim_append_Pass end_ok_reaches by (intro exI [of _ e2]) auto
  next
    case (Leave w d)
    then show ?thesis using e sim_append_Leave by (intro exI [of _ e]) auto
  next
    case Hang
    then show ?thesis using e sim_append_Hang by (intro exI [of _ e]) auto
  qed
qed

lemma runs_compile_fetch: "cpu_wf c \<Longrightarrow> runs (\<lambda>_. True) (bus c) (compile_fetch c gpc)"
  unfolding compile_fetch_def
  by (rule runs_bind [OF runs_translate], assumption) (auto split: sum.split intro!: runs_bind [OF runs_load])

lemma compile_loop_safe:
  assumes "cpu_wf c" "\<not> bit gpc 0"
  shows "case compile_loop c gpc n of
     None \<Rightarrow> draining (bus c) | Some (d, code, m) \<Rightarrow> cpu_wf d \<and> bus_reaches (bus c) (bus d) \<and> code_safe code"
  using assms
proof (induction "128 - n" arbitrary: c gpc n rule: less_induct)
  case less
  show ?case
  proof (cases "compile_fetch c gpc")
    case None
    then show ?thesis
      using runs_compile_fetch [OF less.prems(1), of gpc] by (simp add: runs_iff compile_loop.simps [of c gpc n])
  next
    case (Some x)
    obtain c1 raw where f: "compile_fetch c gpc = Some (c1, raw)" using Some by (cases x) simp
    have c1: "cpu_wf c1" "bus_reaches (bus c) (bus c1)"
      using runs_compile_fetch [OF less.prems(1), of gpc] by (simp_all add: f)
    show ?thesis
    proof (cases raw)
      case None
      then show ?thesis
        using f c1 code_safe_exit [OF less.prems(2)] by (simp add: compile_loop.simps [of c gpc n])
    next
      case (Some raw4)
      obtain r where "emit_raw (2 * n) gpc raw4 = Some r"
        using decode_total [of raw4] by (cases "emit_raw (2 * n) gpc raw4") (auto simp: emit_raw_def split: prod.splits if_splits)
      then obtain ins eff sz where e: "emit_raw (2 * n) gpc raw4 = Some (ins, eff, sz)" by (cases r) auto
      have sz: "sz = raw_size raw4"
        using e by (auto simp: emit_raw_def raw_size_def split: if_splits prod.splits bind_splits sum.splits)
      have nxt: "\<not> bit (gpc + sz) 0" unfolding sz by (rule even_raw_size [OF less.prems(2)])
      note loop = compile_loop.simps [of c gpc n, unfolded f Some, simplified, unfolded e, simplified]
      show ?thesis
      proof (cases eff)
        case Seq
        show ?thesis
        proof (cases "128 \<le> n + 1")
          case True
          then show ?thesis
            using c1 code_safe_append [OF e _ less.prems(2) code_safe_return [OF nxt]] Seq by (simp add: loop)
        next
          case False
          then have ih: "case compile_loop c1 (gpc + sz) (n + 1) of
              None \<Rightarrow> draining (bus c1) | Some (d, code, m) \<Rightarrow> cpu_wf d \<and> bus_reaches (bus c1) (bus d) \<and> code_safe code"
            by (intro less.hyps [OF _ c1(1) nxt]) linarith
          have app: "code_safe code \<Longrightarrow> code_safe (ins @ code)" for code
            using code_safe_append [OF e _ less.prems(2), of code] Seq by simp
          show ?thesis
            using ih False c1 draining_reaches bus_reaches_trans app
            by (auto simp: loop Seq emit_then_def split: option.splits)
        qed
      next
        case Terminal
        then show ?thesis
          using c1 code_safe_append [OF e _ less.prems(2), of "[]"] by (simp add: loop)
      next
        case Unhandled
        then show ?thesis
          using c1 code_safe_exit [OF less.prems(2)] by (simp add: loop)
      qed
    qed
  qed
qed

section \<open>The cache\<close>

text \<open>Every block of the cache is a prologue and safe code.\<close>

definition cache_wf :: "jit_cache \<Rightarrow> bool" where
  "cache_wf j \<longleftrightarrow> (\<forall>p code. j p = Some code \<longrightarrow> (\<exists>body. code = emit_prologue @ body \<and> code_safe body))"

lemma cache_wf_new [simp]: "cache_wf JitCache_new" "cache_wf (JitCache_invalidate j)"
  by (simp_all add: cache_wf_def JitCache_new_def JitCache_invalidate_def)

lemma cache_wf_compile:
  assumes "cache_wf j" "cpu_wf c" "\<not> bit p 0"
  shows "case JitCache_compile j c p of
     None \<Rightarrow> draining (bus c) | Some (j', d) \<Rightarrow> cache_wf j' \<and> cpu_wf d \<and> bus_reaches (bus c) (bus d)"
proof (cases "p \<in> dom j")
  case True
  then show ?thesis using assms by (simp add: JitCache_compile_def)
next
  case False
  show ?thesis
  proof (cases "compile_fetch c p")
    case None
    then show ?thesis
      using runs_compile_fetch [OF assms(2), of p] False by (simp add: runs_iff JitCache_compile_def)
  next
    case (Some x)
    obtain c1 raw where f: "compile_fetch c p = Some (c1, raw)" using Some by (cases x) simp
    have c1: "cpu_wf c1" "bus_reaches (bus c) (bus c1)"
      using runs_compile_fetch [OF assms(2), of p] by (simp_all add: f)
    have "cache_wf (j(p \<mapsto> emit_prologue @ code))" if "code_safe code" for code
      using assms(1) that by (auto simp: cache_wf_def)
    then show ?thesis
      using compile_loop_safe [OF c1(1) assms(3), of 0] c1 assms(1) False draining_reaches bus_reaches_trans
      by (auto simp: JitCache_compile_def f split: option.splits)
  qed
qed

lemma call_block_safe:
  assumes "code_safe body" "cpu_wf c"
  shows "case call_block (emit_prologue @ body) c of
     Stuck \<Rightarrow> False
   | NoReturn \<Rightarrow> draining (bus c)
   | Returned v s \<Rightarrow> cpu_wf (guest s) \<and> bus_reaches (bus c) (bus (guest s)) \<and>
       (\<exists>w. v = Vint w \<and> (w = u64_MAX \<or> \<not> bit w 0))"
proof -
  obtain e where e: "sim body c e" "end_ok (bus c) e" "\<forall>d. e \<noteq> Pass d"
    using assms unfolding code_safe_def by blast
  obtain s where s: "call_block (emit_prologue @ body) c = run body s" "in_block (Vsaved R14, Vsaved R15) c s"
    using emit_prologue_run [of body c] unfolding call_block_def by blast
  show ?thesis
  proof (cases e)
    case (Pass d)
    then show ?thesis using e(3) by blast
  next
    case (Leave w d)
    then show ?thesis
      using sim_LeaveD [OF e(1) [unfolded Leave] s(2), of "[]"] e(2) by (auto simp: s(1) exited_def)
  next
    case Hang
    have "run body s = NoReturn"
      using e(1) s(2) unfolding sim_def Hang block_end.case by (metis append_Nil2)
    then show ?thesis using e(2) Hang by (simp add: s(1))
  qed
qed

end
