(* ===== verification/Loader.thy ===== *)
theory Loader
  imports Bus
begin

text \<open>
  Loading programs into RAM: \<open>src/loader.rs\<close> and \<open>load_raw\<close> of \<open>src/main.rs\<close>.  The ELF parser is the
  goblin crate: \<open>goblin\<close> holds the parser as a function from the bytes of a file and the two constants
  the loader compares header fields with; of its result the model keeps the fields the loader reads.
  The outer option is a panic, the sum the function's \<open>Result\<close>.
\<close>

section \<open>The parser's interface\<close>

record program_header =
  p_type :: u32
  p_offset :: u64
  p_filesz :: u64
  p_paddr :: u64

record elf_sym =
  st_name :: nat
  st_value :: u64

record elf =
  is_64 :: bool
  e_type :: u16
  elf_entry :: u64
  program_headers :: "program_header list"
  syms :: "elf_sym list"
  strtab :: "nat \<Rightarrow> string option"

record goblin =
  elf_parse :: "u8 list \<Rightarrow> elf option"
  ET_DYN :: u16
  PT_LOAD :: u32

section \<open>load_elf\<close>

definition RAM_BASE :: u64 where
  "RAM_BASE = 0x80000000"

definition RAM_SIZE :: nat where
  "RAM_SIZE = 256 * 1024 * 1024"

record loaded_elf =
  loaded_bus :: bus
  entry :: u64
  tohost_addr :: "u64 option"

text \<open>The errors, with the addresses their messages show.\<close>

datatype load_error =
    ElfParseFailed
  | NotElf64
  | BelowRam u64
  | OutOfFile
  | ExceedsRam u64 u64

text \<open>\<open>bytes.get(a..b)\<close>: nothing when the range is backwards or leaves the slice.\<close>

definition get_range :: "u8 list \<Rightarrow> u64 \<Rightarrow> u64 \<Rightarrow> u8 list option" where
  "get_range bytes a b =
    (if a \<le> b \<and> unat b \<le> length bytes then Some (take (unat b - unat a) (drop (unat a) bytes)) else None)"

text \<open>\<open>bus.ram_mut()[a..b].copy_from_slice(xs)\<close>.\<close>

definition ram_copy :: "bus \<Rightarrow> u64 \<Rightarrow> u64 \<Rightarrow> u8 list \<Rightarrow> bus option" where
  "ram_copy b from to xs =
    (if from \<le> to \<and> unat to - unat from = length xs then do {
       r \<leftarrow> copy_into (ram b) (unat from) xs;
       Some (b\<lparr>ram := r\<rparr>)
     } else None)"

definition load_segment :: "goblin \<Rightarrow> u8 list \<Rightarrow> u64 \<Rightarrow> program_header \<Rightarrow> bus \<Rightarrow> (load_error + bus) option" where
  "load_segment g bytes load_offset ph b =
    (if p_type ph \<noteq> PT_LOAD g then Ok b
     else
       let file_start = p_offset ph;
           file_end = file_start + p_filesz ph;
           mem_addr = p_paddr ph + load_offset
       in
       if mem_addr < RAM_BASE then Err (BelowRam mem_addr)
       else case get_range bytes file_start file_end of
         None \<Rightarrow> Err OutOfFile
       | Some segment \<Rightarrow>
           let off = mem_addr - RAM_BASE; end_off = off + of_nat (length segment)
           in if unat end_off > RAM_SIZE then Err (ExceedsRam mem_addr (mem_addr + p_filesz ph))
              else do { b \<leftarrow> ram_copy b off end_off segment; Ok b })"

fun load_segments :: "goblin \<Rightarrow> u8 list \<Rightarrow> u64 \<Rightarrow> program_header list \<Rightarrow> bus \<Rightarrow> (load_error + bus) option" where
  "load_segments g bytes load_offset [] b = Ok b"
| "load_segments g bytes load_offset (ph # phs) b = do {
     r \<leftarrow> load_segment g bytes load_offset ph b;
     case r of Inl e \<Rightarrow> Err e | Inr b \<Rightarrow> load_segments g bytes load_offset phs b
   }"

definition load_offset :: "goblin \<Rightarrow> elf \<Rightarrow> u64" where
  "load_offset g e = (if e_type e = ET_DYN g then RAM_BASE else 0)"

definition load_elf :: "goblin \<Rightarrow> u8 list \<Rightarrow> (load_error + loaded_elf) option" where
  "load_elf g bytes =
    (case elf_parse g bytes of
       None \<Rightarrow> Err ElfParseFailed
     | Some e \<Rightarrow>
         if \<not> is_64 e then Err NotElf64
         else do {
           r \<leftarrow> load_segments g bytes (load_offset g e) (program_headers e) (Bus_new RAM_SIZE RAM_BASE);
           case r of
             Inl err \<Rightarrow> Err err
           | Inr b \<Rightarrow>
               let tohost = find (\<lambda>s. strtab e (st_name s) = Some ''tohost'') (syms e)
               in Ok \<lparr>loaded_bus = b, entry = elf_entry e + load_offset g e, tohost_addr = map_option st_value tohost\<rparr>
         })"

section \<open>load_raw\<close>

datatype raw_error = LoadOverflows u64 | TooLarge u64

text \<open>\<open>load_raw\<close> on the bytes of the file.\<close>

definition load_raw :: "bus \<Rightarrow> u8 list \<Rightarrow> u64 \<Rightarrow> (raw_error + bus \<times> nat) option" where
  "load_raw b bytes phys_addr =
    (let off = phys_addr - RAM_BASE in
     case checked_add off (of_nat (length bytes)) of
       None \<Rightarrow> Err (LoadOverflows phys_addr)
     | Some end_off \<Rightarrow>
         if unat end_off > length (ram b) then Err (TooLarge phys_addr)
         else do { b \<leftarrow> ram_copy b off end_off bytes; Ok (b, length bytes) })"
section \<open>The loaded image\<close>

text \<open>
  Where a segment goes in RAM, whether it can be loaded, and the byte of RAM a list of headers defines:
  a later segment overwrites an earlier one, and what no segment covers is zero.
\<close>

definition seg_off :: "u64 \<Rightarrow> program_header \<Rightarrow> nat" where
  "seg_off lo ph = unat (p_paddr ph + lo - RAM_BASE)"

definition segment_ok :: "goblin \<Rightarrow> u8 list \<Rightarrow> u64 \<Rightarrow> program_header \<Rightarrow> bool" where
  "segment_ok g bytes lo ph \<longleftrightarrow> p_type ph = PT_LOAD g \<longrightarrow>
     RAM_BASE \<le> p_paddr ph + lo \<and> unat (p_offset ph) + unat (p_filesz ph) \<le> length bytes \<and>
     seg_off lo ph + unat (p_filesz ph) \<le> RAM_SIZE"

definition covers :: "goblin \<Rightarrow> u64 \<Rightarrow> nat \<Rightarrow> program_header \<Rightarrow> bool" where
  "covers g lo i ph \<longleftrightarrow> p_type ph = PT_LOAD g \<and> seg_off lo ph \<le> i \<and> i < seg_off lo ph + unat (p_filesz ph)"

definition seg_byte :: "u8 list \<Rightarrow> u64 \<Rightarrow> nat \<Rightarrow> program_header \<Rightarrow> u8" where
  "seg_byte bytes lo i ph = bytes ! (unat (p_offset ph) + (i - seg_off lo ph))"

definition image_byte :: "goblin \<Rightarrow> u8 list \<Rightarrow> u64 \<Rightarrow> program_header list \<Rightarrow> nat \<Rightarrow> u8" where
  "image_byte g bytes lo phs i =
    (case find (covers g lo i) (rev phs) of None \<Rightarrow> 0 | Some ph \<Rightarrow> seg_byte bytes lo i ph)"

lemma unat_64: "unat (a :: u64) < 2 ^ 64"
  using unsigned_less [of a] by simp

lemma get_range_fits:
  fixes a n :: u64
  assumes "length bytes \<le> 2 ^ 31"
  shows "get_range bytes a (a + n) =
    (if unat a + unat n \<le> length bytes then Some (take (unat n) (drop (unat a) bytes)) else None)"
proof (cases "unat a + unat n < 2 ^ 64")
  case True
  then have u: "unat (a + n) = unat a + unat n" by (simp add: unat_word_ariths)
  then show ?thesis by (simp add: get_range_def word_le_nat_alt u)
next
  case False
  then have "unat (a + n) = unat a + unat n - 2 ^ 64"
    using unat_64 [of a] unat_64 [of n] by (simp add: unat_word_ariths mod_if)
  then have "\<not> a \<le> a + n"
    using False unat_64 [of n] by (simp add: word_le_nat_alt)
  moreover have "\<not> unat a + unat n \<le> length bytes"
    using False assms by simp
  ultimately show ?thesis by (simp add: get_range_def)
qed

lemma ram_base_sub: "RAM_BASE \<le> a \<Longrightarrow> unat (a - RAM_BASE) + 2 ^ 31 < 2 ^ 64"
  using unat_64 [of a] by (simp add: unat_sub word_le_nat_alt RAM_BASE_def)

lemma unat_of_len: "n \<le> 2 ^ 31 \<Longrightarrow> unat (of_nat n :: u64) = n"
  by (simp add: unat_of_nat)

lemma ram_copy_fits:
  assumes "unat off + length xs \<le> length (ram b)" "unat off + 2 ^ 31 < 2 ^ 64" "length xs \<le> 2 ^ 31"
  shows "ram_copy b off (off + of_nat (length xs)) xs =
    Some (b\<lparr>ram := take (unat off) (ram b) @ xs @ drop (unat off + length xs) (ram b)\<rparr>)"
proof -
  have "unat (off + of_nat (length xs)) = unat off + length xs"
    using assms(2,3) by (simp add: unat_word_ariths unat_of_len)
  then show ?thesis
    using assms(1) by (simp add: ram_copy_def copy_into_fits word_le_nat_alt)
qed

text \<open>One segment, and all of them.\<close>

definition same_but_ram :: "bus \<Rightarrow> bus \<Rightarrow> bool" where
  "same_but_ram b b' \<longleftrightarrow> b' = b\<lparr>ram := ram b'\<rparr> \<and> length (ram b') = length (ram b)"

lemma load_segment_image:
  assumes "length bytes \<le> 2 ^ 31" "length (ram b) = RAM_SIZE"
  shows "if segment_ok g bytes lo ph
    then \<exists>b'. load_segment g bytes lo ph b = Ok b' \<and> same_but_ram b b' \<and>
      (\<forall>i < RAM_SIZE. ram b' ! i = (if covers g lo i ph then seg_byte bytes lo i ph else ram b ! i))
    else \<exists>e. load_segment g bytes lo ph b = Err e \<and> e \<notin> {ElfParseFailed, NotElf64}"
proof (cases "p_type ph = PT_LOAD g \<and> RAM_BASE \<le> p_paddr ph + lo \<and> unat (p_offset ph) + unat (p_filesz ph) \<le> length bytes")
  case False
  then show ?thesis
    using get_range_fits [OF assms(1), of "p_offset ph" "p_filesz ph"]
    by (auto simp: load_segment_def segment_ok_def covers_def same_but_ram_def Let_def not_less)
next
  case True
  define seg where "seg = take (unat (p_filesz ph)) (drop (unat (p_offset ph)) bytes)"
  define off where "off = p_paddr ph + lo - RAM_BASE"
  have len: "length seg = unat (p_filesz ph)" "length seg \<le> 2 ^ 31"
    using True assms(1) by (auto simp: seg_def)
  have o: "unat off + 2 ^ 31 < 2 ^ 64" "seg_off lo ph = unat off"
    using True ram_base_sub by (simp_all add: off_def seg_off_def)
  have u: "unat (off + of_nat (length seg)) = unat off + length seg"
    using o len by (simp add: unat_word_ariths unat_of_len)
  have nb: "\<not> p_paddr ph + lo < RAM_BASE" using True by (simp add: not_less)
  have run: "load_segment g bytes lo ph b =
      (if unat off + length seg > RAM_SIZE then Err (ExceedsRam (p_paddr ph + lo) (p_paddr ph + lo + p_filesz ph))
       else do { b \<leftarrow> ram_copy b off (off + of_nat (length seg)) seg; Ok b })"
    using True get_range_fits [OF assms(1), of "p_offset ph" "p_filesz ph"]
    by (auto simp: load_segment_def Let_def u nb seg_def [symmetric] off_def [symmetric])
  show ?thesis
  proof (cases "unat off + length seg \<le> RAM_SIZE")
    case fits: True
    let ?b = "b\<lparr>ram := take (unat off) (ram b) @ seg @ drop (unat off + length seg) (ram b)\<rparr>"
    have ok: "segment_ok g bytes lo ph" using True fits len(1) o(2) by (simp add: segment_ok_def)
    have "load_segment g bytes lo ph b = Ok ?b"
      using fits ram_copy_fits [of off seg b] o(1) len(2) assms(2) by (simp add: run)
    moreover have "same_but_ram b ?b"
      using fits assms(2) by (simp add: same_but_ram_def)
    moreover have "ram ?b ! i = (if covers g lo i ph then seg_byte bytes lo i ph else ram b ! i)" if "i < RAM_SIZE" for i
    proof -
      have "ram ?b ! i = (if unat off \<le> i \<and> i < unat off + length seg then seg ! (i - unat off) else ram b ! i)"
        by (rule nth_copy_into) (use that fits assms(2) in \<open>simp_all add: copy_into_fits\<close>)
      moreover have "seg ! (i - unat off) = seg_byte bytes lo i ph" if "unat off \<le> i" "i < unat off + length seg"
      proof -
        have "i - unat off < unat (p_filesz ph)" using that len(1) by linarith
        then show ?thesis using True by (simp add: seg_def seg_byte_def o(2))
      qed
      ultimately show ?thesis using True len(1) by (auto simp: covers_def o(2))
    qed
    ultimately show ?thesis using ok by auto
  next
    case False
    then show ?thesis using True len(1) o(2) by (simp add: run segment_ok_def)
  qed
qed

lemma find_append: "find P (xs @ ys) = (case find P xs of None \<Rightarrow> find P ys | Some x \<Rightarrow> Some x)"
  by (induction xs) simp_all

lemma load_segments_image:
  assumes "length bytes \<le> 2 ^ 31" "length (ram b) = RAM_SIZE"
  shows "if list_all (segment_ok g bytes lo) phs
    then \<exists>b'. load_segments g bytes lo phs b = Ok b' \<and> same_but_ram b b' \<and>
      (\<forall>i < RAM_SIZE. ram b' ! i = (case find (covers g lo i) (rev phs) of
         None \<Rightarrow> ram b ! i | Some ph \<Rightarrow> seg_byte bytes lo i ph))
    else \<exists>e. load_segments g bytes lo phs b = Err e \<and> e \<notin> {ElfParseFailed, NotElf64}"
  using assms(2)
proof (induction phs arbitrary: b)
  case Nil
  then show ?case by (simp add: same_but_ram_def)
next
  case (Cons ph phs)
  show ?case
  proof (cases "segment_ok g bytes lo ph")
    case False
    then show ?thesis using load_segment_image [OF assms(1) Cons.prems, of g lo ph] by auto
  next
    case True
    then obtain b1 where b1: "load_segment g bytes lo ph b = Ok b1" "same_but_ram b b1"
      "\<And>i. i < RAM_SIZE \<Longrightarrow> ram b1 ! i = (if covers g lo i ph then seg_byte bytes lo i ph else ram b ! i)"
      using load_segment_image [OF assms(1) Cons.prems, of g lo ph] by auto
    have "length (ram b1) = RAM_SIZE" using b1(2) Cons.prems by (simp add: same_but_ram_def)
    note ih = Cons.IH [OF this]
    show ?thesis
    proof (cases "list_all (segment_ok g bytes lo) phs")
      case all: True
      then obtain b2 where b2: "load_segments g bytes lo phs b1 = Ok b2" "same_but_ram b1 b2"
        "\<And>i. i < RAM_SIZE \<Longrightarrow> ram b2 ! i = (case find (covers g lo i) (rev phs) of
           None \<Rightarrow> ram b1 ! i | Some ph \<Rightarrow> seg_byte bytes lo i ph)"
        using ih by auto
      have "same_but_ram b b2"
        using b1(2) b2(2) unfolding same_but_ram_def by (metis bus.surjective bus.update_convs(1))
      then show ?thesis
        using True all b1(1,3) b2(1,3) by (auto simp: find_append split: option.split)
    next
      case False
      then show ?thesis using ih b1(1) by auto
    qed
  qed
qed

section \<open>Properties\<close>

lemma Bus_new_wf: "bus_wf (Bus_new RAM_SIZE RAM_BASE)"
  by (simp add: bus_wf_def Bus_new_def plic_wf_new RAM_SIZE_def RAM_BASE_def)

lemma same_but_ram_wf: "same_but_ram b b' \<Longrightarrow> bus_wf b \<Longrightarrow> bus_wf b' \<and> ram_base b' = ram_base b \<and> length (ram b') = length (ram b)"
  unfolding same_but_ram_def bus_wf_def by (cases b; cases b') simp

lemma load_elf_ok:
  assumes "elf_parse g bytes = Some e" "is_64 e" "length bytes \<le> 2 ^ 31"
  shows "if list_all (segment_ok g bytes (load_offset g e)) (program_headers e)
    then \<exists>l. load_elf g bytes = Ok l \<and> entry l = elf_entry e + load_offset g e \<and>
      same_but_ram (Bus_new RAM_SIZE RAM_BASE) (loaded_bus l) \<and> bus_wf (loaded_bus l) \<and>
      (\<forall>i < RAM_SIZE. ram (loaded_bus l) ! i = image_byte g bytes (load_offset g e) (program_headers e) i)
    else \<exists>err. load_elf g bytes = Err err \<and> err \<notin> {ElfParseFailed, NotElf64}"
proof -
  let ?b = "Bus_new RAM_SIZE RAM_BASE"
  have b: "length (ram ?b) = RAM_SIZE" "\<And>i. i < RAM_SIZE \<Longrightarrow> ram ?b ! i = 0"
    by (simp_all add: Bus_new_def)
  show ?thesis
    using assms(1,2) b(2) load_segments_image [OF assms(3) b(1), of g "load_offset g e" "program_headers e"]
      same_but_ram_wf [OF _ Bus_new_wf]
    by (cases "list_all (segment_ok g bytes (load_offset g e)) (program_headers e)")
      (auto simp: load_elf_def image_byte_def Let_def split: option.split)
qed

lemma load_elf_image_ok:
  assumes "length bytes \<le> 2 ^ 31" "load_elf g bytes = Ok l"
  shows "bus_wf (loaded_bus l) \<and> ram_base (loaded_bus l) = RAM_BASE \<and> length (ram (loaded_bus l)) = RAM_SIZE"
proof -
  obtain e where e: "elf_parse g bytes = Some e" "is_64 e"
    using assms(2) by (auto simp: load_elf_def split: option.splits if_splits)
  show ?thesis
    using load_elf_ok [OF e assms(1)] assms(2) same_but_ram_wf [OF _ Bus_new_wf, of "loaded_bus l"]
    by (auto simp: Bus_new_def split: if_splits)
qed

text \<open>
  C26. Loading an ELF file of up to 2 GiB never panics.  It fails exactly when the parser does, when
  the file is not 64-bit, or when a loadable segment leaves the file or RAM; otherwise RAM, of 256 MiB
  at \<open>0x80000000\<close>, holds at every byte what the last loadable segment covering it has there in the file,
  or zero, position-independent files shifted to the start of RAM, and the rest of the machine is as
  it was built.
\<close>

theorem load_elf_image:
  assumes "length bytes \<le> 2 ^ 31"
  shows "case elf_parse g bytes of
     None \<Rightarrow> load_elf g bytes = Err ElfParseFailed
   | Some e \<Rightarrow>
       if \<not> is_64 e then load_elf g bytes = Err NotElf64
       else if list_all (segment_ok g bytes (load_offset g e)) (program_headers e)
       then \<exists>l. load_elf g bytes = Ok l \<and> entry l = elf_entry e + load_offset g e \<and>
         same_but_ram (Bus_new RAM_SIZE RAM_BASE) (loaded_bus l) \<and> bus_wf (loaded_bus l) \<and>
         (\<forall>i < RAM_SIZE. ram (loaded_bus l) ! i = image_byte g bytes (load_offset g e) (program_headers e) i)
       else \<exists>err. load_elf g bytes = Err err \<and> err \<notin> {ElfParseFailed, NotElf64}"
  using load_elf_ok [OF _ _ assms, of g]
  by (cases "elf_parse g bytes") (auto simp: load_elf_def split: if_splits)

text \<open>A position-independent file of eight bytes, with a segment of its last four.\<close>

theorem load_elf_image_witness:
  "\<exists>g l. load_elf g [1, 2, 3, 4, 5, 6, 7, 8] = Ok l \<and> entry l = 0x80000010 \<and>
    ram (loaded_bus l) ! 17 = 6 \<and> ram (loaded_bus l) ! 20 = 0"
proof -
  define ph where "ph = \<lparr>p_type = 1, p_offset = 4, p_filesz = 4, p_paddr = 16\<rparr>"
  define e where "e = \<lparr>is_64 = True, e_type = 3, elf_entry = 16, program_headers = [ph], syms = [], strtab = (\<lambda>_. None)\<rparr>"
  define g where "g = \<lparr>elf_parse = (\<lambda>_. Some e), ET_DYN = 3, PT_LOAD = 1\<rparr>"
  let ?bytes = "[1, 2, 3, 4, 5, 6, 7, 8] :: u8 list"
  have o: "load_offset g e = RAM_BASE" "seg_off RAM_BASE ph = 16"
    by (simp_all add: load_offset_def g_def e_def seg_off_def ph_def)
  have k: "list_all (segment_ok g ?bytes (load_offset g e)) (program_headers e)"
    unfolding o by (simp add: e_def segment_ok_def o ph_def g_def RAM_BASE_def RAM_SIZE_def seg_off_def)
  have i: "image_byte g ?bytes RAM_BASE [ph] 17 = 6" "image_byte g ?bytes RAM_BASE [ph] 20 = 0"
    by (simp_all add: image_byte_def covers_def o seg_byte_def) (simp_all add: ph_def g_def)
  have p: "elf_parse g ?bytes = Some e" "is_64 e" "program_headers e = [ph]" "elf_entry e = 16"
    by (simp_all add: g_def e_def)
  have n: "17 < RAM_SIZE" "20 < RAM_SIZE" by (simp_all add: RAM_SIZE_def)
  obtain l where "load_elf g ?bytes = Ok l" "entry l = 16 + RAM_BASE"
    "\<And>i. i < RAM_SIZE \<Longrightarrow> ram (loaded_bus l) ! i = image_byte g ?bytes RAM_BASE [ph] i"
    using load_elf_image [of ?bytes g] k p o(1) by auto
  then show ?thesis using i n by (intro exI [of _ g] exI [of _ l]) (simp add: RAM_BASE_def)
qed

end
