(* ===== verification/Dtb.thy ===== *)
theory Dtb
  imports Loader
begin

text \<open>
  The device tree the emulator hands to the guest: \<open>src/dtb.rs\<close>.  The blob is written by the vm-fdt
  crate's \<open>FdtWriter\<close>; the model has the calls \<open>build_dtb\<close> makes on it, in their order, and the writer
  as a parameter that turns the calls into a blob or fails.
\<close>

datatype fdt_call =
    Begin_node string
  | End_node string
  | Property_u32 string u32
  | Property_u64 string u64
  | Property_string string string
  | Property_null string
  | Property_phandle u32
  | Property_array_u32 string "u32 list"

type_synonym fdt_writer = "fdt_call list \<Rightarrow> u8 list option"

definition INITRD_BASE :: u64 where
  "INITRD_BASE = 0x86000000"

definition dtb_chosen :: "u64 \<Rightarrow> bool \<Rightarrow> fdt_call list" where
  "dtb_chosen initrd_size has_disk =
    [Begin_node ''chosen'',
     Property_string ''stdout-path'' ''/soc/serial@10000000''] @
    (if has_disk then
       [Property_string ''bootargs'' ''console=ttyS0 earlycon=uart8250,mmio,0x10000000 TERM=dumb root=/dev/vda rw rootwait rootflags=noatime,data=writeback ima=off nokaslr lsm=lockdown,capability,landlock,yama,apparmor,tomoyo,ipe,ima,evm'']
     else
       [Property_string ''bootargs'' ''console=ttyS0 earlycon=uart8250,mmio,0x10000000 TERM=dumb rdinit=/init ima=off nokaslr'']) @
    (if initrd_size > 0 then
       [Property_u64 ''linux,initrd-start'' INITRD_BASE,
        Property_u64 ''linux,initrd-end'' (INITRD_BASE + initrd_size)]
     else []) @
    [End_node ''chosen'']"

definition dtb_cpus :: "fdt_call list" where
  "dtb_cpus =
    [Begin_node ''cpus'',
     Property_u32 ''#address-cells'' 1,
     Property_u32 ''#size-cells'' 0,
     Property_u32 ''timebase-frequency'' 10000000,
     Begin_node ''cpu@0'',
     Property_string ''device_type'' ''cpu'',
     Property_u32 ''reg'' 0,
     Property_string ''status'' ''okay'',
     Property_string ''compatible'' ''riscv'',
     Property_string ''riscv,isa'' ''rv64imafdcsu'',
     Property_string ''mmu-type'' ''riscv,sv39'',
     Begin_node ''interrupt-controller'',
     Property_phandle 1,
     Property_u32 ''#interrupt-cells'' 1,
     Property_string ''compatible'' ''riscv,cpu-intc'',
     Property_null ''interrupt-controller'',
     End_node ''interrupt-controller'',
     End_node ''cpu@0'',
     End_node ''cpus'']"

definition dtb_memory :: "fdt_call list" where
  "dtb_memory =
    [Begin_node ''memory@80000000'',
     Property_string ''device_type'' ''memory'',
     Property_array_u32 ''reg'' [0x00000000, 0x80000000, 0x00000000, 0x10000000],
     End_node ''memory@80000000'']"

definition dtb_clint :: "fdt_call list" where
  "dtb_clint =
    [Begin_node ''clint@2000000'',
     Property_string ''compatible'' ''riscv,clint0'',
     Property_array_u32 ''interrupts-extended'' [1, 3, 1, 7],
     Property_array_u32 ''reg'' [0x00000000, 0x02000000, 0x00000000, 0x00010000],
     End_node ''clint@2000000'']"

definition dtb_plic :: "fdt_call list" where
  "dtb_plic =
    [Begin_node ''plic@c000000'',
     Property_string ''compatible'' ''sifive,plic-1.0.0'',
     Property_phandle 2,
     Property_u32 ''#interrupt-cells'' 1,
     Property_null ''interrupt-controller'',
     Property_array_u32 ''interrupts-extended'' [1, 11, 1, 9],
     Property_array_u32 ''reg'' [0x00000000, 0x0C000000, 0x00000000, 0x04000000],
     Property_u32 ''riscv,ndev'' 31,
     End_node ''plic@c000000'']"

definition dtb_virtio :: "fdt_call list" where
  "dtb_virtio =
    [Begin_node ''virtio_mmio@10001000'',
     Property_string ''compatible'' ''virtio,mmio'',
     Property_array_u32 ''reg'' [0x00000000, 0x10001000, 0x00000000, 0x00001000],
     Property_u32 ''interrupts'' 1,
     Property_u32 ''interrupt-parent'' 2,
     End_node ''virtio_mmio@10001000'']"

definition dtb_serial :: "fdt_call list" where
  "dtb_serial =
    [Begin_node ''serial@10000000'',
     Property_string ''compatible'' ''ns16550a'',
     Property_array_u32 ''reg'' [0x00000000, 0x10000000, 0x00000000, 0x00000100],
     Property_u32 ''clock-frequency'' 3686400,
     Property_u32 ''interrupts'' 10,
     Property_u32 ''interrupt-parent'' 2,
     End_node ''serial@10000000'']"

definition dtb_soc :: "bool \<Rightarrow> fdt_call list" where
  "dtb_soc has_disk =
    [Begin_node ''soc'',
     Property_u32 ''#address-cells'' 2,
     Property_u32 ''#size-cells'' 2,
     Property_string ''compatible'' ''simple-bus'',
     Property_null ''ranges''] @
    dtb_clint @ dtb_plic @ (if has_disk then dtb_virtio else []) @ dtb_serial @
    [End_node ''soc'']"

definition dtb_calls :: "u64 \<Rightarrow> bool \<Rightarrow> fdt_call list" where
  "dtb_calls initrd_size has_disk =
    [Begin_node '''',
     Property_u32 ''#address-cells'' 2,
     Property_u32 ''#size-cells'' 2,
     Property_string ''compatible'' ''riscv-virtio'',
     Property_string ''model'' ''riscv-virtio,qemu''] @
    dtb_chosen initrd_size has_disk @ dtb_cpus @ dtb_memory @ dtb_soc has_disk @
    [End_node '''']"

definition build_dtb :: "fdt_writer \<Rightarrow> u64 \<Rightarrow> bool \<Rightarrow> u8 list option" where
  "build_dtb writer initrd_size has_disk = writer (dtb_calls initrd_size has_disk)"

section \<open>The tree the calls describe\<close>

text \<open>The nodes open after the calls, innermost first; nothing when a node is closed out of turn.\<close>

fun open_nodes :: "string list \<Rightarrow> fdt_call list \<Rightarrow> string list option" where
  "open_nodes st [] = Some st"
| "open_nodes st (Begin_node n # cs) = open_nodes (n # st) cs"
| "open_nodes st (End_node n # cs) = (case st of m # st' \<Rightarrow> if m = n then open_nodes st' cs else None | [] \<Rightarrow> None)"
| "open_nodes st (_ # cs) = open_nodes st cs"

text \<open>The calls from the opening of node \<open>n\<close> on, and the first value of one of its properties.\<close>

fun node :: "string \<Rightarrow> fdt_call list \<Rightarrow> fdt_call list option" where
  "node n [] = None"
| "node n (Begin_node m # cs) = (if m = n then Some cs else node n cs)"
| "node n (_ # cs) = node n cs"

fun cells :: "string \<Rightarrow> fdt_call list \<Rightarrow> u32 list option" where
  "cells p (Property_u32 q v # cs) = (if q = p then Some [v] else cells p cs)"
| "cells p (Property_array_u32 q vs # cs) = (if q = p then Some vs else cells p cs)"
| "cells p (Property_u64 q v # cs) = cells p cs"
| "cells p (Property_string q v # cs) = cells p cs"
| "cells p (Property_null q # cs) = cells p cs"
| "cells p (Property_phandle v # cs) = cells p cs"
| "cells p _ = None"

text \<open>A \<open>reg\<close> of four cells: a 64-bit base and a 64-bit size.\<close>

definition region :: "string \<Rightarrow> fdt_call list \<Rightarrow> (u64 \<times> u64) option" where
  "region n cs = do {
     body \<leftarrow> node n cs;
     vs \<leftarrow> cells ''reg'' body;
     case vs of
       [hi, lo, shi, slo] \<Rightarrow> Some (shl (ucast hi) 32 OR ucast lo, shl (ucast shi) 32 OR ucast slo)
     | _ \<Rightarrow> None
   }"

definition in_region :: "u64 \<Rightarrow> (u64 \<times> u64) option \<Rightarrow> bool" where
  "in_region a r \<longleftrightarrow> (case r of None \<Rightarrow> False | Some (base, sz) \<Rightarrow> base \<le> a \<and> a - base < sz)"

lemmas dtb_defs = dtb_calls_def dtb_chosen_def dtb_cpus_def dtb_memory_def dtb_clint_def dtb_plic_def
  dtb_virtio_def dtb_serial_def dtb_soc_def

lemma dtb_regions:
  "region ''memory@80000000'' (dtb_calls i d) = Some (0x80000000, 0x10000000)"
  "region ''clint@2000000'' (dtb_calls i d) = Some (0x02000000, 0x10000)"
  "region ''plic@c000000'' (dtb_calls i d) = Some (0x0C000000, 0x04000000)"
  "region ''serial@10000000'' (dtb_calls i d) = Some (0x10000000, 0x100)"
  "region ''virtio_mmio@10001000'' (dtb_calls i d) = (if d then Some (0x10001000, 0x1000) else None)"
  by (simp_all add: dtb_defs region_def)

lemma in_region_iff: "in_region a (Some (base, n)) \<longleftrightarrow> base \<le> a \<and> unat a < unat base + unat n"
  by (auto simp: in_region_def word_less_nat_alt word_le_nat_alt unat_sub)

lemma in_region_None [simp]: "\<not> in_region a None"
  by (simp add: in_region_def)



end
