(* ===== verification/Emulator.thy ===== *)
theory Emulator
  imports JitSafe Dtb
begin

text \<open>
  The program: \<open>src/main.rs\<close>.  Setting the machine up from the files on the command line, and the main
  loop, which steps the hart or calls a compiled block, flushes the block cache and, every 1024 ticks,
  polls the devices.  The contents of the files, the clock and the bytes arriving on standard input are
  inputs; of the periodic diagnostics the bus accesses are modelled and the text is left out.
\<close>

section \<open>Setting up\<close>

definition DTB_BASE :: u64 where
  "DTB_BASE = 0x82200000"

definition KERNEL_BASE :: u64 where
  "KERNEL_BASE = 0x80200000"

record args =
  binary :: "u8 list"
  use_dtb :: bool
  use_jit :: bool
  kernel :: "u8 list option"
  initrd :: "u8 list option"
  disk_image :: "disk_file option"
  stdin_terminal :: bool

datatype main_error =
    ElfError load_error
  | KernelNeedsDtb
  | DiskNeedsDtb
  | RawError raw_error
  | DtbError

text \<open>\<open>load_raw\<close> of an optional file; the size of what was loaded.\<close>

definition load_optional :: "cpu \<Rightarrow> u8 list option \<Rightarrow> u64 \<Rightarrow> (main_error + cpu \<times> nat) option" where
  "load_optional c file addr =
    (case file of
       None \<Rightarrow> Ok (c, 0)
     | Some bytes \<Rightarrow> do {
         r \<leftarrow> load_raw (bus c) bytes addr;
         case r of
           Inl e \<Rightarrow> Err (RawError e)
         | Inr (b, n) \<Rightarrow> Ok (c\<lparr>bus := b\<rparr>, n)
       })"

text \<open>\<open>--dtb\<close>: the blob goes to its place in RAM and the two arguments of the guest's entry are set.\<close>

definition install_dtb :: "fdt_writer \<Rightarrow> cpu \<Rightarrow> u64 \<Rightarrow> bool \<Rightarrow> (main_error + cpu) option" where
  "install_dtb writer c initrd_size has_disk =
    (case build_dtb writer initrd_size has_disk of
       None \<Rightarrow> Err DtbError
     | Some dtb \<Rightarrow> do {
         let dtb_off = DTB_BASE - RAM_BASE;
         b \<leftarrow> ram_copy (bus c) dtb_off (dtb_off + of_nat (length dtb)) dtb;
         c \<leftarrow> set_reg (c\<lparr>bus := b\<rparr>) 10 0;
         c \<leftarrow> set_reg c 11 DTB_BASE;
         Ok c
       })"

definition boot :: "goblin \<Rightarrow> fdt_writer \<Rightarrow> args \<Rightarrow> (main_error + cpu) option" where
  "boot g writer a = do {
     r \<leftarrow> load_elf g (binary a);
     case r of
       Inl e \<Rightarrow> Err (ElfError e)
     | Inr loaded \<Rightarrow>
         let c = Cpu_new (loaded_bus loaded) (entry loaded) in
         if kernel a \<noteq> None \<and> \<not> use_dtb a then Err KernelNeedsDtb
         else if disk_image a \<noteq> None \<and> \<not> use_dtb a then Err DiskNeedsDtb
         else do {
           r \<leftarrow> load_optional c (kernel a) KERNEL_BASE;
           case r of
             Inl e \<Rightarrow> Err e
           | Inr (c, _) \<Rightarrow> do {
               r \<leftarrow> load_optional c (initrd a) INITRD_BASE;
               case r of
                 Inl e \<Rightarrow> Err e
               | Inr (c, initrd_size) \<Rightarrow> do {
                   let c = (case disk_image a of
                       None \<Rightarrow> c
                     | Some d \<Rightarrow> c\<lparr>bus := (bus c)\<lparr>virtio_blk := VirtioBlk_new (Some d)\<rparr>\<rparr>);
                   r \<leftarrow> (if use_dtb a then install_dtb writer c (of_nat initrd_size) (disk_image a \<noteq> None)
                         else Ok c);
                   case r of
                     Inl e \<Rightarrow> Err e
                   | Inr c \<Rightarrow>
                       Ok (if stdin_terminal a then c
                           else c\<lparr>bus := (bus c)\<lparr>uart := (uart (bus c))\<lparr>stdin_ready := True\<rparr>\<rparr>\<rparr>)
                 }
             }
         }
   }"

section \<open>The main loop\<close>

text \<open>
  The variables of the loop: the hart, the block cache, the tick counters, the times of the last CLINT
  update and of the last diagnostics in nanoseconds, the \<open>pc\<close> these showed, the bytes the reader thread
  has sent and nobody has received, and the \<open>--debug\<close> flag.
\<close>

record emu =
  hart :: cpu
  jit :: jit_cache
  tick :: u64
  last_fence_i_flush :: u64
  last_clint_tick :: nat
  stdin_rx :: "u8 list"
  debug :: bool
  last_diag :: nat
  last_pc :: u64

definition emu_start :: "cpu \<Rightarrow> bool \<Rightarrow> nat \<Rightarrow> nat \<Rightarrow> emu" where
  "emu_start c dbg t0 t = \<lparr>hart = c, jit = JitCache_new, tick = 0, last_fence_i_flush = 0, last_clint_tick = t,
    stdin_rx = [], debug = dbg, last_diag = t0, last_pc = 0\<rparr>"

text \<open>
  What an iteration executes: with \<open>--jit\<close> the compiled block at \<open>pc\<close> when there is one, else one
  instruction, whose block is then compiled.  The result is the hart, the cache and the increment of
  the tick; \<open>Inl ()\<close> stands for machine code that runs into an undefined instruction.
\<close>

definition run_jit :: "host \<Rightarrow> cpu \<Rightarrow> jit_cache \<Rightarrow> (unit + cpu \<times> jit_cache \<times> u64) option" where
  "run_jit h c j =
    (case JitCache_get j (pc c) of
       Some f \<Rightarrow>
         let md = mode c in
         (case call_block f c of
            NoReturn \<Rightarrow> None
          | Stuck \<Rightarrow> Err ()
          | Returned v s \<Rightarrow>
              let c = guest s in
              (case v of
                 Vint next \<Rightarrow>
                   if next = u64_MAX then do { c \<leftarrow> step h c; Ok (c, j, 1) }
                   else Ok (c\<lparr>pc := next\<rparr>, j, if md = PrivMode_M then 64 else 8)
               | _ \<Rightarrow> Err ()))
     | None \<Rightarrow> do {
         let p = pc c;
         c \<leftarrow> step h c;
         (j, c) \<leftarrow> (if \<not> jit_invalidate c \<and> \<not> fence_i_pending c then JitCache_compile j c p else Some (j, c));
         Ok (c, j, 1)
       })"

definition flush_jit :: "emu \<Rightarrow> emu" where
  "flush_jit e =
    (let e = (if jit_invalidate (hart e)
              then e\<lparr>hart := (hart e)\<lparr>jit_invalidate := False\<rparr>, jit := JitCache_invalidate (jit e)\<rparr>
              else e)
     in if fence_i_pending (hart e) then
          let e = e\<lparr>hart := (hart e)\<lparr>fence_i_pending := False\<rparr>\<rparr>
          in if tick e - last_fence_i_flush e \<ge> 65536
             then e\<lparr>jit := JitCache_invalidate (jit e), last_fence_i_flush := tick e\<rparr>
             else e
        else e)"

text \<open>
  The poll's inputs: the clock, what has arrived on standard input since the last one, and the clock
  again when it comes to the diagnostics.
\<close>

record input =
  now :: nat
  arrived :: "u8 list"
  diag_now :: nat

definition set_mip :: "nat \<Rightarrow> bool \<Rightarrow> csr \<Rightarrow> csr" where
  "set_mip n p s = s\<lparr>mip := (if p then mip s OR shl 1 n else mip s AND NOT (shl 1 n))\<rparr>"

definition drain_stdin :: "emu \<Rightarrow> emu" where
  "drain_stdin e =
    (let b = bus (hart e) in
     if stdin_ready (uart b)
     then e\<lparr>hart := (hart e)\<lparr>bus := b\<lparr>uart := foldl Uart_push_rx (uart b) (stdin_rx e)\<rparr>\<rparr>, stdin_rx := []\<rparr>
     else e)"

definition advance_clock :: "nat \<Rightarrow> emu \<Rightarrow> emu" where
  "advance_clock t e =
    (let b = bus (hart e); advance = of_nat (t - last_clint_tick e) div 100 :: u64 in
     if advance > 0
     then e\<lparr>hart := (hart e)\<lparr>bus := b\<lparr>clint := (clint b)\<lparr>mtime := mtime (clint b) + advance\<rparr>\<rparr>\<rparr>, last_clint_tick := t\<rparr>
     else e)"

definition update_mip :: "cpu \<Rightarrow> cpu" where
  "update_mip c =
    (let s = csr c; b = bus c; t = mtime (clint b);
         s = set_mip 7 (t \<ge> mtimecmp (clint b)) s;
         s = (if stimecmp s \<noteq> u64_MAX then set_mip 5 (t \<ge> stimecmp s) s else s);
         p = Plic_set_pending (plic b) 10 (Uart_irq_pending (uart b));
         p = Plic_set_pending p 1 (irq_status (virtio_blk b) \<noteq> 0);
         s = set_mip 9 (Plic_has_interrupt p) s
     in c\<lparr>bus := b\<lparr>plic := p\<rparr>, csr := s\<rparr>)"

definition poll :: "input \<Rightarrow> emu \<Rightarrow> emu" where
  "poll i e =
    (let e = e\<lparr>stdin_rx := stdin_rx e @ arrived i\<rparr>;
         e = advance_clock (now i) (drain_stdin e)
     in e\<lparr>hart := fst (check_interrupts (update_mip (hart e)))\<rparr>)"

text \<open>
  The diagnostics of \<open>--debug\<close>, every two seconds.  They read the indices of the disk's rings through the
  bus, wherever the guest has put the rings; a fault counts as 0.
\<close>

definition diag_load :: "u32 \<Rightarrow> u64 \<Rightarrow> cpu \<Rightarrow> cpu option" where
  "diag_load q_ready ring c =
    (if q_ready \<noteq> 0 \<and> ring \<noteq> 0
     then do { (b, _) \<leftarrow> Bus_load (bus c) (ring + 2) 2; Some (c\<lparr>bus := b\<rparr>) }
     else Some c)"

definition diag :: "input \<Rightarrow> emu \<Rightarrow> emu option" where
  "diag i e =
    (if debug e \<and> (diag_now i - last_diag e) div 1000000 \<ge> 2000 then do {
       let v = virtio_blk (bus (hart e));
       c \<leftarrow> diag_load (queue_ready v) (avail_addr v) (hart e);
       c \<leftarrow> diag_load (queue_ready v) (used_addr v) c;
       Some (e\<lparr>hart := c, last_diag := diag_now i, last_pc := pc c\<rparr>)
     } else Some e)"

text \<open>One iteration.\<close>

definition turn :: "host \<Rightarrow> bool \<Rightarrow> input \<Rightarrow> emu \<Rightarrow> (unit + emu) option" where
  "turn h with_jit i e = do {
     r \<leftarrow> (if \<not> with_jit then do { c \<leftarrow> step h (hart e); Ok (c, jit e, 1) } else run_jit h (hart e) (jit e));
     case r of
       Inl u \<Rightarrow> Err u
     | Inr (c, j, tick_inc) \<Rightarrow>
         let e = flush_jit (e\<lparr>hart := c, jit := j\<rparr>);
             e = e\<lparr>tick := tick e + tick_inc\<rparr>
         in if tick e AND 1023 = 0 then do { e \<leftarrow> diag i (poll i e); Ok e } else Ok e
   }"

section \<open>The machine stays well-formed\<close>

definition emu_ok :: "emu \<Rightarrow> bool" where
  "emu_ok e \<longleftrightarrow> cpu_wf (hart e) \<and> cache_wf (jit e) \<and> ram_base (bus (hart e)) = RAM_BASE \<and>
     length (ram (bus (hart e))) = RAM_SIZE"

text \<open>How an operation of the machine can end: it does not return because the block device's queue does
  not drain, or it leaves a well-formed hart on a bus its accesses led to.\<close>

definition hart_ok :: "bus \<Rightarrow> cpu \<Rightarrow> bool" where
  "hart_ok b c \<longleftrightarrow> cpu_wf c \<and> bus_reaches b (bus c)"

lemma hart_ok_trans: "bus_reaches b b' \<Longrightarrow> hart_ok b' c \<Longrightarrow> hart_ok b c"
  unfolding hart_ok_def using bus_reaches_trans by blast

lemma step_hart_ok: "cpu_wf c \<Longrightarrow> (case step h c of None \<Rightarrow> draining (bus c) | Some d \<Rightarrow> hart_ok (bus c) d)"
  using step_ok [of c h] by (auto simp: steps_ok_def runs_iff hart_ok_def split: option.splits)

lemma run_jit_ok:
  assumes "cpu_wf c" "cache_wf j"
  shows "case run_jit h c j of
     None \<Rightarrow> draining (bus c) | Some (Inl _) \<Rightarrow> False
   | Some (Inr (d, j', n)) \<Rightarrow> hart_ok (bus c) d \<and> cache_wf j'"
proof (cases "j (pc c)")
  case None
  show ?thesis
  proof (cases "step h c")
    case None
    then show ?thesis using step_hart_ok [OF assms(1), of h] \<open>j (pc c) = None\<close> by (simp add: run_jit_def JitCache_get_def)
  next
    case (Some d)
    have d: "hart_ok (bus c) d" using step_hart_ok [OF assms(1), of h] Some by simp
    have "\<not> bit (pc c) 0" using assms(1) by (simp add: cpu_wf_def)
    then have "case JitCache_compile j d (pc c) of
        None \<Rightarrow> draining (bus d) | Some (j', d') \<Rightarrow> cache_wf j' \<and> cpu_wf d' \<and> bus_reaches (bus d) (bus d')"
      using cache_wf_compile [OF assms(2)] d by (simp add: hart_ok_def)
    then show ?thesis
      using None Some d assms(2) hart_ok_trans draining_reaches
      by (auto simp: run_jit_def JitCache_get_def hart_ok_def Let_def split: option.splits)
  qed
next
  case (Some f)
  obtain body where f: "f = emit_prologue @ body" "code_safe body"
    using assms(2) Some by (auto simp: cache_wf_def)
  note safe = call_block_safe [OF f(2) assms(1), folded f(1)]
  show ?thesis
  proof (cases "call_block f c")
    case (Returned v s)
    obtain w where s: "cpu_wf (guest s)" "bus_reaches (bus c) (bus (guest s))" "v = Vint w" "w = u64_MAX \<or> \<not> bit w 0"
      using safe Returned by auto
    show ?thesis
    proof (cases "w = u64_MAX")
      case True
      then show ?thesis
        using Some Returned s(3) assms(2) step_hart_ok [OF s(1), of h] hart_ok_trans [OF s(2)] draining_reaches [OF s(2)]
        by (auto simp: run_jit_def JitCache_get_def Let_def split: option.splits)
    next
      case False
      then have "hart_ok (bus c) ((guest s)\<lparr>pc := w\<rparr>)"
        using s cpu_wf_pc [OF s(1), of w] by (auto simp: hart_ok_def even_pc_def)
      then show ?thesis
        using Some Returned s(3) assms(2) False by (simp add: run_jit_def JitCache_get_def Let_def)
    qed
  next
    case Stuck
    then show ?thesis using safe by simp
  next
    case NoReturn
    then show ?thesis using safe Some by (simp add: run_jit_def JitCache_get_def)
  qed
qed

lemma cpu_wf_flags: "cpu_wf (c\<lparr>jit_invalidate := p\<rparr>) = cpu_wf c" "cpu_wf (c\<lparr>fence_i_pending := p\<rparr>) = cpu_wf c"
  by (simp_all add: cpu_wf_def)

lemma emu_ok_flush: "emu_ok e \<Longrightarrow> emu_ok (flush_jit e)"
  by (auto simp: emu_ok_def flush_jit_def Let_def cpu_wf_flags)

lemma push_rx_fields: "foldl Uart_push_rx u bs = u\<lparr>rx_buf := rx_buf u @ bs, rx_bytes := rx_bytes u + of_nat (length bs)\<rparr>"
  by (induction bs arbitrary: u) (simp_all add: Uart_push_rx_def)

lemma emu_ok_drain: "emu_ok e \<Longrightarrow> emu_ok (drain_stdin e)"
  by (auto simp: emu_ok_def drain_stdin_def Let_def cpu_wf_def bus_wf_def)

lemma emu_ok_clock: "emu_ok e \<Longrightarrow> emu_ok (advance_clock t e)"
  by (auto simp: emu_ok_def advance_clock_def Let_def cpu_wf_def bus_wf_def)

lemma csr_wf_set_mip: "csr_wf (set_mip n p s) = csr_wf s"
  by (simp add: csr_wf_def set_mip_def)

lemma cpu_wf_update_mip: "cpu_wf c \<Longrightarrow> cpu_wf (update_mip c)"
  by (auto simp: cpu_wf_def update_mip_def Let_def csr_wf_set_mip bus_wf_def intro!: plic_wf_set_pending)

lemma update_mip_ram: "ram (bus (update_mip c)) = ram (bus c)" "ram_base (bus (update_mip c)) = ram_base (bus c)"
  by (simp_all add: update_mip_def Let_def)

lemma emu_ok_poll: "emu_ok e \<Longrightarrow> emu_ok (poll i e)"
proof -
  assume "emu_ok e"
  then have "emu_ok (e\<lparr>stdin_rx := stdin_rx e @ arrived i\<rparr>)" by (simp add: emu_ok_def)
  then have "emu_ok (advance_clock (now i) (drain_stdin (e\<lparr>stdin_rx := stdin_rx e @ arrived i\<rparr>)))"
    by (intro emu_ok_clock emu_ok_drain)
  then show ?thesis
    by (simp add: poll_def Let_def emu_ok_def update_mip_ram check_interrupts_frame cpu_wf_check_interrupts cpu_wf_update_mip)
qed

lemma diag_load_ok:
  assumes "emu_ok e"
  shows "\<exists>c. diag_load q ring (hart e) = Some c \<and> emu_ok (e\<lparr>hart := c\<rparr>)"
proof -
  have w: "bus_wf (bus (hart e))" using assms by (simp add: emu_ok_def cpu_wf_def)
  obtain b r where "Bus_load (bus (hart e)) (ring + 2) 2 = Some (b, r)" "bus_wf b"
      "ram b = ram (bus (hart e))" "ram_base b = ram_base (bus (hart e))"
    using Bus_load_total [OF w, of 2 "ring + 2"] by auto
  then show ?thesis
    using assms by (auto simp: diag_load_def emu_ok_def cpu_wf_def)
qed

lemma diag_ok:
  assumes "emu_ok e"
  shows "\<exists>e'. diag i e = Some e' \<and> emu_ok e' \<and> tick e' = tick e"
proof -
  let ?v = "virtio_blk (bus (hart e))"
  obtain c where c: "diag_load (queue_ready ?v) (avail_addr ?v) (hart e) = Some c" "emu_ok (e\<lparr>hart := c\<rparr>)"
    using diag_load_ok [OF assms] by blast
  obtain d where d: "diag_load (queue_ready ?v) (used_addr ?v) c = Some d" "emu_ok (e\<lparr>hart := d\<rparr>)"
    using diag_load_ok [OF c(2), of "queue_ready ?v" "used_addr ?v"] by auto
  have "emu_ok (e\<lparr>hart := d, last_diag := n, last_pc := p\<rparr>)" for n p
    using d(2) by (simp add: emu_ok_def)
  then show ?thesis
    using assms c(1) d(1) by (auto simp: diag_def Let_def)
qed

lemma turn_ok:
  assumes "emu_ok e"
  shows "case turn h with_jit i e of
     None \<Rightarrow> draining (bus (hart e)) | Some (Inl _) \<Rightarrow> False | Some (Inr e') \<Rightarrow> emu_ok e'"
proof -
  have w: "cpu_wf (hart e)" "cache_wf (jit e)" "bus_wf (bus (hart e))"
    using assms by (simp_all add: emu_ok_def cpu_wf_def)
  define r where "r = (if \<not> with_jit then do { c \<leftarrow> step h (hart e); Ok (c, jit e, 1) } else run_jit h (hart e) (jit e))"
  have r: "case r of None \<Rightarrow> draining (bus (hart e)) | Some (Inl _) \<Rightarrow> False
      | Some (Inr (d, j', n)) \<Rightarrow> hart_ok (bus (hart e)) d \<and> cache_wf j'"
    using run_jit_ok [OF w(1,2), of h] step_hart_ok [OF w(1), of h] w(2)
    by (auto simp: r_def split: option.splits)
  have next_ok: "emu_ok (e\<lparr>hart := d, jit := j\<rparr>)" if "hart_ok (bus (hart e)) d" "cache_wf j" for d j
    using that assms bus_reaches_same [OF _ w(3), of "bus d"] by (auto simp: emu_ok_def hart_ok_def)
  have tick: "emu_ok (e'\<lparr>tick := t\<rparr>) = emu_ok e'" for e' t by (simp add: emu_ok_def)
  have poll: "\<exists>e''. diag i (poll i e') = Some e'' \<and> emu_ok e''" if "emu_ok e'" for e'
    using diag_ok [OF emu_ok_poll [OF that]] by blast
  show ?thesis
  proof (cases r)
    case None
    then show ?thesis using r by (simp add: turn_def r_def [symmetric])
  next
    case (Some x)
    then obtain d j n where x: "r = Ok (d, j, n)" "hart_ok (bus (hart e)) d" "cache_wf j"
      using r by (cases x) auto
    define e1 where "e1 = (flush_jit (e\<lparr>hart := d, jit := j\<rparr>))\<lparr>tick := tick (flush_jit (e\<lparr>hart := d, jit := j\<rparr>)) + n\<rparr>"
    have "emu_ok e1" using emu_ok_flush [OF next_ok [OF x(2,3)]] tick by (simp add: e1_def)
    moreover have "turn h with_jit i e =
        (if tick e1 AND 1023 = 0 then do { e \<leftarrow> diag i (poll i e1); Ok e } else Ok e1)"
      by (simp add: turn_def r_def [symmetric] x(1) e1_def Let_def)
    ultimately show ?thesis using poll [of e1] by auto
  qed
qed

section \<open>From the command line on\<close>

lemma ram_copy_wf: "ram_copy b from to xs = Some b' \<Longrightarrow> same_but_ram b b'"
  by (auto simp: ram_copy_def same_but_ram_def copy_into_length split: if_splits bind_splits)

definition machine_ok :: "cpu \<Rightarrow> bool" where
  "machine_ok c \<longleftrightarrow> cpu_wf c \<and> ram_base (bus c) = RAM_BASE \<and> length (ram (bus c)) = RAM_SIZE"

lemma machine_ok_ram: "machine_ok c \<Longrightarrow> same_but_ram (bus c) b \<Longrightarrow> machine_ok (c\<lparr>bus := b\<rparr>)"
  using same_but_ram_wf [of "bus c" b] by (auto simp: machine_ok_def cpu_wf_def)

lemma machine_ok_optional: "load_optional c file a = Ok (d, n) \<Longrightarrow> pc d = pc c \<and> (machine_ok c \<longrightarrow> machine_ok d)"
  by (auto simp: load_optional_def load_raw_def Let_def split: option.splits bind_splits sum.splits if_splits
      dest!: ram_copy_wf intro: machine_ok_ram)

lemma machine_ok_set_reg: "set_reg c n v = Some d \<Longrightarrow> pc d = pc c \<and> (machine_ok c \<longrightarrow> machine_ok d)"
  by (auto simp: set_reg_def machine_ok_def cpu_wf_def nth_list_update split: if_splits)

lemma machine_ok_dtb: "install_dtb w c n d = Ok c' \<Longrightarrow> pc c' = pc c \<and> (machine_ok c \<longrightarrow> machine_ok c')"
  by (auto simp: install_dtb_def Let_def split: option.splits bind_splits
      dest!: ram_copy_wf machine_ok_set_reg intro: machine_ok_ram)

lemma machine_ok_devices:
  "machine_ok (c\<lparr>bus := (bus c)\<lparr>virtio_blk := v\<rparr>\<rparr>) = machine_ok c"
  "machine_ok (c\<lparr>bus := (bus c)\<lparr>uart := u\<rparr>\<rparr>) = machine_ok c"
  by (simp_all add: machine_ok_def cpu_wf_def bus_wf_def)

lemma boot_ok:
  assumes "boot g w a = Ok c" "length (binary a) \<le> 2 ^ 31" "\<not> bit (pc c) 0"
  shows "machine_ok c"
proof -
  obtain l where l: "load_elf g (binary a) = Ok l"
    using assms(1) by (auto simp: boot_def split: bind_splits sum.splits)
  have wf: "bus_wf (loaded_bus l)" "ram_base (loaded_bus l) = RAM_BASE" "length (ram (loaded_bus l)) = RAM_SIZE"
    using load_elf_image_ok [OF assms(2) l] by simp_all
  let ?c0 = "Cpu_new (loaded_bus l) (entry l)"
  obtain c1 n1 where c1: "load_optional ?c0 (kernel a) KERNEL_BASE = Ok (c1, n1)"
    using assms(1) l by (auto simp: boot_def Let_def split: bind_splits sum.splits if_splits)
  obtain c2 n2 where c2: "load_optional c1 (initrd a) INITRD_BASE = Ok (c2, n2)"
    using assms(1) l c1 by (auto simp: boot_def Let_def split: bind_splits sum.splits if_splits)
  define c3 where "c3 = (case disk_image a of None \<Rightarrow> c2
    | Some d \<Rightarrow> c2\<lparr>bus := (bus c2)\<lparr>virtio_blk := VirtioBlk_new (Some d)\<rparr>\<rparr>)"
  obtain c4 where c4: "(if use_dtb a then install_dtb w c3 (of_nat n2) (disk_image a \<noteq> None) else Ok c3) = Ok c4"
      "c = (if stdin_terminal a then c4 else c4\<lparr>bus := (bus c4)\<lparr>uart := (uart (bus c4))\<lparr>stdin_ready := True\<rparr>\<rparr>\<rparr>)"
    using assms(1) l c1 c2
    by (cases "disk_image a") (auto simp: boot_def Let_def c3_def split: bind_splits sum.splits if_splits)
  have p3: "pc c3 = pc c2" "machine_ok c2 \<longrightarrow> machine_ok c3"
    by (auto simp: c3_def machine_ok_devices split: option.split)
  have p4: "pc c4 = pc c3" "machine_ok c3 \<longrightarrow> machine_ok c4"
    using c4(1) machine_ok_dtb by (auto split: if_splits)
  have p5: "pc c = pc c4" "machine_ok c = machine_ok c4"
    by (simp_all add: c4(2) machine_ok_devices)
  note p = machine_ok_optional [OF c1] machine_ok_optional [OF c2] p3 p4 p5
  have "pc c = entry l" using p by (simp add: Cpu_new_def)
  then have "machine_ok ?c0"
    using assms(3) wf cpu_wf_new [of "loaded_bus l" "entry l"] by (simp add: machine_ok_def Cpu_new_def)
  then show ?thesis using p by blast
qed
text \<open>The states the loop goes through.\<close>

inductive emu_reachable :: "host \<Rightarrow> bool \<Rightarrow> cpu \<Rightarrow> emu \<Rightarrow> bool" for h with_jit c where
  emu_reachable_start: "emu_reachable h with_jit c (emu_start c dbg t0 t)"
| emu_reachable_turn: "emu_reachable h with_jit c e \<Longrightarrow> turn h with_jit i e = Ok e' \<Longrightarrow> emu_reachable h with_jit c e'"

lemma emu_ok_reachable: "emu_reachable h with_jit c e \<Longrightarrow> machine_ok c \<Longrightarrow> emu_ok e"
proof (induction rule: emu_reachable.induct)
  case (emu_reachable_start dbg t0 t)
  then show ?case by (simp add: emu_start_def emu_ok_def machine_ok_def)
next
  case (emu_reachable_turn e i e')
  then show ?case using turn_ok [of e h with_jit i] by simp
qed

section \<open>Properties\<close>


lemma bit_set_mip: "bit (mip (set_mip n p s)) k \<longleftrightarrow> (if k = n \<and> n < 64 then p else bit (mip s) k)"
  by (auto simp: set_mip_def bit_simps dest: bit_imp_le_length)

lemma set_mip_fields [simp]: "stimecmp (set_mip n p s) = stimecmp s"
  by (simp add: set_mip_def)

lemma check_interrupts_mip: "mip (csr (fst (check_interrupts c))) = mip (csr c)"
  unfolding check_interrupts_find by (simp add: deliver_trap_def Let_def Csr_s_trap_entry_def Csr_trap_entry_def split: option.split)

text \<open>
  C5. The poll shows the devices to the hart.  It hands what has arrived on standard input to the
  UART once the guest's shell is ready, and keeps it otherwise; it advances \<open>mtime\<close> by the whole
  hundreds of nanoseconds since the last advance; the interrupt controller's pending bits 10 and 1
  become the lines of the UART and of the block device; and the pending bits of the hart become: timer,
  whether \<open>mtime\<close> has reached \<open>mtimecmp\<close>; supervisor timer, the same for \<open>stimecmp\<close> once it has been
  set; external interrupt, whether the controller has an interrupt; the others as they were.
\<close>

theorem poll_mirrors_devices:
  fixes i :: input and e :: emu
  defines "b \<equiv> bus (hart e)" and "s \<equiv> csr (hart e)" and "e' \<equiv> poll i e"
    and "queue \<equiv> stdin_rx e @ arrived i" and "steps \<equiv> (of_nat (now i - last_clint_tick e) div 100 :: u64)"
  shows "rx_buf (uart (bus (hart e'))) = (if stdin_ready (uart b) then rx_buf (uart b) @ queue else rx_buf (uart b)) \<and>
    stdin_rx e' = (if stdin_ready (uart b) then [] else queue) \<and>
    mtime (clint (bus (hart e'))) = mtime (clint b) + steps \<and>
    last_clint_tick e' = (if steps = 0 then last_clint_tick e else now i) \<and>
    bit (pending (plic (bus (hart e')))) 10 = Uart_irq_pending (uart (bus (hart e'))) \<and>
    bit (pending (plic (bus (hart e')))) 1 = (irq_status (virtio_blk b) \<noteq> 0) \<and>
    (\<forall>n. bit (mip (csr (hart e'))) n =
      (if n = 7 then mtimecmp (clint b) \<le> mtime (clint b) + steps
       else if n = 9 then Plic_has_interrupt (plic (bus (hart e')))
       else if n = 5 \<and> stimecmp s \<noteq> u64_MAX then stimecmp s \<le> mtime (clint b) + steps
       else bit (mip s) n))"
proof -
  define d where "d = drain_stdin (e\<lparr>stdin_rx := queue\<rparr>)"
  define a where "a = advance_clock (now i) d"
  have e': "e' = a\<lparr>hart := fst (check_interrupts (update_mip (hart a)))\<rparr>"
    by (simp add: e'_def poll_def a_def d_def queue_def Let_def)
  have d: "csr (hart d) = s" "clint (bus (hart d)) = clint b" "plic (bus (hart d)) = plic b"
    "virtio_blk (bus (hart d)) = virtio_blk b" "last_clint_tick d = last_clint_tick e"
    "rx_buf (uart (bus (hart d))) = (if stdin_ready (uart b) then rx_buf (uart b) @ queue else rx_buf (uart b))"
    "stdin_rx d = (if stdin_ready (uart b) then [] else queue)"
    by (simp_all add: d_def drain_stdin_def Let_def b_def s_def push_rx_fields)
  have a: "csr (hart a) = s" "mtime (clint (bus (hart a))) = mtime (clint b) + steps"
    "mtimecmp (clint (bus (hart a))) = mtimecmp (clint b)" "plic (bus (hart a)) = plic b"
    "virtio_blk (bus (hart a)) = virtio_blk b" "uart (bus (hart a)) = uart (bus (hart d))" "stdin_rx a = stdin_rx d"
    "last_clint_tick a = (if steps = 0 then last_clint_tick e else now i)"
    using d by (auto simp: a_def advance_clock_def Let_def steps_def word_gt_0)
  show ?thesis
    unfolding e' by (simp add: check_interrupts_frame check_interrupts_mip update_mip_def Let_def a d bit_set_mip
        Plic_set_pending_def bit_simps)
qed

section \<open>How often the loop polls\<close>

text \<open>Iterations one after the other, and the states after each.\<close>

fun turns :: "host \<Rightarrow> bool \<Rightarrow> input list \<Rightarrow> emu \<Rightarrow> emu list option" where
  "turns h with_jit [] e = Some []"
| "turns h with_jit (i # is) e =
     (case turn h with_jit i e of
        Some (Inr e') \<Rightarrow> do { es \<leftarrow> turns h with_jit is e'; Some (e' # es) }
      | _ \<Rightarrow> None)"

lemma flush_tick: "tick (flush_jit e) = tick e"
  by (simp add: flush_jit_def Let_def)

lemma poll_tick: "tick (poll i e) = tick e"
  by (simp add: poll_def Let_def advance_clock_def drain_stdin_def)

lemma diag_tick: "diag i e = Some e' \<Longrightarrow> tick e' = tick e"
  by (auto simp: diag_def Let_def split: if_splits bind_splits)

lemma turn_tick_interpreter: "turn h False i e = Ok e' \<Longrightarrow> tick e' = tick e + 1"
  by (auto simp: turn_def Let_def flush_tick poll_tick split: bind_splits if_splits dest!: diag_tick)

lemma turns_tick: "turns h False is e = Some es \<Longrightarrow> length es = length is \<and> (\<forall>k < length is. tick (es ! k) = tick e + of_nat (k + 1))"
proof (induction "is" arbitrary: e es)
  case Nil
  then show ?case by simp
next
  case (Cons i "is")
  obtain e1 es1 where e1: "turn h False i e = Ok e1" "turns h False is e1 = Some es1" "es = e1 # es1"
    using Cons.prems by (auto split: option.splits sum.splits bind_splits)
  have "tick (es ! k) = tick e + of_nat (k + 1)" if "k < length (i # is)" for k
    using that Cons.IH [OF e1(2)] turn_tick_interpreter [OF e1(1)] e1(3) by (cases k) (auto simp: add_ac)
  then show ?case using Cons.IH [OF e1(2)] e1(3) by simp
qed

lemma and_1023: "w AND 1023 = take_bit 10 w" for w :: u64
  by (rule word64_eqI) (simp add: enum_bits)

lemma one_in_1024: "\<exists>!k. k < 1024 \<and> (t + of_nat (k + 1)) AND 1023 = (0 :: u64)"
proof -
  have "(t + of_nat (k + 1)) AND 1023 = (0 :: u64) \<longleftrightarrow> (unat t + k + 1) mod 1024 = 0" for k
  proof -
    have "unat (take_bit 10 (t + of_nat (k + 1))) = (unat t + k + 1) mod 1024"
      unfolding unsigned_take_bit_eq by (simp add: take_bit_eq_mod unat_word_ariths unat_of_nat mod_simps mod_mod_cancel)
    then show ?thesis unfolding and_1023 unat_eq_0 [symmetric] by simp
  qed
  moreover have "\<exists>!k. k < 1024 \<and> (n + k + 1) mod 1024 = (0 :: nat)" for n
  proof -
    define r where "r = n mod 1024"
    have r: "r < 1024" by (simp add: r_def)
    have e: "(n + k + 1) mod 1024 = 0 \<longleftrightarrow> k = 1023 - r" if "k < 1024" for k
    proof -
      have "(n + k + 1) mod 1024 = (r + k + 1) mod 1024" unfolding r_def add.assoc by (simp only: mod_add_left_eq)
      also have "\<dots> = (if r + k + 1 < 1024 then r + k + 1 else r + k + 1 - 1024)"
        using r that by (simp add: mod_if)
      finally show ?thesis using r that by auto
    qed
    show ?thesis
    proof (rule ex1I [of _ "1023 - r"])
      show "1023 - r < 1024 \<and> (n + (1023 - r) + 1) mod 1024 = 0"
        by (rule conjI, simp, rule iffD2 [OF e], simp, rule refl)
    next
      fix k assume "k < 1024 \<and> (n + k + 1) mod 1024 = 0"
      then show "k = 1023 - r" by (elim conjE) (rule iffD1 [OF e])
    qed
  qed
  ultimately show ?thesis by simp
qed

lemma turns_None:
  "emu_ok e \<Longrightarrow> turns h with_jit is e = None \<Longrightarrow>
    \<exists>k < length is. \<exists>es. turns h with_jit (take k is) e = Some es \<and> draining (bus (hart (last (e # es))))"
proof (induction "is" arbitrary: e)
  case Nil
  then show ?case by simp
next
  case (Cons i "is")
  note t = turn_ok [OF Cons.prems(1), of h with_jit i]
  show ?case
  proof (cases "turn h with_jit i e")
    case None
    then show ?thesis using t by (intro exI [of _ 0]) simp
  next
    case (Some r)
    then obtain e1 where e1: "turn h with_jit i e = Ok e1" "emu_ok e1" using t by (cases r) auto
    then have "turns h with_jit is e1 = None" using Cons.prems(2) by (cases "turns h with_jit is e1") auto
    from Cons.IH [OF e1(2) this] obtain k es where k: "k < length is" "turns h with_jit (take k is) e1 = Some es"
      "draining (bus (hart (last (e1 # es))))" by blast
    then show ?thesis using e1(1) by (intro exI [of _ "Suc k"]) auto
  qed
qed



text \<open>
  Compiling, it need not: a block that returns advances the counter by 64 or 8, so a counter that is
  not a multiple of 8 stays so while the loop finds a block at every \<open>pc\<close>, and the loop polls nothing:
  no timer or external interrupt reaches a guest that spins in compiled code.
\<close>

lemma block_turn_tick:
  assumes "jit e (pc (hart e)) = Some f" "call_block f (hart e) = Returned (Vint nxt) s" "nxt \<noteq> u64_MAX"
    and "turn h True i e = Ok e'" "tick e AND 7 \<noteq> 0"
  shows "tick e' AND 7 = tick e AND 7" "tick e' AND 1023 \<noteq> 0"
proof -
  have a: "(t + n) AND 7 = t AND 7" if "n = 64 \<or> n = 8" for t n :: u64
  proof -
    have w: "w AND 7 = take_bit 3 w" for w :: u64 by (rule word64_eqI) (simp add: enum_bits)
    have "unat (take_bit 3 (t + n)) = (unat t + unat n) mod 8"
      unfolding unsigned_take_bit_eq by (simp add: take_bit_eq_mod unat_word_ariths mod_mod_cancel)
    also have "\<dots> = unat t mod 8" using that by (elim disjE; simp; presburger)
    also have "\<dots> = unat (take_bit 3 t)" unfolding unsigned_take_bit_eq by (simp add: take_bit_eq_mod)
    finally show ?thesis unfolding w by (simp only: word_unat_eq_iff)
  qed
  define n :: u64 where "n = (if mode (hart e) = PrivMode_M then 64 else 8)"
  have r: "run_jit h (hart e) (jit e) = Ok ((guest s)\<lparr>pc := nxt\<rparr>, jit e, n)"
    using assms(1-3) by (simp add: run_jit_def JitCache_get_def n_def)
  have "tick e' = tick e + n"
    using assms(4) by (auto simp: turn_def r Let_def flush_tick poll_tick split: bind_splits if_splits dest!: diag_tick)
  moreover have "n = 64 \<or> n = 8" by (simp add: n_def)
  ultimately have "\<exists>n. (n = 64 \<or> n = 8) \<and> tick e' = tick e + n" by blast
  then show t: "tick e' AND 7 = tick e AND 7" using a by auto
  have "w AND 1023 = 0 \<Longrightarrow> w AND 7 = 0" for w :: u64
  proof -
    assume "w AND 1023 = 0"
    then have "(w AND 1023) AND 7 = 0" by simp
    then show "w AND 7 = 0" by (simp add: and.assoc)
  qed
  then show "tick e' AND 1023 \<noteq> 0" using t assms(5) by auto
qed

end
