(* ===== verification/Rvc.thy ===== *)
theory Rvc
  imports Decode
begin

text \<open>
  The C extension as the manual lists it, beside \<open>decode_rvc\<close> of \<open>src/cpu/decode.rs\<close>: a datatype of its
  instructions with their operands, what each expands to, and an assembler written from the manual's
  encoding tables.  The compressed decoder is proved to be the exact inverse of that assembler: it
  decodes what was assembled, and decodes nothing else.
\<close>

section \<open>The compressed instruction set\<close>

text \<open>
  The instructions of the C extension with their operands, as the manual lists them: register
  numbers of the three-bit fields are the numbers 8 to 15 they name, immediates are their values.
\<close>

datatype (plugins only: code) c_mem = CFld | CLw | CLd | CFsd | CSw | CSd

datatype (plugins only: code) c_alu = CSub | CXor | COr | CAnd | CSubw | CAddw

datatype (plugins only: code) c_inst =
  C_ADDI4SPN nat i64
| C_MEM c_mem nat nat i64
| C_ADDI nat i64 | C_ADDIW nat i64 | C_LI nat i64 | C_ADDI16SP i64 | C_LUI nat i64
| C_SRLI nat nat | C_SRAI nat nat | C_ANDI nat i64 | C_ALU c_alu nat nat
| C_J i64 | C_BEQZ nat i64 | C_BNEZ nat i64
| C_SLLI nat nat | C_FLDSP nat i64 | C_LWSP nat i64 | C_LDSP nat i64
| C_JR nat | C_MV nat nat | C_EBREAK | C_JALR nat | C_ADD nat nat
| C_FSDSP nat i64 | C_SWSP nat i64 | C_SDSP nat i64

fun c_alu_op :: "c_alu \<Rightarrow> r_op" where
  "c_alu_op CSub = Sub" | "c_alu_op CXor = Xor" | "c_alu_op COr = Or" | "c_alu_op CAnd = And"
| "c_alu_op CSubw = Subw" | "c_alu_op CAddw = Addw"

text \<open>What each is short for.\<close>

fun c_expand :: "c_inst \<Rightarrow> instruction" where
  "c_expand (C_ADDI4SPN rd imm) = IType Addi rd 2 imm"
| "c_expand (C_MEM op r rs1 imm) = (case op of
     CFld \<Rightarrow> Fld r rs1 imm | CLw \<Rightarrow> Load Lw r rs1 imm | CLd \<Rightarrow> Load Ld r rs1 imm
   | CFsd \<Rightarrow> Fsd rs1 r imm | CSw \<Rightarrow> Store Sw rs1 r imm | CSd \<Rightarrow> Store Sd rs1 r imm)"
| "c_expand (C_ADDI rd imm) = IType Addi rd rd imm"
| "c_expand (C_ADDIW rd imm) = IType Addiw rd rd imm"
| "c_expand (C_LI rd imm) = IType Addi rd 0 imm"
| "c_expand (C_ADDI16SP imm) = IType Addi 2 2 imm"
| "c_expand (C_LUI rd imm) = Lui rd imm"
| "c_expand (C_SRLI rd sh) = Shift Srli rd rd sh"
| "c_expand (C_SRAI rd sh) = Shift Srai rd rd sh"
| "c_expand (C_ANDI rd imm) = IType Andi rd rd imm"
| "c_expand (C_ALU op rd rs2) = RType (c_alu_op op) rd rd rs2"
| "c_expand (C_J imm) = Jal 0 imm"
| "c_expand (C_BEQZ rs1 imm) = Branch Beq rs1 0 imm"
| "c_expand (C_BNEZ rs1 imm) = Branch Bne rs1 0 imm"
| "c_expand (C_SLLI rd sh) = Shift Slli rd rd sh"
| "c_expand (C_FLDSP rd imm) = Fld rd 2 imm"
| "c_expand (C_LWSP rd imm) = Load Lw rd 2 imm"
| "c_expand (C_LDSP rd imm) = Load Ld rd 2 imm"
| "c_expand (C_JR rs1) = Jalr 0 rs1 0"
| "c_expand (C_MV rd rs2) = RType Add rd 0 rs2"
| "c_expand C_EBREAK = Ebreak"
| "c_expand (C_JALR rs1) = Jalr 1 rs1 0"
| "c_expand (C_ADD rd rs2) = RType Add rd rd rs2"
| "c_expand (C_FSDSP rs2 imm) = Fsd 2 rs2 imm"
| "c_expand (C_SWSP rs2 imm) = Store Sw 2 rs2 imm"
| "c_expand (C_SDSP rs2 imm) = Store Sd 2 rs2 imm"

text \<open>
  The operands the program accepts: unsigned offsets scaled as the format scales them, signed ones in
  their range; the reserved encodings (a zero \<open>C.ADDI4SPN\<close>, \<open>C.ADDI16SP\<close> or \<open>C.LUI\<close>, \<open>x0\<close> where the
  manual reserves it) are excluded, the hints are not, except that of \<open>C.ADD\<close>.
\<close>

definition creg :: "nat \<Rightarrow> bool" where
  "creg r \<longleftrightarrow> 8 \<le> r \<and> r < 16"

definition within :: "i64 \<Rightarrow> i64 \<Rightarrow> bool" where
  "within m imm \<longleftrightarrow> imm AND m = imm"

fun c_valid :: "c_inst \<Rightarrow> bool" where
  "c_valid (C_ADDI4SPN rd imm) = (creg rd \<and> within 0x3FC imm \<and> imm \<noteq> 0)"
| "c_valid (C_MEM op r rs1 imm) =
     (creg r \<and> creg rs1 \<and> within (if op = CLw \<or> op = CSw then 0x7C else 0xF8) imm)"
| "c_valid (C_ADDI rd imm) = (rd < 32 \<and> fits 6 imm)"
| "c_valid (C_ADDIW rd imm) = (rd < 32 \<and> rd \<noteq> 0 \<and> fits 6 imm)"
| "c_valid (C_LI rd imm) = (rd < 32 \<and> fits 6 imm)"
| "c_valid (C_ADDI16SP imm) = (fits 10 imm \<and> take_bit 4 imm = 0 \<and> imm \<noteq> 0)"
| "c_valid (C_LUI rd imm) = (rd < 32 \<and> rd \<noteq> 0 \<and> rd \<noteq> 2 \<and> fits 18 imm \<and> take_bit 12 imm = 0 \<and> imm \<noteq> 0)"
| "c_valid (C_SRLI rd sh) = (creg rd \<and> sh < 64)"
| "c_valid (C_SRAI rd sh) = (creg rd \<and> sh < 64)"
| "c_valid (C_ANDI rd imm) = (creg rd \<and> fits 6 imm)"
| "c_valid (C_ALU op rd rs2) = (creg rd \<and> creg rs2)"
| "c_valid (C_J imm) = (fits 12 imm \<and> \<not> bit imm 0)"
| "c_valid (C_BEQZ rs1 imm) = (creg rs1 \<and> fits 9 imm \<and> \<not> bit imm 0)"
| "c_valid (C_BNEZ rs1 imm) = (creg rs1 \<and> fits 9 imm \<and> \<not> bit imm 0)"
| "c_valid (C_SLLI rd sh) = (rd < 32 \<and> sh < 64)"
| "c_valid (C_FLDSP rd imm) = (rd < 32 \<and> within 0x1F8 imm)"
| "c_valid (C_LWSP rd imm) = (rd < 32 \<and> rd \<noteq> 0 \<and> within 0xFC imm)"
| "c_valid (C_LDSP rd imm) = (rd < 32 \<and> rd \<noteq> 0 \<and> within 0x1F8 imm)"
| "c_valid (C_JR rs1) = (rs1 < 32 \<and> rs1 \<noteq> 0)"
| "c_valid (C_MV rd rs2) = (rd < 32 \<and> rs2 < 32 \<and> rs2 \<noteq> 0)"
| "c_valid C_EBREAK = True"
| "c_valid (C_JALR rs1) = (rs1 < 32 \<and> rs1 \<noteq> 0)"
| "c_valid (C_ADD rd rs2) = (rd < 32 \<and> rd \<noteq> 0 \<and> rs2 < 32 \<and> rs2 \<noteq> 0)"
| "c_valid (C_FSDSP rs2 imm) = (rs2 < 32 \<and> within 0x1F8 imm)"
| "c_valid (C_SWSP rs2 imm) = (rs2 < 32 \<and> within 0xFC imm)"
| "c_valid (C_SDSP rs2 imm) = (rs2 < 32 \<and> within 0x1F8 imm)"

section \<open>The assembler\<close>

text \<open>
  \<open>im v from n to\<close> puts bits \<open>from\<close> to \<open>from + n - 1\<close> of \<open>v\<close> at bit \<open>to\<close> of the parcel.  Two layouts serve
  all formats: \<open>ci\<close> with a five-bit register at bit 7 and \<open>ca\<close> with three-bit registers at bits 7 and
  2; each keeps the bits of its last argument that lie in neither.
\<close>

definition im :: "i64 \<Rightarrow> nat \<Rightarrow> nat \<Rightarrow> nat \<Rightarrow> u16" where
  "im v src n dst = shl (take_bit n (ucast (shr v src))) dst"

definition ci :: "u16 \<Rightarrow> u16 \<Rightarrow> nat \<Rightarrow> u16 \<Rightarrow> u16" where
  "ci quad f3 r x = take_bit 2 quad OR shl (take_bit 3 f3) 13 OR shl (take_bit 5 (of_nat r)) 7 OR (x AND 0x107C)"

definition ca :: "u16 \<Rightarrow> u16 \<Rightarrow> nat \<Rightarrow> nat \<Rightarrow> u16 \<Rightarrow> u16" where
  "ca quad f3 r7 r2 x = take_bit 2 quad OR shl (take_bit 3 f3) 13 OR shl (take_bit 3 (of_nat r7)) 7 OR
    shl (take_bit 3 (of_nat r2)) 2 OR (x AND 0x1C60)"

fun c_mem_f3 :: "c_mem \<Rightarrow> u16" where
  "c_mem_f3 CFld = 1" | "c_mem_f3 CLw = 2" | "c_mem_f3 CLd = 3"
| "c_mem_f3 CFsd = 5" | "c_mem_f3 CSw = 6" | "c_mem_f3 CSd = 7"

text \<open>Bit 12 and bits 6 to 5 of the register-register operations, with 11 at bit 10.\<close>

fun c_alu_code :: "c_alu \<Rightarrow> u16" where
  "c_alu_code CSub = 0x0C00" | "c_alu_code CXor = 0x0C20" | "c_alu_code COr = 0x0C40"
| "c_alu_code CAnd = 0x0C60" | "c_alu_code CSubw = 0x1C00" | "c_alu_code CAddw = 0x1C20"

definition imm6 :: "i64 \<Rightarrow> u16" where
  "imm6 v = im v 5 1 12 OR im v 0 5 2"

definition imm_branch :: "i64 \<Rightarrow> u16" where
  "imm_branch v = im v 8 1 12 OR im v 3 2 10 OR im v 6 2 5 OR im v 1 2 3 OR im v 5 1 2"

definition imm_jump :: "i64 \<Rightarrow> u16" where
  "imm_jump v = im v 11 1 12 OR im v 4 1 11 OR im v 8 2 9 OR im v 10 1 8 OR im v 6 1 7 OR im v 7 1 6 OR
    im v 1 3 3 OR im v 5 1 2"

text \<open>The remaining immediates, named after the instructions that have them.\<close>

definition imm_4spn :: "i64 \<Rightarrow> u16" where
  "imm_4spn v = im v 4 2 11 OR im v 6 4 7 OR im v 2 1 6 OR im v 3 1 5"

definition imm_w :: "i64 \<Rightarrow> u16" where
  "imm_w v = im v 3 3 10 OR im v 2 1 6 OR im v 6 1 5"

definition imm_d :: "i64 \<Rightarrow> u16" where
  "imm_d v = im v 3 3 10 OR im v 6 2 5"

definition imm_16sp :: "i64 \<Rightarrow> u16" where
  "imm_16sp v = im v 9 1 12 OR im v 4 1 6 OR im v 6 1 5 OR im v 7 2 3 OR im v 5 1 2"

definition imm_lui :: "i64 \<Rightarrow> u16" where
  "imm_lui v = im v 17 1 12 OR im v 12 5 2"

definition imm_ldsp :: "i64 \<Rightarrow> u16" where
  "imm_ldsp v = im v 5 1 12 OR im v 3 2 5 OR im v 6 3 2"

definition imm_lwsp :: "i64 \<Rightarrow> u16" where
  "imm_lwsp v = im v 5 1 12 OR im v 2 3 4 OR im v 6 2 2"

definition imm_sdsp :: "i64 \<Rightarrow> u16" where
  "imm_sdsp v = im v 3 3 10 OR im v 6 3 7"

definition imm_swsp :: "i64 \<Rightarrow> u16" where
  "imm_swsp v = im v 2 4 9 OR im v 6 2 7"

definition imm_rs2 :: "nat \<Rightarrow> u16" where
  "imm_rs2 r = shl (take_bit 5 (of_nat r)) 2"

fun c_encode :: "c_inst \<Rightarrow> u16" where
  "c_encode (C_ADDI4SPN rd imm) = ca 0 0 0 rd 0 OR imm_4spn imm"
| "c_encode (C_MEM op r rs1 imm) = ca 0 (c_mem_f3 op) rs1 r
     (if op = CLw \<or> op = CSw then imm_w imm else imm_d imm)"
| "c_encode (C_ADDI rd imm) = ci 1 0 rd (imm6 imm)"
| "c_encode (C_ADDIW rd imm) = ci 1 1 rd (imm6 imm)"
| "c_encode (C_LI rd imm) = ci 1 2 rd (imm6 imm)"
| "c_encode (C_ADDI16SP imm) = ci 1 3 2 (imm_16sp imm)"
| "c_encode (C_LUI rd imm) = ci 1 3 rd (imm_lui imm)"
| "c_encode (C_SRLI rd sh) = ca 1 4 rd 0 0 OR imm6 (of_nat sh)"
| "c_encode (C_SRAI rd sh) = ca 1 4 rd 0 0x0400 OR imm6 (of_nat sh)"
| "c_encode (C_ANDI rd imm) = ca 1 4 rd 0 0x0800 OR imm6 imm"
| "c_encode (C_ALU op rd rs2) = ca 1 4 rd rs2 (c_alu_code op)"
| "c_encode (C_J imm) = ca 1 5 0 0 0 OR imm_jump imm"
| "c_encode (C_BEQZ rs1 imm) = ca 1 6 rs1 0 0 OR imm_branch imm"
| "c_encode (C_BNEZ rs1 imm) = ca 1 7 rs1 0 0 OR imm_branch imm"
| "c_encode (C_SLLI rd sh) = ci 2 0 rd (imm6 (of_nat sh))"
| "c_encode (C_FLDSP rd imm) = ci 2 1 rd (imm_ldsp imm)"
| "c_encode (C_LWSP rd imm) = ci 2 2 rd (imm_lwsp imm)"
| "c_encode (C_LDSP rd imm) = ci 2 3 rd (imm_ldsp imm)"
| "c_encode (C_JR rs1) = ci 2 4 rs1 0"
| "c_encode (C_MV rd rs2) = ci 2 4 rd (imm_rs2 rs2)"
| "c_encode C_EBREAK = 0x9002"
| "c_encode (C_JALR rs1) = ci 2 4 rs1 0x1000"
| "c_encode (C_ADD rd rs2) = ci 2 4 rd (imm_rs2 rs2 OR 0x1000)"
| "c_encode (C_FSDSP rs2 imm) = ci 2 5 0 (imm_rs2 rs2) OR imm_sdsp imm"
| "c_encode (C_SWSP rs2 imm) = ci 2 6 0 (imm_rs2 rs2) OR imm_swsp imm"
| "c_encode (C_SDSP rs2 imm) = ci 2 7 0 (imm_rs2 rs2) OR imm_sdsp imm"

section \<open>Fields of a parcel\<close>

lemma upt_16: "[0..<16] = [0, 1, 2, 3, 4, 5, 6, 7, 8, 9, 10, 11, 12, 13, 14, 15::nat]"
  by (simp add: upt_rec)

lemma word16_eqI:
  assumes "list_all (\<lambda>n. bit a n = bit b n) [0..<16]"
  shows "a = (b :: u16)"
  using assms by (intro bit_word_eqI) (auto simp: list_all_iff)

lemma bit_im: "bit (im v src n dst) k \<longleftrightarrow> k < 16 \<and> dst \<le> k \<and> k - dst < n \<and> bit v (src + (k - dst))"
  by (auto simp: im_def bit_simps)

lemma ci_fields:
  "(ucast (ci q f r x) :: u32) AND 3 = ucast (take_bit 2 q)"
  "shr (ucast (ci q f r x) :: u32) 13 AND 7 = ucast (take_bit 3 f)"
  "shr (ucast (ci q f r x) :: u32) 7 AND 0x1f = take_bit 5 (of_nat r)"
  "shr (ucast (ci q f r x) :: u32) 2 AND 0x1f = ucast (take_bit 5 (shr x 2))"
  "shr (ucast (ci q f r x) :: u32) 12 AND 1 = ucast (shr x 12 AND 1)"
  unfolding ci_def by (rule word32_eqI, simp add: enum_bits)+

lemma ca_fields:
  "x AND 0xE003 = 0 \<Longrightarrow> (ucast (ca q f r7 r2 y OR x) :: u32) AND 3 = ucast (take_bit 2 q)"
  "x AND 0xE003 = 0 \<Longrightarrow> shr (ucast (ca q f r7 r2 y OR x) :: u32) 13 AND 7 = ucast (take_bit 3 f)"
  "x AND 0x0380 = 0 \<Longrightarrow> shr (ucast (ca q f r7 r2 y OR x) :: u32) 7 AND 7 = take_bit 3 (of_nat r7)"
  "x AND 0x001C = 0 \<Longrightarrow> shr (ucast (ca q f r7 r2 y OR x) :: u32) 2 AND 7 = take_bit 3 (of_nat r2)"
proof -
  have b: "\<not> bit x k" if "x AND m = 0" "bit m k" for m k
    using that by (metis bit_and_iff bit_0_eq bot_apply bot_bool_def)
  show "x AND 0xE003 = 0 \<Longrightarrow> (ucast (ca q f r7 r2 y OR x) :: u32) AND 3 = ucast (take_bit 2 q)"
    using b [of "0xE003" 0] b [of "0xE003" 1] unfolding ca_def
    by (intro word32_eqI) (simp add: enum_bits, (simp add: numeral_2_eq_2 numeral_3_eq_3)?)
  show "x AND 0xE003 = 0 \<Longrightarrow> shr (ucast (ca q f r7 r2 y OR x) :: u32) 13 AND 7 = ucast (take_bit 3 f)"
    using b [of "0xE003" 13] b [of "0xE003" 14] b [of "0xE003" 15] unfolding ca_def
    by (intro word32_eqI) (simp add: enum_bits, (simp add: numeral_2_eq_2 numeral_3_eq_3)?)
  show "x AND 0x0380 = 0 \<Longrightarrow> shr (ucast (ca q f r7 r2 y OR x) :: u32) 7 AND 7 = take_bit 3 (of_nat r7)"
    using b [of "0x380" 7] b [of "0x380" 8] b [of "0x380" 9] unfolding ca_def
    by (intro word32_eqI) (simp add: enum_bits, (simp add: numeral_2_eq_2 numeral_3_eq_3)?)
  show "x AND 0x001C = 0 \<Longrightarrow> shr (ucast (ca q f r7 r2 y OR x) :: u32) 2 AND 7 = take_bit 3 (of_nat r2)"
    using b [of "0x1C" 2] b [of "0x1C" 3] b [of "0x1C" 4] unfolding ca_def
    by (intro word32_eqI) (simp add: enum_bits, (simp add: numeral_2_eq_2 numeral_3_eq_3)?)
qed

lemma creg_field: "creg r \<Longrightarrow> unat (8 + (take_bit 3 (of_nat r) :: u32)) = r"
proof -
  have "list_all (\<lambda>r. unat (8 + (take_bit 3 (of_nat r) :: u32)) = r) [8..<16]" by code_simp
  then show "creg r \<Longrightarrow> unat (8 + (take_bit 3 (of_nat r) :: u32)) = r"
    by (simp only: list_all_iff creg_def set_upt atLeastLessThan_iff)
qed

lemma imm6_word:
  "rvc_sext (shl (shr (ucast (ci q f r (imm6 v)) :: u32) 12 AND 1) 5 OR (shr (ucast (ci q f r (imm6 v))) 2 AND 0x1f)) 5 (-64)
    = signed_take_bit 5 v"
  unfolding rvc_sext_def bit_test_iff
  by (cases "bit v 5") (rule word64_eqI, simp add: enum_bits ci_def imm6_def bit_im)+

text \<open>Each immediate, read back from its parcel.\<close>

lemma back_4spn:
  "ucast (shl (shr (ucast (ca 0 0 0 rd 0 OR imm_4spn v) :: u32) 6 AND 1) 2 OR shl (shr (ucast (ca 0 0 0 rd 0 OR imm_4spn v)) 5 AND 1) 3 OR
      shl (shr (ucast (ca 0 0 0 rd 0 OR imm_4spn v)) 11 AND 3) 4 OR shl (shr (ucast (ca 0 0 0 rd 0 OR imm_4spn v)) 7 AND 0xf) 6) = v AND 0x3FC"
  unfolding imm_4spn_def by (rule word64_eqI) (simp add: enum_bits ca_def bit_im imm_rs2_def, (simp add: numeral_2_eq_2 numeral_3_eq_3)?)

lemma back_w:
  "ucast (shl (shr (ucast (ca q f r1 r2 (imm_w v)) :: u32) 6 AND 1) 2 OR shl (shr (ucast (ca q f r1 r2 (imm_w v))) 10 AND 7) 3 OR
      shl (shr (ucast (ca q f r1 r2 (imm_w v))) 5 AND 1) 6) = v AND 0x7C"
  unfolding imm_w_def by (rule word64_eqI) (simp add: enum_bits ca_def bit_im imm_rs2_def, (simp add: numeral_2_eq_2 numeral_3_eq_3)?)

lemma back_d:
  "ucast (shl (shr (ucast (ca q f r1 r2 (imm_d v)) :: u32) 10 AND 7) 3 OR shl (shr (ucast (ca q f r1 r2 (imm_d v))) 5 AND 3) 6) = v AND 0xF8"
  unfolding imm_d_def by (rule word64_eqI) (simp add: enum_bits ca_def bit_im imm_rs2_def, (simp add: numeral_2_eq_2 numeral_3_eq_3)?)

lemma back_16sp:
  "rvc_sext (shl (shr (ucast (ci q f r (imm_16sp v)) :: u32) 12 AND 1) 9 OR shl (shr (ucast (ci q f r (imm_16sp v))) 3 AND 3) 7 OR
      shl (shr (ucast (ci q f r (imm_16sp v))) 5 AND 1) 6 OR shl (shr (ucast (ci q f r (imm_16sp v))) 2 AND 1) 5 OR
      shl (shr (ucast (ci q f r (imm_16sp v))) 6 AND 1) 4) 9 (- 0x400) = signed_take_bit 9 v AND NOT 0xF"
  unfolding imm_16sp_def rvc_sext_def bit_test_iff
  by (cases "bit v 9"; rule word64_eqI; simp add: enum_bits ci_def bit_im imm_rs2_def; (simp add: numeral_2_eq_2 numeral_3_eq_3)?)

lemma back_lui:
  "rvc_sext (shl (shr (ucast (ci q f r (imm_lui v)) :: u32) 12 AND 1) 17 OR shl (shr (ucast (ci q f r (imm_lui v))) 2 AND 0x1f) 12)
      17 (- 0x40000) = signed_take_bit 17 v AND NOT 0xFFF"
  unfolding imm_lui_def rvc_sext_def bit_test_iff
  by (cases "bit v 17"; rule word64_eqI; simp add: enum_bits ci_def bit_im imm_rs2_def; (simp add: numeral_2_eq_2 numeral_3_eq_3)?)

lemma back_andi:
  "rvc_sext (shl (shr (ucast (ca q f r1 0 0x800 OR imm6 v) :: u32) 12 AND 1) 5 OR (shr (ucast (ca q f r1 0 0x800 OR imm6 v)) 2 AND 0x1f)) 5 (-64)
    = signed_take_bit 5 v"
  unfolding rvc_sext_def bit_test_iff
  by (cases "bit v 5"; rule word64_eqI; simp add: enum_bits ca_def imm6_def bit_im; (simp add: numeral_2_eq_2 numeral_3_eq_3)?)

lemma back_shamt:
  "shl (shr (ucast (ca q f r1 0 0 OR imm6 v) :: u32) 12 AND 1) 5 OR (shr (ucast (ca q f r1 0 0 OR imm6 v)) 2 AND 0x1f)
    = ucast (take_bit 6 v)"
  "shl (shr (ucast (ca q f r1 0 0x400 OR imm6 v) :: u32) 12 AND 1) 5 OR (shr (ucast (ca q f r1 0 0x400 OR imm6 v)) 2 AND 0x1f)
    = ucast (take_bit 6 v)"
  "shl (shr (ucast (ci q f r1 (imm6 v)) :: u32) 12 AND 1) 5 OR (shr (ucast (ci q f r1 (imm6 v))) 2 AND 0x1f) = ucast (take_bit 6 v)"
  by (rule word32_eqI; simp add: enum_bits ca_def ci_def imm6_def bit_im; (simp add: numeral_2_eq_2 numeral_3_eq_3)?)+

lemma back_jump: "rvc_jump_imm (ucast (ca q f 0 0 0 OR imm_jump v)) = signed_take_bit 11 v AND NOT 1"
  unfolding rvc_jump_imm_def rvc_sext_def bit_test_iff Let_def
  by (cases "bit v 11"; rule word64_eqI; simp add: enum_bits ca_def imm_jump_def bit_im; (simp add: numeral_2_eq_2 numeral_3_eq_3)?)

lemma back_branch: "rvc_branch_imm (ucast (ca q f r 0 0 OR imm_branch v)) = signed_take_bit 8 v AND NOT 1"
  unfolding rvc_branch_imm_def rvc_sext_def bit_test_iff Let_def
  by (cases "bit v 8"; rule word64_eqI; simp add: enum_bits ca_def imm_branch_def bit_im; (simp add: numeral_2_eq_2 numeral_3_eq_3)?)

lemma back_ldsp:
  "ucast (shl (shr (ucast (ci q f r (imm_ldsp v)) :: u32) 12 AND 1) 5 OR shl (shr (ucast (ci q f r (imm_ldsp v))) 5 AND 3) 3 OR
      shl (shr (ucast (ci q f r (imm_ldsp v))) 2 AND 7) 6) = v AND 0x1F8"
  unfolding imm_ldsp_def by (rule word64_eqI) (simp add: enum_bits ci_def bit_im imm_rs2_def, (simp add: numeral_2_eq_2 numeral_3_eq_3)?)

lemma back_lwsp:
  "ucast (shl (shr (ucast (ci q f r (imm_lwsp v)) :: u32) 12 AND 1) 5 OR shl (shr (ucast (ci q f r (imm_lwsp v))) 4 AND 7) 2 OR
      shl (shr (ucast (ci q f r (imm_lwsp v))) 2 AND 3) 6) = v AND 0xFC"
  unfolding imm_lwsp_def by (rule word64_eqI) (simp add: enum_bits ci_def bit_im imm_rs2_def, (simp add: numeral_2_eq_2 numeral_3_eq_3)?)

text \<open>The stores relative to the stack pointer: a layout with the register at bit 2 and six bits at bit 7.\<close>

lemma back_sdsp:
  "ucast (shl (shr (ucast (ci q f 0 (imm_rs2 s) OR imm_sdsp v) :: u32) 10 AND 7) 3 OR
      shl (shr (ucast (ci q f 0 (imm_rs2 s) OR imm_sdsp v)) 7 AND 7) 6) = v AND 0x1F8"
    "shr (ucast (ci q f 0 (imm_rs2 s) OR imm_sdsp v) :: u32) 2 AND 0x1f = take_bit 5 (of_nat s)"
    "(ucast (ci q f 0 (imm_rs2 s) OR imm_sdsp v) :: u32) AND 3 = ucast (take_bit 2 q)"
    "shr (ucast (ci q f 0 (imm_rs2 s) OR imm_sdsp v) :: u32) 13 AND 7 = ucast (take_bit 3 f)"
  unfolding imm_sdsp_def
  by (rule word64_eqI; simp add: enum_bits ci_def bit_im imm_rs2_def; (simp add: numeral_2_eq_2 numeral_3_eq_3)?)
    (rule word32_eqI; simp add: enum_bits ci_def bit_im imm_rs2_def; (simp add: numeral_2_eq_2 numeral_3_eq_3)?)+

lemma back_swsp:
  "ucast (shl (shr (ucast (ci q f 0 (imm_rs2 s) OR imm_swsp v) :: u32) 9 AND 0xf) 2 OR
      shl (shr (ucast (ci q f 0 (imm_rs2 s) OR imm_swsp v)) 7 AND 3) 6) = v AND 0xFC"
    "shr (ucast (ci q f 0 (imm_rs2 s) OR imm_swsp v) :: u32) 2 AND 0x1f = take_bit 5 (of_nat s)"
    "(ucast (ci q f 0 (imm_rs2 s) OR imm_swsp v) :: u32) AND 3 = ucast (take_bit 2 q)"
    "shr (ucast (ci q f 0 (imm_rs2 s) OR imm_swsp v) :: u32) 13 AND 7 = ucast (take_bit 3 f)"
  unfolding imm_swsp_def
  by (rule word64_eqI; simp add: enum_bits ci_def bit_im imm_rs2_def; (simp add: numeral_2_eq_2 numeral_3_eq_3)?)
    (rule word32_eqI; simp add: enum_bits ci_def bit_im imm_rs2_def; (simp add: numeral_2_eq_2 numeral_3_eq_3)?)+

section \<open>Decoding what was assembled\<close>

lemma withinD: "within m imm \<Longrightarrow> imm AND m = imm"
  by (simp add: within_def)

lemma im_masks [simp]:
  "imm_4spn v AND 0xE003 = 0"
  "imm_4spn v AND 0x001C = 0"
  "imm6 v AND 0xE003 = 0" "imm6 v AND 0x0380 = 0"
  "imm_jump v AND 0xE003 = 0" "imm_branch v AND 0xE003 = 0" "imm_branch v AND 0x0380 = 0"
  unfolding imm_4spn_def imm6_def imm_jump_def imm_branch_def
  by (rule word16_eqI; simp add: upt_16 enum_bits bit_im)+

lemma ucast_nonzero: "ucast (u :: u32) = (v :: u64) \<Longrightarrow> v \<noteq> 0 \<Longrightarrow> u \<noteq> 0"
  by auto

lemma dec_4spn: "c_valid (C_ADDI4SPN rd imm) \<Longrightarrow> decode_rvc (c_encode (C_ADDI4SPN rd imm)) = Ok (c_expand (C_ADDI4SPN rd imm))"
  using back_4spn [of rd imm] ucast_nonzero [OF back_4spn [of rd imm]]
  by (simp add: decode_rvc_def ca_fields rvc_q0_def Let_def rvc_rp_def creg_field withinD del: push_bit_and)

lemma ca_fields_0 [simp]:
  "(ucast (ca q f r7 r2 y) :: u32) AND 3 = ucast (take_bit 2 q)"
  "shr (ucast (ca q f r7 r2 y) :: u32) 13 AND 7 = ucast (take_bit 3 f)"
  "shr (ucast (ca q f r7 r2 y) :: u32) 7 AND 7 = take_bit 3 (of_nat r7)"
  "shr (ucast (ca q f r7 r2 y) :: u32) 2 AND 7 = take_bit 3 (of_nat r2)"
  using ca_fields [of 0] by simp_all

lemma dec_mem: "c_valid (C_MEM op r rs1 imm) \<Longrightarrow> decode_rvc (c_encode (C_MEM op r rs1 imm)) = Ok (c_expand (C_MEM op r rs1 imm))"
  using back_w [of 0 "c_mem_f3 op" rs1 r imm] back_d [of 0 "c_mem_f3 op" rs1 r imm]
  by (cases op; simp add: decode_rvc_def rvc_q0_def Let_def rvc_rp_def creg_field withinD del: push_bit_and)

lemma shamt_back:
  assumes "sh < 64"
  shows "unat (ucast (take_bit 6 (of_nat sh :: u64)) :: u32) = sh"
proof -
  have "unat (take_bit 6 (of_nat sh :: u64)) = sh"
    using assms by (simp add: unsigned_take_bit_eq unat_of_nat take_bit_nat_eq_self)
  then show ?thesis using assms by (simp add: unsigned_ucast_eq take_bit_nat_eq_self)
qed

lemma shamt_back_16:
  assumes "sh < 64"
  shows "unat (ucast (take_bit 6 (of_nat sh :: i64)) :: u32) = sh"
  using shamt_back [OF assms] by simp

lemma dec_alu:
  "c_valid (C_SRLI rd sh) \<Longrightarrow> decode_rvc (c_encode (C_SRLI rd sh)) = Ok (c_expand (C_SRLI rd sh))"
  "c_valid (C_SRAI rd sh) \<Longrightarrow> decode_rvc (c_encode (C_SRAI rd sh)) = Ok (c_expand (C_SRAI rd sh))"
  "c_valid (C_ANDI rd imm) \<Longrightarrow> decode_rvc (c_encode (C_ANDI rd imm)) = Ok (c_expand (C_ANDI rd imm))"
  "c_valid (C_ALU op rd rs2) \<Longrightarrow> decode_rvc (c_encode (C_ALU op rd rs2)) = Ok (c_expand (C_ALU op rd rs2))"
proof -
  have f2: "shr (ucast (ca q f rd 0 0 OR imm6 v) :: u32) 10 AND 3 = 0"
    "shr (ucast (ca q f rd 0 0x400 OR imm6 v) :: u32) 10 AND 3 = 1"
    "shr (ucast (ca q f rd 0 0x800 OR imm6 v) :: u32) 10 AND 3 = 2" for q f v
    unfolding ca_def imm6_def by (rule word32_eqI; simp add: enum_bits bit_im)+
  have c: "shr (ucast (ca q f rd rs2 (c_alu_code op)) :: u32) 10 AND 3 = 3"
    "shr (ucast (ca q f rd rs2 (c_alu_code op)) :: u32) 12 AND 1 = ucast (shr (c_alu_code op) 12)"
    "shr (ucast (ca q f rd rs2 (c_alu_code op)) :: u32) 5 AND 3 = ucast (shr (c_alu_code op) 5 AND 3)" for q f
    unfolding ca_def by (cases op; rule word32_eqI; simp add: enum_bits)+
  note simps = decode_rvc_def rvc_q1_def rvc_q1_alu_def Let_def rvc_rp_def creg_field
  show "c_valid (C_SRLI rd sh) \<Longrightarrow> decode_rvc (c_encode (C_SRLI rd sh)) = Ok (c_expand (C_SRLI rd sh))"
    by (simp add: simps ca_fields f2(1) back_shamt shamt_back del: push_bit_and)
  show "c_valid (C_SRAI rd sh) \<Longrightarrow> decode_rvc (c_encode (C_SRAI rd sh)) = Ok (c_expand (C_SRAI rd sh))"
    by (simp add: simps ca_fields f2(2) back_shamt shamt_back del: push_bit_and)
  show "c_valid (C_ANDI rd imm) \<Longrightarrow> decode_rvc (c_encode (C_ANDI rd imm)) = Ok (c_expand (C_ANDI rd imm))"
    by (simp add: simps ca_fields f2(3) back_andi fits_def del: push_bit_and)
  show "c_valid (C_ALU op rd rs2) \<Longrightarrow> decode_rvc (c_encode (C_ALU op rd rs2)) = Ok (c_expand (C_ALU op rd rs2))"
    using c by (cases op) (simp_all add: simps match_table_def del: push_bit_and)
qed

lemma dec_jump:
  "c_valid (C_J imm) \<Longrightarrow> decode_rvc (c_encode (C_J imm)) = Ok (c_expand (C_J imm))"
  "c_valid (C_BEQZ rs1 imm) \<Longrightarrow> decode_rvc (c_encode (C_BEQZ rs1 imm)) = Ok (c_expand (C_BEQZ rs1 imm))"
  "c_valid (C_BNEZ rs1 imm) \<Longrightarrow> decode_rvc (c_encode (C_BNEZ rs1 imm)) = Ok (c_expand (C_BNEZ rs1 imm))"
proof -
  have even: "imm AND NOT 1 = imm" if "\<not> bit imm 0" for imm :: i64
    using that by (intro bit_word_eqI) (auto simp: bit_simps intro!: gr0I)
  show "c_valid (C_J imm) \<Longrightarrow> decode_rvc (c_encode (C_J imm)) = Ok (c_expand (C_J imm))"
    using even [of imm] by (simp add: decode_rvc_def rvc_q1_def Let_def ca_fields back_jump fits_def del: push_bit_and)
  show "c_valid (C_BEQZ rs1 imm) \<Longrightarrow> decode_rvc (c_encode (C_BEQZ rs1 imm)) = Ok (c_expand (C_BEQZ rs1 imm))"
    "c_valid (C_BNEZ rs1 imm) \<Longrightarrow> decode_rvc (c_encode (C_BNEZ rs1 imm)) = Ok (c_expand (C_BNEZ rs1 imm))"
    using even [of imm] by (simp_all add: decode_rvc_def rvc_q1_def Let_def ca_fields rvc_rp_def creg_field back_branch fits_def
      del: push_bit_and)
qed

lemma ci_reg: "r < 32 \<Longrightarrow> unat (shr (ucast (ci q f r x) :: u32) 7 AND 0x1f) = r"
  by (simp add: ci_fields)

lemma dec_i:
  "c_valid (C_ADDI rd imm) \<Longrightarrow> decode_rvc (c_encode (C_ADDI rd imm)) = Ok (c_expand (C_ADDI rd imm))"
  "c_valid (C_ADDIW rd imm) \<Longrightarrow> decode_rvc (c_encode (C_ADDIW rd imm)) = Ok (c_expand (C_ADDIW rd imm))"
  "c_valid (C_LI rd imm) \<Longrightarrow> decode_rvc (c_encode (C_LI rd imm)) = Ok (c_expand (C_LI rd imm))"
  "c_valid (C_SLLI rd sh) \<Longrightarrow> decode_rvc (c_encode (C_SLLI rd sh)) = Ok (c_expand (C_SLLI rd sh))"
  by (simp_all add: decode_rvc_def rvc_q1_def Let_def ci_fields(1,2) ci_reg imm6_word fits_def del: push_bit_and)
    (simp add: rvc_q2_def Let_def ci_reg back_shamt shamt_back del: push_bit_and)

lemma dec_upper:
  "c_valid (C_ADDI16SP imm) \<Longrightarrow> decode_rvc (c_encode (C_ADDI16SP imm)) = Ok (c_expand (C_ADDI16SP imm))"
  "c_valid (C_LUI rd imm) \<Longrightarrow> decode_rvc (c_encode (C_LUI rd imm)) = Ok (c_expand (C_LUI rd imm))"
proof -
  have low: "imm AND NOT (mask n) = imm" if "take_bit n imm = 0" for imm :: i64 and n
  proof (rule bit_word_eqI)
    fix k
    have "\<not> bit (take_bit n imm) k" by (simp add: that)
    then show "k < LENGTH(64) \<Longrightarrow> bit (imm AND NOT (mask n)) k = bit imm k" by (auto simp: bit_simps)
  qed
  have m: "mask 4 = (0xF :: i64)" "mask 12 = (0xFFF :: i64)" by code_simp+
  show "c_valid (C_ADDI16SP imm) \<Longrightarrow> decode_rvc (c_encode (C_ADDI16SP imm)) = Ok (c_expand (C_ADDI16SP imm))"
    using low [of 4 imm] unfolding m
    by (simp add: decode_rvc_def rvc_q1_def Let_def ci_fields(1,2) ci_reg back_16sp fits_def del: push_bit_and)
  show "c_valid (C_LUI rd imm) \<Longrightarrow> decode_rvc (c_encode (C_LUI rd imm)) = Ok (c_expand (C_LUI rd imm))"
    using low [of 12 imm] unfolding m
    by (simp add: decode_rvc_def rvc_q1_def Let_def ci_fields(1,2) ci_reg back_lui fits_def del: push_bit_and)
qed

lemma dec_sp:
  "c_valid (C_FLDSP rd imm) \<Longrightarrow> decode_rvc (c_encode (C_FLDSP rd imm)) = Ok (c_expand (C_FLDSP rd imm))"
  "c_valid (C_LWSP rd imm) \<Longrightarrow> decode_rvc (c_encode (C_LWSP rd imm)) = Ok (c_expand (C_LWSP rd imm))"
  "c_valid (C_LDSP rd imm) \<Longrightarrow> decode_rvc (c_encode (C_LDSP rd imm)) = Ok (c_expand (C_LDSP rd imm))"
  "c_valid (C_FSDSP rs2 imm) \<Longrightarrow> decode_rvc (c_encode (C_FSDSP rs2 imm)) = Ok (c_expand (C_FSDSP rs2 imm))"
  "c_valid (C_SWSP rs2 imm) \<Longrightarrow> decode_rvc (c_encode (C_SWSP rs2 imm)) = Ok (c_expand (C_SWSP rs2 imm))"
  "c_valid (C_SDSP rs2 imm) \<Longrightarrow> decode_rvc (c_encode (C_SDSP rs2 imm)) = Ok (c_expand (C_SDSP rs2 imm))"
  by (simp_all add: decode_rvc_def rvc_q2_def Let_def ci_fields(1,2) ci_reg back_ldsp back_lwsp back_sdsp back_swsp withinD
      del: push_bit_and)

lemma ci_rs2:
  "r < 32 \<Longrightarrow> unat (shr (ucast (ci q f rd (imm_rs2 r)) :: u32) 2 AND 0x1f) = r"
  "r < 32 \<Longrightarrow> unat (shr (ucast (ci q f rd (imm_rs2 r OR 0x1000)) :: u32) 2 AND 0x1f) = r"
  "unat (shr (ucast (ci q f rd 0) :: u32) 2 AND 0x1f) = 0" "unat (shr (ucast (ci q f rd 0x1000) :: u32) 2 AND 0x1f) = 0"
  "shr (ucast (ci q f rd (imm_rs2 r)) :: u32) 12 AND 1 = 0" "shr (ucast (ci q f rd (imm_rs2 r OR 0x1000)) :: u32) 12 AND 1 = 1"
  "shr (ucast (ci q f rd 0) :: u32) 12 AND 1 = 0" "shr (ucast (ci q f rd 0x1000) :: u32) 12 AND 1 = 1"
proof -
  have "shr (ucast (ci q f rd (imm_rs2 r)) :: u32) 2 AND 0x1f = take_bit 5 (of_nat r)"
    "shr (ucast (ci q f rd (imm_rs2 r OR 0x1000)) :: u32) 2 AND 0x1f = take_bit 5 (of_nat r)"
    "shr (ucast (ci q f rd 0) :: u32) 2 AND 0x1f = 0" "shr (ucast (ci q f rd 0x1000) :: u32) 2 AND 0x1f = 0"
    "shr (ucast (ci q f rd (imm_rs2 r)) :: u32) 12 AND 1 = 0" "shr (ucast (ci q f rd (imm_rs2 r OR 0x1000)) :: u32) 12 AND 1 = 1"
    "shr (ucast (ci q f rd 0) :: u32) 12 AND 1 = 0" "shr (ucast (ci q f rd 0x1000) :: u32) 12 AND 1 = 1"
    by (rule word32_eqI; simp add: enum_bits ci_def imm_rs2_def)+
  then show "r < 32 \<Longrightarrow> unat (shr (ucast (ci q f rd (imm_rs2 r)) :: u32) 2 AND 0x1f) = r"
    "r < 32 \<Longrightarrow> unat (shr (ucast (ci q f rd (imm_rs2 r OR 0x1000)) :: u32) 2 AND 0x1f) = r"
    "unat (shr (ucast (ci q f rd 0) :: u32) 2 AND 0x1f) = 0" "unat (shr (ucast (ci q f rd 0x1000) :: u32) 2 AND 0x1f) = 0"
    "shr (ucast (ci q f rd (imm_rs2 r)) :: u32) 12 AND 1 = 0" "shr (ucast (ci q f rd (imm_rs2 r OR 0x1000)) :: u32) 12 AND 1 = 1"
    "shr (ucast (ci q f rd 0) :: u32) 12 AND 1 = 0" "shr (ucast (ci q f rd 0x1000) :: u32) 12 AND 1 = 1"
    by (simp_all only: unat_field unat_0)
qed

lemma dec_jr:
  "c_valid (C_JR rs1) \<Longrightarrow> decode_rvc (c_encode (C_JR rs1)) = Ok (c_expand (C_JR rs1))"
  "c_valid (C_JALR rs1) \<Longrightarrow> decode_rvc (c_encode (C_JALR rs1)) = Ok (c_expand (C_JALR rs1))"
  "c_valid (C_MV rd rs2) \<Longrightarrow> decode_rvc (c_encode (C_MV rd rs2)) = Ok (c_expand (C_MV rd rs2))"
  "c_valid (C_ADD rd rs2) \<Longrightarrow> decode_rvc (c_encode (C_ADD rd rs2)) = Ok (c_expand (C_ADD rd rs2))"
  "decode_rvc (c_encode C_EBREAK) = Ok (c_expand C_EBREAK)"
  by (simp_all add: decode_rvc_def rvc_q2_def Let_def ci_fields(1,2) ci_reg ci_rs2 del: push_bit_and)

lemma decode_rvc_encode: "c_valid i \<Longrightarrow> decode_rvc (c_encode i) = Ok (c_expand i)"
  by (cases i) (simp_all only: dec_4spn dec_mem dec_i dec_upper dec_alu dec_jump dec_sp dec_jr)

section \<open>Every parcel that decodes was assembled\<close>

definition comes_from :: "u16 \<Rightarrow> instruction \<Rightarrow> bool" where
  "comes_from c i \<longleftrightarrow> (\<exists>a. c_valid a \<and> c_encode a = c \<and> c_expand a = i)"

lemma comesI: "c_valid a \<Longrightarrow> c_encode a = c \<Longrightarrow> comes_from c (c_expand a)"
  by (auto simp: comes_from_def)

lemma parcel_bits:
  "(ucast c :: u32) AND 3 = q \<Longrightarrow> bit (c :: u16) 0 = bit q 0" "(ucast c :: u32) AND 3 = q \<Longrightarrow> bit c 1 = bit q 1"
  "shr (ucast c :: u32) 13 AND 7 = f \<Longrightarrow> bit c 13 = bit f 0" "shr (ucast c :: u32) 13 AND 7 = f \<Longrightarrow> bit c 14 = bit f 1"
  "shr (ucast c :: u32) 13 AND 7 = f \<Longrightarrow> bit c 15 = bit f 2"
  by (auto simp: bit_simps)

lemma rp_field: "take_bit 3 (of_nat (rvc_rp w s)) = (ucast (shr w s AND 7) :: u16)"
  using take_bit_3_cases [of "shr w s"] by (auto simp: rvc_rp_def u32_masks)

lemma reg_field:
  "take_bit 5 (of_nat (unat (shr (ucast c :: u32) 7 AND 0x1f))) = (take_bit 5 (shr c 7) :: u16)"
  "take_bit 5 (of_nat (unat (shr (ucast c :: u32) 2 AND 0x1f))) = (take_bit 5 (shr c 2) :: u16)"
  by (rule word16_eqI; simp add: upt_16 enum_bits)+

lemma ci_again:
  assumes "(ucast c :: u32) AND 3 = ucast q" "shr (ucast c :: u32) 13 AND 7 = ucast f" "x AND 0x107C = c AND 0x107C"
  shows "ci q f (unat (shr (ucast c :: u32) 7 AND 0x1f)) x = c"
  unfolding ci_def reg_field assms(3)
  using parcel_bits(1,2) [OF assms(1)] parcel_bits(3-5) [OF assms(2)]
  by (intro word16_eqI) (simp add: upt_16 enum_bits, (simp add: numeral_2_eq_2 numeral_3_eq_3)?)

lemma ca_again:
  assumes "(ucast c :: u32) AND 3 = ucast q" "shr (ucast c :: u32) 13 AND 7 = ucast f"
  shows "x AND 0x1C60 = c AND 0x1C60 \<Longrightarrow> ca q f (rvc_rp (ucast c) 7) (rvc_rp (ucast c) 2) x = c"
    "(y AND 0x1C60) OR x = c AND 0x1C7C \<Longrightarrow> ca q f (rvc_rp (ucast c) 7) 0 y OR x = c"
    "x = c AND 0x1FE0 \<Longrightarrow> ca q f 0 (rvc_rp (ucast c) 2) 0 OR x = c"
    "x = c AND 0x1FFC \<Longrightarrow> ca q f 0 0 0 OR x = c"
proof -
  note b = parcel_bits(1,2) [OF assms(1)] parcel_bits(3-5) [OF assms(2)]
  show "x AND 0x1C60 = c AND 0x1C60 \<Longrightarrow> ca q f (rvc_rp (ucast c) 7) (rvc_rp (ucast c) 2) x = c"
    unfolding ca_def rp_field using b by (intro word16_eqI) (simp add: upt_16 enum_bits, (simp add: numeral_2_eq_2 numeral_3_eq_3)?)
  show "x = c AND 0x1FE0 \<Longrightarrow> ca q f 0 (rvc_rp (ucast c) 2) 0 OR x = c"
    unfolding ca_def rp_field using b by (intro word16_eqI) (simp add: upt_16 enum_bits, (simp add: numeral_2_eq_2 numeral_3_eq_3)?)
  show "x = c AND 0x1FFC \<Longrightarrow> ca q f 0 0 0 OR x = c"
    unfolding ca_def rp_field using b by (intro word16_eqI) (simp add: upt_16 enum_bits, (simp add: numeral_2_eq_2 numeral_3_eq_3)?)
  have "ca q f (rvc_rp (ucast c) 7) 0 y OR x = ca q f (rvc_rp (ucast c) 7) 0 0 OR ((y AND 0x1C60) OR x)"
    by (simp add: ca_def or.assoc)
  then show "(y AND 0x1C60) OR x = c AND 0x1C7C \<Longrightarrow> ca q f (rvc_rp (ucast c) 7) 0 y OR x = c"
    unfolding ca_def rp_field using b by (intro word16_eqI) (simp add: upt_16 enum_bits, (simp add: numeral_2_eq_2 numeral_3_eq_3)?)
qed

text \<open>The immediates the decoder reads, put back, and in their ranges.\<close>

lemma imm_again:
  fixes c :: u16
  defines "w \<equiv> ucast c :: u32"
  shows "imm6 (rvc_sext (shl (shr w 12 AND 1) 5 OR (shr w 2 AND 0x1f)) 5 (-64)) = c AND 0x107C"
    "imm_16sp (rvc_sext (shl (shr w 12 AND 1) 9 OR shl (shr w 3 AND 3) 7 OR shl (shr w 5 AND 1) 6
      OR shl (shr w 2 AND 1) 5 OR shl (shr w 6 AND 1) 4) 9 (- 0x400)) = c AND 0x107C"
    "imm_lui (rvc_sext (shl (shr w 12 AND 1) 17 OR shl (shr w 2 AND 0x1f) 12) 17 (- 0x40000)) = c AND 0x107C"
    "imm_branch (rvc_branch_imm w) = c AND 0x1C7C" "imm_jump (rvc_jump_imm w) = c AND 0x1FFC"
  unfolding w_def imm6_def imm_16sp_def imm_lui_def imm_branch_def imm_jump_def rvc_branch_imm_def rvc_jump_imm_def
    rvc_sext_def bit_test_iff Let_def
  by (cases "bit c 12"; rule word16_eqI; simp add: upt_16 enum_bits bit_im; (simp add: numeral_2_eq_2 numeral_3_eq_3)?)+

lemma uimm_again:
  fixes c :: u16
  defines "w \<equiv> ucast c :: u32"
  shows "imm_4spn (ucast (shl (shr w 6 AND 1) 2 OR shl (shr w 5 AND 1) 3 OR shl (shr w 11 AND 3) 4 OR shl (shr w 7 AND 0xf) 6))
      = c AND 0x1FE0"
    "imm_w (ucast (shl (shr w 6 AND 1) 2 OR shl (shr w 10 AND 7) 3 OR shl (shr w 5 AND 1) 6)) = c AND 0x1C60"
    "imm_d (ucast (shl (shr w 10 AND 7) 3 OR shl (shr w 5 AND 3) 6)) = c AND 0x1C60"
    "imm6 (of_nat (unat (shl (shr w 12 AND 1) 5 OR (shr w 2 AND 0x1f)))) = c AND 0x107C"
    "imm_ldsp (ucast (shl (shr w 12 AND 1) 5 OR shl (shr w 5 AND 3) 3 OR shl (shr w 2 AND 7) 6)) = c AND 0x107C"
    "imm_lwsp (ucast (shl (shr w 12 AND 1) 5 OR shl (shr w 4 AND 7) 2 OR shl (shr w 2 AND 3) 6)) = c AND 0x107C"
    "imm_sdsp (ucast (shl (shr w 10 AND 7) 3 OR shl (shr w 7 AND 7) 6)) = c AND 0x1F80"
    "imm_swsp (ucast (shl (shr w 9 AND 0xf) 2 OR shl (shr w 7 AND 3) 6)) = c AND 0x1F80"
  unfolding w_def imm6_def imm_4spn_def imm_w_def imm_d_def imm_ldsp_def imm_lwsp_def imm_sdsp_def imm_swsp_def
  by (rule word16_eqI; simp add: upt_16 enum_bits bit_im; (simp add: numeral_2_eq_2 numeral_3_eq_3)?)+

lemma imm_ranges:
  fixes w :: u32
  shows "fits 6 (rvc_sext (shl (shr w 12 AND 1) 5 OR (shr w 2 AND 0x1f)) 5 (-64))"
    "fits 10 (rvc_sext (shl (shr w 12 AND 1) 9 OR shl (shr w 3 AND 3) 7 OR shl (shr w 5 AND 1) 6
      OR shl (shr w 2 AND 1) 5 OR shl (shr w 6 AND 1) 4) 9 (- 0x400))"
    "fits 18 (rvc_sext (shl (shr w 12 AND 1) 17 OR shl (shr w 2 AND 0x1f) 12) 17 (- 0x40000))"
    "fits 9 (rvc_branch_imm w)" "fits 12 (rvc_jump_imm w)"
    "take_bit 4 (rvc_sext (shl (shr w 12 AND 1) 9 OR shl (shr w 3 AND 3) 7 OR shl (shr w 5 AND 1) 6
      OR shl (shr w 2 AND 1) 5 OR shl (shr w 6 AND 1) 4) 9 (- 0x400)) = 0"
  unfolding fits_def rvc_sext_def rvc_branch_imm_def rvc_jump_imm_def Let_def bit_test_iff
  by (cases "bit w 12"; rule word64_eqI; simp add: enum_bits)+

lemma uimm_ranges:
  fixes w :: u32
  shows "within 0x3FC (ucast (shl (shr w 6 AND 1) 2 OR shl (shr w 5 AND 1) 3 OR shl (shr w 11 AND 3) 4 OR shl (shr w 7 AND 0xf) 6))"
    "within 0x7C (ucast (shl (shr w 6 AND 1) 2 OR shl (shr w 10 AND 7) 3 OR shl (shr w 5 AND 1) 6))"
    "within 0xF8 (ucast (shl (shr w 10 AND 7) 3 OR shl (shr w 5 AND 3) 6))"
    "within 0x1F8 (ucast (shl (shr w 12 AND 1) 5 OR shl (shr w 5 AND 3) 3 OR shl (shr w 2 AND 7) 6))"
    "within 0xFC (ucast (shl (shr w 12 AND 1) 5 OR shl (shr w 4 AND 7) 2 OR shl (shr w 2 AND 3) 6))"
    "within 0x1F8 (ucast (shl (shr w 10 AND 7) 3 OR shl (shr w 7 AND 7) 6))"
    "within 0xFC (ucast (shl (shr w 9 AND 0xf) 2 OR shl (shr w 7 AND 3) 6))"
  unfolding within_def by (rule word64_eqI; simp add: enum_bits)+

lemma creg_rp: "creg (rvc_rp w s)"
  using rvc_rp_range [of w s] by (simp add: creg_def)

lemma comes_q0:
  fixes c :: u16
  defines "w \<equiv> ucast c :: u32"
  assumes q: "w AND 3 = ucast (0 :: u16)"
  shows "shr w 13 AND 7 = ucast (0 :: u16) \<Longrightarrow>
      u = shl (shr w 6 AND 1) 2 OR shl (shr w 5 AND 1) 3 OR shl (shr w 11 AND 3) 4 OR shl (shr w 7 AND 0xf) 6 \<Longrightarrow>
      u \<noteq> 0 \<Longrightarrow> comes_from c (c_expand (C_ADDI4SPN (rvc_rp w 2) (ucast u)))"
    "shr w 13 AND 7 = ucast (c_mem_f3 op) \<Longrightarrow>
      u = (if op = CLw \<or> op = CSw then shl (shr w 6 AND 1) 2 OR shl (shr w 10 AND 7) 3 OR shl (shr w 5 AND 1) 6
        else shl (shr w 10 AND 7) 3 OR shl (shr w 5 AND 3) 6) \<Longrightarrow>
      comes_from c (c_expand (C_MEM op (rvc_rp w 2) (rvc_rp w 7) (ucast u)))"
proof -
  have nz: "ucast u = (0 :: i64) \<longleftrightarrow> u = 0" for u :: u32
    using unat_ucast_up [of u, where 'b = 64] by (simp add: unat_eq_zero [symmetric])
  show "shr w 13 AND 7 = ucast (0 :: u16) \<Longrightarrow>
      u = shl (shr w 6 AND 1) 2 OR shl (shr w 5 AND 1) 3 OR shl (shr w 11 AND 3) 4 OR shl (shr w 7 AND 0xf) 6 \<Longrightarrow>
      u \<noteq> 0 \<Longrightarrow> comes_from c (c_expand (C_ADDI4SPN (rvc_rp w 2) (ucast u)))"
    by (rule comesI) (simp_all only: c_valid.simps c_encode.simps creg_rp uimm_ranges nz simp_thms,
      simp only: w_def ca_again(3) [OF q [unfolded w_def]] uimm_again)
  show "shr w 13 AND 7 = ucast (c_mem_f3 op) \<Longrightarrow>
      u = (if op = CLw \<or> op = CSw then shl (shr w 6 AND 1) 2 OR shl (shr w 10 AND 7) 3 OR shl (shr w 5 AND 1) 6
        else shl (shr w 10 AND 7) 3 OR shl (shr w 5 AND 3) 6) \<Longrightarrow>
      comes_from c (c_expand (C_MEM op (rvc_rp w 2) (rvc_rp w 7) (ucast u)))"
    by (rule comesI; cases "op = CLw \<or> op = CSw")
      (simp_all only: c_valid.simps c_encode.simps creg_rp uimm_ranges simp_thms if_True if_False,
       simp_all only: w_def, (rule ca_again(1) [OF q [unfolded w_def]]; simp add: uimm_again del: push_bit_and)+)
qed

lemma from_q0:
  fixes c :: u16
  assumes "(ucast c :: u32) AND 3 = 0"
  shows "all_ok (comes_from c) (rvc_q0 (ucast c) (shr (ucast c) 13 AND 7))"
proof -
  show ?thesis
    unfolding rvc_q0_def Let_def
    using comes_q0(1) [of c, OF _ _ refl] comes_q0(2) [of c CFld, OF _ _ refl] comes_q0(2) [of c CLw, OF _ _ refl]
      comes_q0(2) [of c CLd, OF _ _ refl] comes_q0(2) [of c CFsd, OF _ _ refl] comes_q0(2) [of c CSw, OF _ _ refl]
      comes_q0(2) [of c CSd, OF _ _ refl] assms
    by (intro all_ok_if) (simp_all del: push_bit_and)
qed

lemma comes_q1:
  fixes c :: u16
  defines "w \<equiv> ucast c :: u32" and "rd \<equiv> unat (shr (ucast c :: u32) 7 AND 0x1f)"
    and "simm \<equiv> rvc_sext (shl (shr (ucast c :: u32) 12 AND 1) 5 OR (shr (ucast c) 2 AND 0x1f)) 5 (-64)"
  assumes q: "w AND 3 = ucast (1 :: u16)"
  shows "shr w 13 AND 7 = ucast (0 :: u16) \<Longrightarrow> comes_from c (c_expand (C_ADDI rd simm))"
    "shr w 13 AND 7 = ucast (1 :: u16) \<Longrightarrow> rd \<noteq> 0 \<Longrightarrow> comes_from c (c_expand (C_ADDIW rd simm))"
    "shr w 13 AND 7 = ucast (2 :: u16) \<Longrightarrow> comes_from c (c_expand (C_LI rd simm))"
    "shr w 13 AND 7 = ucast (3 :: u16) \<Longrightarrow> rd = 2 \<Longrightarrow>
      v = rvc_sext (shl (shr w 12 AND 1) 9 OR shl (shr w 3 AND 3) 7 OR shl (shr w 5 AND 1) 6
        OR shl (shr w 2 AND 1) 5 OR shl (shr w 6 AND 1) 4) 9 (- 0x400) \<Longrightarrow> v \<noteq> 0 \<Longrightarrow> comes_from c (c_expand (C_ADDI16SP v))"
    "shr w 13 AND 7 = ucast (3 :: u16) \<Longrightarrow> rd \<noteq> 2 \<Longrightarrow> rd \<noteq> 0 \<Longrightarrow>
      v = rvc_sext (shl (shr w 12 AND 1) 17 OR shl (shr w 2 AND 0x1f) 12) 17 (- 0x40000) \<Longrightarrow> v \<noteq> 0 \<Longrightarrow>
      comes_from c (c_expand (C_LUI rd v))"
    "shr w 13 AND 7 = ucast (5 :: u16) \<Longrightarrow> comes_from c (c_expand (C_J (rvc_jump_imm w)))"
    "shr w 13 AND 7 = ucast (6 :: u16) \<Longrightarrow> comes_from c (c_expand (C_BEQZ (rvc_rp w 7) (rvc_branch_imm w)))"
    "shr w 13 AND 7 = ucast (7 :: u16) \<Longrightarrow> comes_from c (c_expand (C_BNEZ (rvc_rp w 7) (rvc_branch_imm w)))"
proof -
  note q = q [unfolded w_def]
  note r = rvc_reg_less
  note simps = c_valid.simps c_encode.simps imm_ranges rvc_fits_signed creg_rp r simp_thms
  have x: "x = c AND 0x107C \<Longrightarrow> x AND 0x107C = c AND 0x107C" for x by simp
  have y: "x = c AND 0x1C7C \<Longrightarrow> (0 AND 0x1C60) OR x = c AND 0x1C7C" for x by simp
  show "shr w 13 AND 7 = ucast (0 :: u16) \<Longrightarrow> comes_from c (c_expand (C_ADDI rd simm))"
    "shr w 13 AND 7 = ucast (2 :: u16) \<Longrightarrow> comes_from c (c_expand (C_LI rd simm))"
    "shr w 13 AND 7 = ucast (1 :: u16) \<Longrightarrow> rd \<noteq> 0 \<Longrightarrow> comes_from c (c_expand (C_ADDIW rd simm))"
    unfolding w_def rd_def simm_def
    by (rule comesI; (simp only: simps; fail)?; simp only: c_encode.simps; rule ci_again [OF q _ x [OF imm_again(1)]]; assumption)+
  show "shr w 13 AND 7 = ucast (3 :: u16) \<Longrightarrow> rd = 2 \<Longrightarrow>
      v = rvc_sext (shl (shr w 12 AND 1) 9 OR shl (shr w 3 AND 3) 7 OR shl (shr w 5 AND 1) 6
        OR shl (shr w 2 AND 1) 5 OR shl (shr w 6 AND 1) 4) 9 (- 0x400) \<Longrightarrow> v \<noteq> 0 \<Longrightarrow> comes_from c (c_expand (C_ADDI16SP v))"
    unfolding w_def rd_def using ci_again [OF q _ x [OF imm_again(2)], of 3]
    by (intro comesI; simp only: simps)
  show "shr w 13 AND 7 = ucast (3 :: u16) \<Longrightarrow> rd \<noteq> 2 \<Longrightarrow> rd \<noteq> 0 \<Longrightarrow>
      v = rvc_sext (shl (shr w 12 AND 1) 17 OR shl (shr w 2 AND 0x1f) 12) 17 (- 0x40000) \<Longrightarrow> v \<noteq> 0 \<Longrightarrow>
      comes_from c (c_expand (C_LUI rd v))"
    unfolding w_def rd_def using ci_again [OF q _ x [OF imm_again(3)], of 3]
    by (intro comesI; simp only: simps)
  show "shr w 13 AND 7 = ucast (5 :: u16) \<Longrightarrow> comes_from c (c_expand (C_J (rvc_jump_imm w)))"
    unfolding w_def using ca_again(4) [OF q _ imm_again(5), of 5]
    by (intro comesI; simp only: simps)
  show "shr w 13 AND 7 = ucast (6 :: u16) \<Longrightarrow> comes_from c (c_expand (C_BEQZ (rvc_rp w 7) (rvc_branch_imm w)))"
    "shr w 13 AND 7 = ucast (7 :: u16) \<Longrightarrow> comes_from c (c_expand (C_BNEZ (rvc_rp w 7) (rvc_branch_imm w)))"
    unfolding w_def using ca_again(2) [OF q _ y [OF imm_again(4)], of 6] ca_again(2) [OF q _ y [OF imm_again(4)], of 7]
    by (intro comesI; simp only: simps)+
qed

lemma comes_alu:
  fixes c :: u16
  defines "w \<equiv> ucast c :: u32"
    and "sh \<equiv> unat (shl (shr (ucast c :: u32) 12 AND 1) 5 OR (shr (ucast c) 2 AND 0x1f))"
    and "simm \<equiv> rvc_sext (shl (shr (ucast c :: u32) 12 AND 1) 5 OR (shr (ucast c) 2 AND 0x1f)) 5 (-64)"
  assumes q: "w AND 3 = ucast (1 :: u16)" and f: "shr w 13 AND 7 = ucast (4 :: u16)"
  shows "shr w 10 AND 3 = 0 \<Longrightarrow> comes_from c (c_expand (C_SRLI (rvc_rp w 7) sh))"
    "shr w 10 AND 3 = 1 \<Longrightarrow> comes_from c (c_expand (C_SRAI (rvc_rp w 7) sh))"
    "shr w 10 AND 3 = 2 \<Longrightarrow> comes_from c (c_expand (C_ANDI (rvc_rp w 7) simm))"
    "shr w 10 AND 3 = 3 \<Longrightarrow> shr w 12 AND 1 = ucast (shr (c_alu_code op) 12) \<Longrightarrow> shr w 5 AND 3 = ucast (shr (c_alu_code op) 5 AND 3) \<Longrightarrow>
      comes_from c (c_expand (C_ALU op (rvc_rp w 7) (rvc_rp w 2)))"
proof -
  note q = q [unfolded w_def] and f = f [unfolded w_def]
  have b: "bit c 10 = bit k 0" "bit c 11 = bit k 1" if "shr (ucast c :: u32) 10 AND 3 = k" for k
    using that by (auto simp: bit_simps)
  have m: "(y AND 0x1C60) OR (c AND 0x107C) = c AND 0x1C7C" if "shr (ucast c :: u32) 10 AND 3 = k" "y = shl (ucast k) 10" for k y
    unfolding that(2) using b [OF that(1)] that(1)
    by (intro word16_eqI) (auto simp: upt_16 enum_bits)
  show "shr w 10 AND 3 = 0 \<Longrightarrow> comes_from c (c_expand (C_SRLI (rvc_rp w 7) sh))"
    "shr w 10 AND 3 = 1 \<Longrightarrow> comes_from c (c_expand (C_SRAI (rvc_rp w 7) sh))"
    "shr w 10 AND 3 = 2 \<Longrightarrow> comes_from c (c_expand (C_ANDI (rvc_rp w 7) simm))"
    unfolding w_def sh_def simm_def
    using m [of 0 0] m [of 1 "0x400"] m [of 2 "0x800"] ca_again(2) [OF q f, where x = "c AND 0x107C"]
    by (intro comesI; simp only: c_valid.simps c_encode.simps creg_rp rvc_shamt_less imm_ranges imm_again uimm_again simp_thms; simp)+
  have d: "bit c 12 = bit u 0" if "shr (ucast c :: u32) 12 AND 1 = u" for u
    using that by (auto simp: bit_simps)
  have e: "bit c 5 = bit u 0" "bit c 6 = bit u 1" if "shr (ucast c :: u32) 5 AND 3 = u" for u
    using that by (auto simp: bit_simps)
  have k: "c_alu_code op AND 0x1C60 = c AND 0x1C60"
    if "shr (ucast c :: u32) 10 AND 3 = 3" "shr (ucast c :: u32) 12 AND 1 = ucast (shr (c_alu_code op) 12)"
      "shr (ucast c :: u32) 5 AND 3 = ucast (shr (c_alu_code op) 5 AND 3)"
    using b [OF that(1)] d [OF that(2)] e [OF that(3)]
    by (cases op; intro word16_eqI; simp add: upt_16 enum_bits)
  show "shr w 10 AND 3 = 3 \<Longrightarrow> shr w 12 AND 1 = ucast (shr (c_alu_code op) 12) \<Longrightarrow> shr w 5 AND 3 = ucast (shr (c_alu_code op) 5 AND 3) \<Longrightarrow>
      comes_from c (c_expand (C_ALU op (rvc_rp w 7) (rvc_rp w 2)))"
    unfolding w_def by (rule comesI; (simp only: c_valid.simps creg_rp simp_thms; fail)?)
      (simp only: c_encode.simps, rule ca_again(1) [OF q f], rule k; assumption)
qed

lemma from_q1_alu:
  fixes c :: u16
  assumes q: "(ucast c :: u32) AND 3 = 1" and f: "shr (ucast c :: u32) 13 AND 7 = 4"
  shows "all_ok (comes_from c) (rvc_q1_alu (ucast c))"
proof -
  have t: "all_ok (comes_from c) (match_table (ucast c)
      [((0, 0b00), RType Sub (rvc_rp (ucast c) 7) (rvc_rp (ucast c) 7) (rvc_rp (ucast c) 2)),
       ((0, 0b01), RType Xor (rvc_rp (ucast c) 7) (rvc_rp (ucast c) 7) (rvc_rp (ucast c) 2)),
       ((0, 0b10), RType Or (rvc_rp (ucast c) 7) (rvc_rp (ucast c) 7) (rvc_rp (ucast c) 2)),
       ((0, 0b11), RType And (rvc_rp (ucast c) 7) (rvc_rp (ucast c) 7) (rvc_rp (ucast c) 2)),
       ((1, 0b00), RType Subw (rvc_rp (ucast c) 7) (rvc_rp (ucast c) 7) (rvc_rp (ucast c) 2)),
       ((1, 0b01), RType Addw (rvc_rp (ucast c) 7) (rvc_rp (ucast c) 7) (rvc_rp (ucast c) 2))]
      (shr (ucast c :: u32) 12 AND 1, shr (ucast c :: u32) 5 AND 3))" if "shr (ucast c :: u32) 10 AND 3 = 3"
    using comes_alu(4) [of c CSub, OF _ _ that] comes_alu(4) [of c CXor, OF _ _ that] comes_alu(4) [of c COr, OF _ _ that]
      comes_alu(4) [of c CAnd, OF _ _ that] comes_alu(4) [of c CSubw, OF _ _ that] comes_alu(4) [of c CAddw, OF _ _ that] q f
    by (simp add: match_table_def)
  show ?thesis
    unfolding rvc_q1_alu_def Let_def
    using comes_alu(1-3) [of c] q f by (intro all_ok_if t) (simp_all del: push_bit_and)
qed

lemma from_q1:
  fixes c :: u16
  assumes "(ucast c :: u32) AND 3 = 1"
  shows "all_ok (comes_from c) (rvc_q1 (ucast c) (shr (ucast c) 13 AND 7))"
  unfolding rvc_q1_def Let_def
  using comes_q1(1-3) [of c] comes_q1(4) [of c, OF _ _ _ refl] comes_q1(5) [of c, OF _ _ _ _ refl] comes_q1(6-8) [of c] assms
  by (intro all_ok_if from_q1_alu) (simp_all del: push_bit_and)

lemma comes_q2:
  fixes c :: u16
  defines "w \<equiv> ucast c :: u32" and "rd \<equiv> unat (shr (ucast c :: u32) 7 AND 0x1f)"
    and "rs2 \<equiv> unat (shr (ucast c :: u32) 2 AND 0x1f)"
    and "ldsp \<equiv> ucast (shl (shr (ucast c :: u32) 12 AND 1) 5 OR shl (shr (ucast c) 5 AND 3) 3 OR shl (shr (ucast c) 2 AND 7) 6)"
    and "sdsp \<equiv> ucast (shl (shr (ucast c :: u32) 10 AND 7) 3 OR shl (shr (ucast c) 7 AND 7) 6)"
  assumes q: "w AND 3 = ucast (2 :: u16)"
  shows "shr w 13 AND 7 = ucast (0 :: u16) \<Longrightarrow>
      comes_from c (c_expand (C_SLLI rd (unat (shl (shr w 12 AND 1) 5 OR (shr w 2 AND 0x1f)))))"
    "shr w 13 AND 7 = ucast (1 :: u16) \<Longrightarrow> comes_from c (c_expand (C_FLDSP rd ldsp))"
    "shr w 13 AND 7 = ucast (2 :: u16) \<Longrightarrow> rd \<noteq> 0 \<Longrightarrow> comes_from c (c_expand (C_LWSP rd
      (ucast (shl (shr w 12 AND 1) 5 OR shl (shr w 4 AND 7) 2 OR shl (shr w 2 AND 3) 6))))"
    "shr w 13 AND 7 = ucast (3 :: u16) \<Longrightarrow> rd \<noteq> 0 \<Longrightarrow> comes_from c (c_expand (C_LDSP rd ldsp))"
    "shr w 13 AND 7 = ucast (5 :: u16) \<Longrightarrow> comes_from c (c_expand (C_FSDSP rs2 sdsp))"
    "shr w 13 AND 7 = ucast (6 :: u16) \<Longrightarrow> comes_from c (c_expand (C_SWSP rs2
      (ucast (shl (shr w 9 AND 0xf) 2 OR shl (shr w 7 AND 3) 6))))"
    "shr w 13 AND 7 = ucast (7 :: u16) \<Longrightarrow> comes_from c (c_expand (C_SDSP rs2 sdsp))"
proof -
  note q = q [unfolded w_def]
  note r = rvc_reg_less
  note simps = c_valid.simps c_encode.simps uimm_ranges rvc_shamt_less r simp_thms
  have x: "x = c AND 0x107C \<Longrightarrow> x AND 0x107C = c AND 0x107C" for x by simp
  have s: "ci 2 f 0 (imm_rs2 (unat (shr (ucast c :: u32) 2 AND 0x1f))) OR x = c"
    if "shr (ucast c :: u32) 13 AND 7 = ucast f" "x = c AND 0x1F80" for f x
    unfolding that(2) ci_def imm_rs2_def reg_field
    using parcel_bits(1,2) [OF q] parcel_bits(3-5) [OF that(1)]
    by (intro word16_eqI) (simp add: upt_16 enum_bits, (simp add: numeral_2_eq_2 numeral_3_eq_3)?)
  show "shr w 13 AND 7 = ucast (0 :: u16) \<Longrightarrow>
      comes_from c (c_expand (C_SLLI rd (unat (shl (shr w 12 AND 1) 5 OR (shr w 2 AND 0x1f)))))"
    unfolding w_def rd_def using ci_again [OF q _ x [OF uimm_again(4)], of 0] by (intro comesI; simp only: simps)
  show "shr w 13 AND 7 = ucast (1 :: u16) \<Longrightarrow> comes_from c (c_expand (C_FLDSP rd ldsp))"
    "shr w 13 AND 7 = ucast (3 :: u16) \<Longrightarrow> rd \<noteq> 0 \<Longrightarrow> comes_from c (c_expand (C_LDSP rd ldsp))"
    unfolding w_def rd_def ldsp_def using ci_again [OF q _ x [OF uimm_again(5)]] by (intro comesI; simp only: simps)+
  show "shr w 13 AND 7 = ucast (2 :: u16) \<Longrightarrow> rd \<noteq> 0 \<Longrightarrow> comes_from c (c_expand (C_LWSP rd
      (ucast (shl (shr w 12 AND 1) 5 OR shl (shr w 4 AND 7) 2 OR shl (shr w 2 AND 3) 6))))"
    unfolding w_def rd_def using ci_again [OF q _ x [OF uimm_again(6)], of 2] by (intro comesI; simp only: simps)
  show "shr w 13 AND 7 = ucast (5 :: u16) \<Longrightarrow> comes_from c (c_expand (C_FSDSP rs2 sdsp))"
    "shr w 13 AND 7 = ucast (7 :: u16) \<Longrightarrow> comes_from c (c_expand (C_SDSP rs2 sdsp))"
    unfolding w_def rs2_def sdsp_def using s [OF _ uimm_again(7)] by (intro comesI; simp only: simps)+
  show "shr w 13 AND 7 = ucast (6 :: u16) \<Longrightarrow> comes_from c (c_expand (C_SWSP rs2
      (ucast (shl (shr w 9 AND 0xf) 2 OR shl (shr w 7 AND 3) 6))))"
    unfolding w_def rs2_def using s [OF _ uimm_again(8), of 6] by (intro comesI; simp only: simps)
qed

lemma comes_jr:
  fixes c :: u16
  defines "w \<equiv> ucast c :: u32" and "rd \<equiv> unat (shr (ucast c :: u32) 7 AND 0x1f)"
    and "rs2 \<equiv> unat (shr (ucast c :: u32) 2 AND 0x1f)"
  assumes q: "w AND 3 = ucast (2 :: u16)" and f: "shr w 13 AND 7 = ucast (4 :: u16)"
  shows "shr w 12 AND 1 = 0 \<Longrightarrow> rs2 = 0 \<Longrightarrow> rd \<noteq> 0 \<Longrightarrow> comes_from c (c_expand (C_JR rd))"
    "shr w 12 AND 1 = 0 \<Longrightarrow> rs2 \<noteq> 0 \<Longrightarrow> comes_from c (c_expand (C_MV rd rs2))"
    "shr w 12 AND 1 = 1 \<Longrightarrow> rs2 = 0 \<Longrightarrow> rd \<noteq> 0 \<Longrightarrow> comes_from c (c_expand (C_JALR rd))"
    "shr w 12 AND 1 = 1 \<Longrightarrow> rs2 \<noteq> 0 \<Longrightarrow> rd \<noteq> 0 \<Longrightarrow> comes_from c (c_expand (C_ADD rd rs2))"
    "shr w 12 AND 1 = 1 \<Longrightarrow> rs2 = 0 \<Longrightarrow> rd = 0 \<Longrightarrow> comes_from c (c_expand C_EBREAK)"
proof -
  note q = q [unfolded w_def] and f = f [unfolded w_def]
  have m: "imm_rs2 (unat (shr (ucast c :: u32) 2 AND 0x1f)) AND 0x107C = c AND 0x7C"
    "(imm_rs2 (unat (shr (ucast c :: u32) 2 AND 0x1f)) OR 0x1000) AND 0x107C = (c AND 0x7C) OR 0x1000"
    unfolding imm_rs2_def reg_field
    by (rule word16_eqI; simp add: upt_16 enum_bits; (simp add: numeral_2_eq_2 numeral_3_eq_3)?)+
  have b: "c AND 0x107C = (if bit c 12 then (c AND 0x7C) OR 0x1000 else c AND 0x7C)"
    by (cases "bit c 12"; intro word16_eqI; simp add: upt_16 enum_bits)
  have t: "shr (ucast c :: u32) 12 AND 1 = 0 \<Longrightarrow> \<not> bit c 12" "shr (ucast c :: u32) 12 AND 1 = 1 \<Longrightarrow> bit c 12"
    by (auto simp: bit_tests bit_simps)
  have z: "c AND 0x7C = 0" if "unat (shr (ucast c :: u32) 2 AND 0x1f) = 0"
    using m(1) unfolding that by (simp add: imm_rs2_def)
  note simps = c_valid.simps c_encode.simps rvc_reg_less simp_thms
  show "shr w 12 AND 1 = 0 \<Longrightarrow> rs2 = 0 \<Longrightarrow> rd \<noteq> 0 \<Longrightarrow> comes_from c (c_expand (C_JR rd))"
    unfolding w_def rd_def rs2_def using ci_again [OF q f, of 0] b t z by (intro comesI; simp only: simps) simp
  show "shr w 12 AND 1 = 0 \<Longrightarrow> rs2 \<noteq> 0 \<Longrightarrow> comes_from c (c_expand (C_MV rd rs2))"
    unfolding w_def rd_def rs2_def using ci_again [OF q f] m b t by (intro comesI; simp only: simps) simp
  show "shr w 12 AND 1 = 1 \<Longrightarrow> rs2 = 0 \<Longrightarrow> rd \<noteq> 0 \<Longrightarrow> comes_from c (c_expand (C_JALR rd))"
    unfolding w_def rd_def rs2_def using ci_again [OF q f, of "0x1000"] b t z by (intro comesI; simp only: simps) simp
  show "shr w 12 AND 1 = 1 \<Longrightarrow> rs2 \<noteq> 0 \<Longrightarrow> rd \<noteq> 0 \<Longrightarrow> comes_from c (c_expand (C_ADD rd rs2))"
    unfolding w_def rd_def rs2_def using ci_again [OF q f] m b t by (intro comesI; simp only: simps) simp
  have e: "ci 2 4 0 0x1000 = 0x9002" by code_simp
  show "shr w 12 AND 1 = 1 \<Longrightarrow> rs2 = 0 \<Longrightarrow> rd = 0 \<Longrightarrow> comes_from c (c_expand C_EBREAK)"
    unfolding w_def rd_def rs2_def using ci_again [OF q f, of "0x1000"] b t z e by (intro comesI; simp only: simps) simp
qed

lemma from_q2:
  fixes c :: u16
  assumes "(ucast c :: u32) AND 3 = 2"
  shows "all_ok (comes_from c) (rvc_q2 (ucast c) (shr (ucast c) 13 AND 7))"
  unfolding rvc_q2_def Let_def
  using comes_q2 [of c] comes_jr [of c] assms
  by (intro all_ok_if) (simp_all del: push_bit_and)

lemma decode_rvc_comes: "decode_rvc c = Ok i \<Longrightarrow> comes_from c i"
proof -
  have "all_ok (comes_from c) (decode_rvc c)"
    unfolding decode_rvc_def Let_def by (intro all_ok_if from_q0 from_q1 from_q2) simp_all
  then show "decode_rvc c = Ok i \<Longrightarrow> comes_from c i"
    by (simp add: all_ok_def)
qed

lemma decode_rvc_iff: "decode_rvc c = Ok i \<longleftrightarrow> comes_from c i"
  using decode_rvc_comes decode_rvc_encode by (auto simp: comes_from_def)

section \<open>Properties\<close>



end
