(* ===== verification/UnitTests.thy ===== *)
theory UnitTests
  imports MemProps Loader
begin

text \<open>
  The repository's own unit tests (the \<open>#[cfg(test)]\<close> modules of \<open>src/cpu/csr.rs\<close>, \<open>src/clint.rs\<close>,
  \<open>src/cpu/decode.rs\<close>, \<open>src/bus.rs\<close>, \<open>src/cpu/mmu.rs\<close>, \<open>src/cpu/mod.rs\<close>, \<open>src/cpu/execute.rs\<close> and
  \<open>src/loader.rs\<close>), as statements about the model: a test is the conjunction of its assertions, and it
  fails as well where one of its calls panics or one of its \<open>unwrap()\<close>s meets an error.  That the model
  passes them ties it to what its authors check the program against.
\<close>

abbreviation succeeds :: "bool option \<Rightarrow> bool" where
  "succeeds r \<equiv> r = Some True"

section \<open>Control and status registers\<close>

definition misa_hardwired :: bool where
  "misa_hardwired =
    (let s = Csr_new; s' = Csr_write s 0x301 0
     in Csr_read s 0x301 = 0x8000000000041101 \<and> Csr_read s' 0x301 = 0x8000000000041101)"

definition mhartid_hardwired_zero :: bool where
  "mhartid_hardwired_zero =
    (let s = Csr_new; s' = Csr_write s 0xf14 0xdead
     in Csr_read s 0xf14 = 0 \<and> Csr_read s' 0xf14 = 0)"

definition mtvec_round_trips :: bool where
  "mtvec_round_trips = (Csr_read (Csr_write Csr_new 0x305 0x80001000) 0x305 = 0x80001000)"

definition unknown_csr_reads_zero :: bool where
  "unknown_csr_reads_zero = (Csr_read Csr_new 0x999 = 0)"

definition mstatus_mie_mpie_mpp :: bool where
  "mstatus_mie_mpie_mpp =
    (let s = Csr_new\<lparr>mstatus := 0b1000\<rparr>;
         t = Csr_trap_entry s 3;
         r = Csr_mret t
     in Csr_mie_bit s = 1 \<and>
        Csr_mie_bit t = 0 \<and> shr (mstatus t) 7 AND 1 = 1 \<and> shr (mstatus t) 11 AND 3 = 3 \<and>
        Csr_mie_bit r = 1 \<and> shr (mstatus r) 7 AND 1 = 1)"

definition s_trap_entry_from_u_mode :: bool where
  "s_trap_entry_from_u_mode =
    (let s = Csr_s_trap_entry (Csr_new\<lparr>mstatus := 0b00000010\<rparr>) False
     in shr (mstatus s) 1 AND 1 = 0 \<and> shr (mstatus s) 5 AND 1 = 1 \<and> shr (mstatus s) 8 AND 1 = 0)"

definition s_trap_entry_from_s_mode :: bool where
  "s_trap_entry_from_s_mode =
    (let s = Csr_s_trap_entry (Csr_new\<lparr>mstatus := 0b00000010\<rparr>) True
     in shr (mstatus s) 8 AND 1 = 1)"

definition s_ret_restores_sie :: bool where
  "s_ret_restores_sie =
    (let s = Csr_s_ret (Csr_new\<lparr>mstatus := 0b00100000\<rparr>)
     in shr (mstatus s) 1 AND 1 = 1 \<and> shr (mstatus s) 5 AND 1 = 1 \<and> shr (mstatus s) 8 AND 1 = 0)"

definition sstatus_filters_mstatus :: bool where
  "sstatus_filters_mstatus =
    (let s = Csr_new\<lparr>mstatus := 0x2\<rparr>;
         sstatus = Csr_read s 0x100;
         s' = s\<lparr>mstatus := 0x8\<rparr>
     in sstatus AND 0x2 = 0x2 \<and> shr sstatus 32 AND 3 = 2 \<and> Csr_read s' 0x100 AND 0x8 = 0)"

definition sie_filters_mie :: bool where
  "sie_filters_mie =
    (let s = Csr_new\<lparr>mie := 0xFFFFFFFF\<rparr>;
         s' = Csr_write s 0x104 0xFFFF
     in Csr_read s 0x104 = 0x222 \<and>
        mie s' AND NOT 0x222 = 0xFFFFFFFF AND NOT 0x222 \<and> mie s' AND 0x222 = 0x222)"

definition medeleg_round_trips :: bool where
  "medeleg_round_trips = (Csr_read (Csr_write Csr_new 0x302 0xB109) 0x302 = 0xB109)"

definition mtvec_stores_vectored_mode_bits :: bool where
  "mtvec_stores_vectored_mode_bits =
    (Csr_read (Csr_write Csr_new 0x305 0x80001001) 0x305 = 0x80001001)"

definition mepc_preserves_rvc_alignment :: bool where
  "mepc_preserves_rvc_alignment =
    (let s = Csr_write Csr_new 0x341 0x80001002;
         s' = Csr_write s 0x341 0x80001001
     in Csr_read s 0x341 = 0x80001002 \<and> Csr_read s' 0x341 = 0x80001000)"

definition sepc_preserves_rvc_alignment :: bool where
  "sepc_preserves_rvc_alignment =
    (let s = Csr_write Csr_new 0x141 0x80001002;
         s' = Csr_write s 0x141 0x80001003
     in Csr_read s 0x141 = 0x80001002 \<and> Csr_read s' 0x141 = 0x80001002)"

lemma csr_tests:
  "misa_hardwired" "mhartid_hardwired_zero" "mtvec_round_trips" "unknown_csr_reads_zero"
  "mstatus_mie_mpie_mpp" "s_trap_entry_from_u_mode" "s_trap_entry_from_s_mode" "s_ret_restores_sie"
  "sstatus_filters_mstatus" "sie_filters_mie" "medeleg_round_trips"
  "mtvec_stores_vectored_mode_bits" "mepc_preserves_rvc_alignment" "sepc_preserves_rvc_alignment"
  by code_simp+

section \<open>The timer\<close>

definition tick_returns_false_when_mtime_below_mtimecmp :: bool where
  "tick_returns_false_when_mtime_below_mtimecmp =
    (let c = Clint_new in
     case Clint_tick c of (c, r1) \<Rightarrow> case Clint_tick c of (c, r2) \<Rightarrow> \<not> r1 \<and> \<not> r2)"

definition tick_returns_true_when_mtime_meets_mtimecmp :: bool where
  "tick_returns_true_when_mtime_meets_mtimecmp = snd (Clint_tick (Clint_new\<lparr>mtime := 9, mtimecmp := 10\<rparr>))"

definition tick_continues_true_while_mtime_exceeds_mtimecmp :: bool where
  "tick_continues_true_while_mtime_exceeds_mtimecmp =
    snd (Clint_tick (Clint_new\<lparr>mtime := 10, mtimecmp := 10\<rparr>))"

lemma clint_tests:
  "tick_returns_false_when_mtime_below_mtimecmp" "tick_returns_true_when_mtime_meets_mtimecmp"
  "tick_continues_true_while_mtime_exceeds_mtimecmp"
  by code_simp+

section \<open>The decoder\<close>

definition decode_addi :: bool where
  "decode_addi = (decode 0x02a00093 = Ok (IType Addi 1 0 42))"

definition decode_add :: bool where
  "decode_add = (decode 0x00208133 = Ok (RType Add 2 1 2))"

definition decode_lw :: bool where
  "decode_lw = (decode 0x00812283 = Ok (Load Lw 5 2 8))"

definition decode_sw :: bool where
  "decode_sw = (decode 0xfe512e23 = Ok (Store Sw 2 5 (- 4)))"

definition decode_beq :: bool where
  "decode_beq = (decode 0x00208463 = Ok (Branch Beq 1 2 8))"

definition decode_jal :: bool where
  "decode_jal = (decode 0x004000ef = Ok (Jal 1 4))"

definition decode_lui :: bool where
  "decode_lui = (decode 0x123450b7 = Ok (Lui 1 0x12345000))"

definition decode_srai :: bool where
  "decode_srai = (decode 0x4030d093 = Ok (Shift Srai 1 1 3))"

definition decode_addiw :: bool where
  "decode_addiw = (decode 0xfff0809b = Ok (IType Addiw 1 1 (- 1)))"

definition decode_mul :: bool where
  "decode_mul = (decode 0x022081B3 = Ok (MType Mul 3 1 2))"

definition decode_mulw :: bool where
  "decode_mulw = (decode 0x022081BB = Ok (MType Mulw 3 1 2))"

definition decode_div :: bool where
  "decode_div = (decode 0x0220C1B3 = Ok (MType Div 3 1 2))"

definition decode_lrd :: bool where
  "decode_lrd = (decode 0x1000B1AF = Ok (LrD 3 1))"

definition decode_scd :: bool where
  "decode_scd = (decode 0x1820B1AF = Ok (ScD 3 1 2))"

definition decode_amoaddd :: bool where
  "decode_amoaddd = (decode 0x0020B1AF = Ok (Amo AmoaddD 3 1 2))"

definition illegal_instruction_carries_raw_bits :: bool where
  "illegal_instruction_carries_raw_bits = (decode 0xDEADBEFF = Err (IllegalInstruction 0xDEADBEFF))"

lemma decode_tests:
  "decode_addi" "decode_add" "decode_lw" "decode_sw" "decode_beq" "decode_jal" "decode_lui"
  "decode_srai" "decode_addiw" "decode_mul" "decode_mulw" "decode_div" "decode_lrd" "decode_scd"
  "decode_amoaddd" "illegal_instruction_carries_raw_bits"
  by code_simp+

section \<open>The bus\<close>

fun unwrap :: "'e + 'a \<Rightarrow> 'a option" where
  "unwrap (Inl _) = None"
| "unwrap (Inr x) = Some x"

definition load_unwrap :: "bus \<Rightarrow> u64 \<Rightarrow> nat \<Rightarrow> (bus \<times> u64) option" where
  "load_unwrap b addr width = do {
     (b, r) \<leftarrow> Bus_load b addr width;
     v \<leftarrow> unwrap r;
     Some (b, v)
   }"

definition store_unwrap :: "bus \<Rightarrow> u64 \<Rightarrow> nat \<Rightarrow> u64 \<Rightarrow> bus option" where
  "store_unwrap b addr width val = do {
     (b, r) \<leftarrow> Bus_store b addr width val;
     _ \<leftarrow> unwrap r;
     Some b
   }"

definition load_store_u8 :: bool where
  "load_store_u8 = succeeds (do {
     b \<leftarrow> store_unwrap (Bus_new 64 0x80000000) 0x80000000 1 0xAB;
     (b, v) \<leftarrow> load_unwrap b 0x80000000 1;
     Some (v = 0xAB)
   })"

definition load_store_u16_le :: bool where
  "load_store_u16_le = succeeds (do {
     b \<leftarrow> store_unwrap (Bus_new 64 0x80000000) 0x80000000 2 0x1234;
     (b, lo) \<leftarrow> load_unwrap b 0x80000000 1;
     (b, hi) \<leftarrow> load_unwrap b 0x80000001 1;
     Some (lo = 0x34 \<and> hi = 0x12)
   })"

definition load_store_u64 :: bool where
  "load_store_u64 = succeeds (do {
     b \<leftarrow> store_unwrap (Bus_new 64 0x80000000) 0x80000000 8 0xDEADBEEFCAFEBABE;
     (b, v) \<leftarrow> load_unwrap b 0x80000000 8;
     Some (v = 0xDEADBEEFCAFEBABE)
   })"

definition out_of_bounds_returns_err :: bool where
  "out_of_bounds_returns_err = succeeds (do {
     (b, r1) \<leftarrow> Bus_load (Bus_new 64 0x80000000) 0x00000000 4;
     (b, r2) \<leftarrow> Bus_load b 0x80000040 4;
     Some (isl r1 \<and> isl r2)
   })"

definition clint_mtime_readable :: bool where
  "clint_mtime_readable = succeeds (do {
     (b, v) \<leftarrow> load_unwrap (Bus_new 64 0x80000000) 0x0200BFF8 8;
     Some (v = 0)
   })"

definition uart_lsr_returns_0x60 :: bool where
  "uart_lsr_returns_0x60 = succeeds (do {
     (b, v) \<leftarrow> load_unwrap (Bus_new 64 0x80000000) 0x10000005 1;
     Some (v = 0x60)
   })"

definition plic_reads_zero :: bool where
  "plic_reads_zero = succeeds (do {
     (b, v) \<leftarrow> load_unwrap (Bus_new 64 0x80000000) 0x0C000000 4;
     Some (v = 0)
   })"

text \<open>What the proofs use: a written part of RAM reads back, and other parts do not change.\<close>

lemma load_unwrap_ram:
  "ram_mapped b a n \<Longrightarrow> n \<in> {1, 2, 4, 8} \<Longrightarrow> load_unwrap b a n = Some (b, ram_rd b a n)"
  by (simp add: load_unwrap_def Bus_load_ram_rd)

lemma store_unwrap_ram:
  "ram_mapped b a n \<Longrightarrow> n \<in> {1, 2, 4, 8} \<Longrightarrow> store_unwrap b a n v = Some (ram_wr b a n v)"
  by (simp add: store_unwrap_def Bus_store_ram_wr)

lemma mapped_new:
  "sz \<le> 0x8000 \<Longrightarrow> ram_mapped (Bus_new sz 0x80000000) a n \<longleftrightarrow>
    0x80000000 \<le> a \<and> unat (a - 0x80000000) + n \<le> sz"
  by (simp add: ram_mapped_def bus_wf_def in_ram_def Bus_new_def plic_wf_new)

lemma rd_wr_part:
  assumes "ram_mapped b a n" "n \<in> {1, 2, 4, 8}" "k \<in> {1, 2, 4, 8}" "unat (a' - a) + k \<le> n"
  shows "ram_rd (ram_wr b a n v) a' k = take_bit (8 * k) (shr v (8 * unat (a' - a)))"
  using ram.rd_part_of_wr [OF assms(1-3), of "unat (a' - a)" v] assms(4) by simp

lemma rd_wr_apart:
  assumes "ram_mapped b a n" "n \<in> {1, 2, 4, 8}" "ram_mapped b a' k" "k \<in> {1, 2, 4, 8}"
    "n \<le> unat (a' - a)" "k \<le> unat (a - a')"
  shows "ram_rd (ram_wr b a n v) a' k = ram_rd b a' k"
proof (rule ram.rd_wr_disjoint [OF assms(1-4)])
  fix i assume "i < k"
  let ?d = "a' - a"
  have i: "unat (of_nat i :: u64) = i"
    using \<open>i < k\<close> assms(4) by (intro unat_of_nat_u64) auto
  have "unat w < 2 ^ LENGTH(64)" for w :: u64
    by (rule unsigned_less)
  from this [of a] this [of a'] have u: "unat a < 2 ^ 64" "unat a' < 2 ^ 64"
    by simp_all
  have "unat ?d + unat (of_nat i :: u64) < 2 ^ 64"
    using \<open>i < k\<close> assms(6) i u by (auto simp: unat_sub_if' split: if_splits)
  then have "unat (?d + of_nat i) = unat ?d + i"
    using i by (subst unat_add_lem [THEN iffD1]) auto
  then show "n \<le> unat (a' + of_nat i - a)"
    using assms(5) by (simp add: algebra_simps)
qed

lemmas ram_tests = load_unwrap_ram store_unwrap_ram mapped_new ram_mapped_wr rd_wr_part rd_wr_apart

lemma bus_tests:
  "load_store_u8" "load_store_u16_le" "load_store_u64" "out_of_bounds_returns_err"
  "clint_mtime_readable" "uart_lsr_returns_0x60" "plic_reads_zero"
proof -
  show load_store_u8 load_store_u16_le load_store_u64
    by (simp_all add: load_store_u8_def load_store_u16_le_def load_store_u64_def ram_tests)
  show out_of_bounds_returns_err
    by (simp add: out_of_bounds_returns_err_def Bus_load_def Bus_offset_def checked_add_def Bus_new_def)
  show clint_mtime_readable uart_lsr_returns_0x60 plic_reads_zero
    by (simp_all add: clint_mtime_readable_def uart_lsr_returns_0x60_def plic_reads_zero_def load_unwrap_def
        Bus_load_def Bus_new_def Clint_load_def Clint_new_def Uart_load_def Uart_data_ready_def Uart_new_def
        Plic_load_def Plic_new_def PLIC_BASE_def Let_def)
qed

section \<open>Address translation\<close>

definition mmu_bus :: bus where
  "mmu_bus = Bus_new 0x4000 0x80000000"

definition translate_unwrap ::
  "mmu \<Rightarrow> bus \<Rightarrow> u64 \<Rightarrow> priv_mode \<Rightarrow> u64 \<Rightarrow> u64 \<Rightarrow> access_type \<Rightarrow> ((mmu \<times> bus) \<times> u64) option" where
  "translate_unwrap m b sp md ms addr access = do {
     (mb, r) \<leftarrow> Mmu_translate m b sp md ms addr access;
     pa \<leftarrow> unwrap r;
     Some (mb, pa)
   }"

definition passthrough_when_m_mode :: bool where
  "passthrough_when_m_mode = succeeds (do {
     (_, pa) \<leftarrow> translate_unwrap Mmu_new mmu_bus (shl 8 60 OR 0x80000)
       PrivMode_M 0 0xDEAD0000 AccessType_Load;
     Some (pa = 0xDEAD0000)
   })"

definition passthrough_when_satp_mode_zero :: bool where
  "passthrough_when_satp_mode_zero = succeeds (do {
     (_, pa) \<leftarrow> translate_unwrap Mmu_new mmu_bus 0 PrivMode_S 0 0x80000000 AccessType_Load;
     Some (pa = 0x80000000)
   })"

definition flush_invalidates_all_entries :: bool where
  "flush_invalidates_all_entries =
    (let m = Mmu_new;
         m = m\<lparr>tlb := (tlb m)[0 := (tlb m ! 0)\<lparr>tlb_valid := True\<rparr>]\<rparr>;
         m = m\<lparr>tlb := (tlb m)[5 := (tlb m ! 5)\<lparr>tlb_valid := True\<rparr>]\<rparr>;
         m = Mmu_flush m
     in list_all (\<lambda>e. \<not> tlb_valid e) (tlb m))"

text \<open>The entry of a page that may be read, written and executed by anyone, already accessed and dirty.\<close>

definition test_leaf :: "u64 \<Rightarrow> u64" where
  "test_leaf pa = shl (shr pa 12) 10 OR PTE_V OR PTE_R OR PTE_W OR PTE_X OR PTE_U OR PTE_A OR PTE_D"

definition test_node :: "u64 \<Rightarrow> u64" where
  "test_node pa = shl (shr pa 12) 10 OR PTE_V"

definition sv39_tables :: "bus option" where
  "sv39_tables = do {
     b \<leftarrow> store_unwrap mmu_bus 0x80000000 8 (test_node 0x80001000);
     b \<leftarrow> store_unwrap b 0x80001000 8 (test_node 0x80002000);
     store_unwrap b (0x80002000 + 1 * 8) 8 (test_leaf 0x80010000)
   }"

definition sv39_4k_page_walk :: bool where
  "sv39_4k_page_walk = succeeds (do {
     b \<leftarrow> sv39_tables;
     (_, pa) \<leftarrow> translate_unwrap Mmu_new b (shl 8 60 OR shr 0x80000000 12)
       PrivMode_S (shl 1 18) 0x1ABC AccessType_Load;
     Some (pa = 0x80010ABC)
   })"

definition fault_cause :: "mmu_fault + 'a \<Rightarrow> u64 option" where
  "fault_cause r = (case r of Inl (MmuFault cause _) \<Rightarrow> Some cause | Inr _ \<Rightarrow> None)"

definition sv39_bad_va_canonical_check :: bool where
  "sv39_bad_va_canonical_check = succeeds (do {
     (_, r) \<leftarrow> Mmu_translate Mmu_new mmu_bus (shl 8 60) PrivMode_S 0 0x008000000000 AccessType_Load;
     cause \<leftarrow> fault_cause r;
     Some (cause = 13)
   })"

definition sv57_passthrough_when_m_mode :: bool where
  "sv57_passthrough_when_m_mode = succeeds (do {
     (_, pa) \<leftarrow> translate_unwrap Mmu_new mmu_bus (shl 10 60 OR 0x80000)
       PrivMode_M 0 0xDEAD0000 AccessType_Load;
     Some (pa = 0xDEAD0000)
   })"

definition sv57_bad_va_canonical_check :: bool where
  "sv57_bad_va_canonical_check = succeeds (do {
     (_, r) \<leftarrow> Mmu_translate Mmu_new mmu_bus (shl 10 60) PrivMode_S 0 0x0200000000000000 AccessType_Load;
     cause \<leftarrow> fault_cause r;
     Some (cause = 13)
   })"

definition sv57_5level_page_walk :: bool where
  "sv57_5level_page_walk = succeeds (do {
     b \<leftarrow> store_unwrap (Bus_new 0x8000 0x80000000) 0x80000000 8 (test_node 0x80001000);
     b \<leftarrow> store_unwrap b 0x80001000 8 (test_node 0x80002000);
     b \<leftarrow> store_unwrap b 0x80002000 8 (test_node 0x80003000);
     b \<leftarrow> store_unwrap b 0x80003000 8 (test_node 0x80004000);
     b \<leftarrow> store_unwrap b (0x80004000 + 1 * 8) 8 (test_leaf 0x80010000);
     (_, pa) \<leftarrow> translate_unwrap Mmu_new b (shl 10 60 OR shr 0x80000000 12)
       PrivMode_S (shl 1 18) 0x1ABC AccessType_Load;
     Some (pa = 0x80010ABC)
   })"

definition sv39_tlb_hit_after_first_walk :: bool where
  "sv39_tlb_hit_after_first_walk = succeeds (do {
     let sp = shl 8 60 OR shr 0x80000000 12;
     b \<leftarrow> sv39_tables;
     ((m, b), pa1) \<leftarrow> translate_unwrap Mmu_new b sp PrivMode_S (shl 1 18) 0x1000 AccessType_Load;
     (_, pa2) \<leftarrow> translate_unwrap m b sp PrivMode_S (shl 1 18) 0x1100 AccessType_Load;
     Some (pa1 = 0x80010000 \<and> pa2 = 0x80010100)
   })"

lemmas walk_levels = walk_unfold [where rem = 0] walk_unfold [where rem = 1, unfolded Suc_1]
  walk_unfold [where rem = 2, simplified] walk_unfold [where rem = 3, simplified]
  walk_unfold [where rem = 4, simplified]

lemmas translate_tests = translate_unwrap_def translate_cases paged_def satp_levels_def canonical_def

lemmas walk_tests = translate_tests tlb_has_def Mmu_new_def tlb_index_def TLB_SIZE_def root_table_def
  ram_tests test_node_def test_leaf_def PTE_defs

lemmas leaf_tests = walk_leaf_def check_perms_def set_ad_def pte_ppn_def PTE_defs

lemmas level_tests = walk_levels pte_slot_def pte_usable_def pte_leaf_def pte_ppn_def PTE_defs ram_tests

lemma mmu_tests:
  "passthrough_when_m_mode" "passthrough_when_satp_mode_zero" "flush_invalidates_all_entries"
  "sv39_4k_page_walk" "sv39_bad_va_canonical_check" "sv57_passthrough_when_m_mode"
  "sv57_bad_va_canonical_check" "sv57_5level_page_walk" "sv39_tlb_hit_after_first_walk"
proof -
  show passthrough_when_m_mode sv57_passthrough_when_m_mode passthrough_when_satp_mode_zero
    by (simp_all add: passthrough_when_m_mode_def sv57_passthrough_when_m_mode_def
        passthrough_when_satp_mode_zero_def translate_tests)
  show flush_invalidates_all_entries
    by (simp add: flush_invalidates_all_entries_def Mmu_flush_def Let_def list_all_iff)
  show sv39_bad_va_canonical_check sv57_bad_va_canonical_check
    by (simp_all add: sv39_bad_va_canonical_check_def sv57_bad_va_canonical_check_def fault_cause_def translate_tests)
  show sv39_4k_page_walk
    by (simp add: sv39_4k_page_walk_def sv39_tables_def mmu_bus_def walk_tests)
      (simp add: level_tests leaf_tests Let_def)
  show sv57_5level_page_walk
    by (simp add: sv57_5level_page_walk_def walk_tests) (simp add: level_tests leaf_tests Let_def)
  show sv39_tlb_hit_after_first_walk
    by (simp add: sv39_tlb_hit_after_first_walk_def sv39_tables_def mmu_bus_def walk_tests)
      (simp add: level_tests leaf_tests walk_tests tlb_hit_def Let_def)
qed

section \<open>The hart\<close>

definition test_cpu :: cpu where
  "test_cpu = Cpu_new (Bus_new 64 0x80000000) 0x80000000"

definition cpu_store_unwrap :: "cpu \<Rightarrow> u64 \<Rightarrow> nat \<Rightarrow> u64 \<Rightarrow> cpu option" where
  "cpu_store_unwrap c addr width val = do {
     b \<leftarrow> store_unwrap (bus c) addr width val;
     Some (c\<lparr>bus := b\<rparr>)
   }"

definition x0_always_zero :: bool where
  "x0_always_zero = succeeds (do {
     c \<leftarrow> set_reg test_cpu 0 0xDEAD;
     v \<leftarrow> reg c 0;
     Some (v = 0)
   })"

definition reg_read_write :: bool where
  "reg_read_write = succeeds (do {
     c \<leftarrow> set_reg test_cpu 5 0xCAFE;
     v \<leftarrow> reg c 5;
     Some (v = 0xCAFE)
   })"

definition step_delivers_illegal_instruction_trap :: "host \<Rightarrow> bool" where
  "step_delivers_illegal_instruction_trap h = succeeds (do {
     let c = Cpu_new (Bus_new 64 0x80000000) 0x80000000;
     let c = c\<lparr>csr := (csr c)\<lparr>mtvec := 0x80000010\<rparr>\<rparr>;
     c \<leftarrow> cpu_store_unwrap c 0x80000000 4 0xDEADBEFF;
     c \<leftarrow> step h c;
     Some (pc c = 0x80000010 \<and> mcause (csr c) = 2 \<and> mtval (csr c) = 0xDEADBEFF \<and>
       mepc (csr c) = 0x80000000)
   })"

definition step_delivers_fetch_fault_on_bad_address :: "host \<Rightarrow> bool" where
  "step_delivers_fetch_fault_on_bad_address h = succeeds (do {
     let c = Cpu_new (Bus_new 64 0x80000000) 0x80000000;
     let c = c\<lparr>csr := (csr c)\<lparr>mtvec := 0x80000010\<rparr>\<rparr>;
     let c = c\<lparr>pc := 0x00000000\<rparr>;
     c \<leftarrow> step h c;
     Some (pc c = 0x80000010 \<and> mcause (csr c) = 1 \<and> mtval (csr c) = 0x00000000)
   })"

definition deliver_trap_routes_to_m_when_no_delegation :: bool where
  "deliver_trap_routes_to_m_when_no_delegation =
    (let c = test_cpu;
         c = c\<lparr>csr := (csr c)\<lparr>mtvec := 0x80000100, medeleg := 0\<rparr>\<rparr>;
         c = deliver_trap c 8 0
     in mcause (csr c) = 8 \<and> pc c = 0x80000100 \<and> mode c = PrivMode_M)"

definition deliver_trap_routes_to_s_when_delegated :: bool where
  "deliver_trap_routes_to_s_when_delegated =
    (let c = test_cpu;
         c = c\<lparr>csr := (csr c)\<lparr>stvec := 0x80000200, mtvec := 0x80000100, medeleg := shl 1 8\<rparr>,
               mode := PrivMode_U\<rparr>;
         c = deliver_trap c 8 0xABCD
     in scause (csr c) = 8 \<and> stval (csr c) = 0xABCD \<and> pc c = 0x80000200 \<and> mode c = PrivMode_S \<and>
        mcause (csr c) = 0 \<and> sepc (csr c) = 0x80000000)"

definition deliver_trap_m_mode_not_delegated_even_if_medeleg_set :: bool where
  "deliver_trap_m_mode_not_delegated_even_if_medeleg_set =
    (let c = test_cpu;
         c = c\<lparr>csr := (csr c)\<lparr>mtvec := 0x80000100, medeleg := shl 1 11\<rparr>, mode := PrivMode_M\<rparr>;
         c = deliver_trap c 11 0
     in mcause (csr c) = 11 \<and> pc c = 0x80000100 \<and> mode c = PrivMode_M)"

definition deliver_trap_s_mode_delegated_via_medeleg :: bool where
  "deliver_trap_s_mode_delegated_via_medeleg =
    (let c = test_cpu;
         c = c\<lparr>csr := (csr c)\<lparr>stvec := 0x80000200, mtvec := 0x80000100, medeleg := shl 1 9\<rparr>,
               mode := PrivMode_S\<rparr>;
         c = deliver_trap c 9 0
     in scause (csr c) = 9 \<and> pc c = 0x80000200 \<and> mode c = PrivMode_S \<and> mcause (csr c) = 0)"

definition deliver_trap_interrupt_uses_mideleg_not_medeleg :: bool where
  "deliver_trap_interrupt_uses_mideleg_not_medeleg =
    (let c = test_cpu;
         c = c\<lparr>csr := (csr c)\<lparr>stvec := 0x80000200, mtvec := 0x80000100, mideleg := shl 1 7,
                 medeleg := 0\<rparr>, mode := PrivMode_S\<rparr>;
         c = deliver_trap c (shl 1 63 OR 7) 0
     in mode c = PrivMode_S \<and> scause (csr c) = shl 1 63 OR 7 \<and> mcause (csr c) = 0)"

definition deliver_trap_vectored_mode_interrupt :: bool where
  "deliver_trap_vectored_mode_interrupt =
    (let c = test_cpu;
         c = c\<lparr>csr := (csr c)\<lparr>mtvec := 0x80000001\<rparr>\<rparr>;
         c = deliver_trap c (shl 1 63 OR 7) 0
     in pc c = 0x8000001C \<and> mcause (csr c) = shl 1 63 OR 7)"

definition deliver_trap_vectored_mode_exception_uses_base :: bool where
  "deliver_trap_vectored_mode_exception_uses_base =
    (let c = test_cpu;
         c = c\<lparr>csr := (csr c)\<lparr>mtvec := 0x80000001\<rparr>\<rparr>;
         c = deliver_trap c 8 0
     in pc c = 0x80000000)"

definition deliver_trap_s_mode_vectored_stvec :: bool where
  "deliver_trap_s_mode_vectored_stvec =
    (let c = test_cpu;
         c = c\<lparr>csr := (csr c)\<lparr>stvec := 0x90000001, mtvec := 0x80000100, mideleg := shl 1 5,
                 mstatus := shl 1 1\<rparr>, mode := PrivMode_S\<rparr>;
         c = deliver_trap c (shl 1 63 OR 5) 0
     in pc c = 0x90000014 \<and> mode c = PrivMode_S \<and> scause (csr c) = shl 1 63 OR 5)"

definition step_rvc_c_nop_advances_pc_by_2 :: "host \<Rightarrow> bool" where
  "step_rvc_c_nop_advances_pc_by_2 h = succeeds (do {
     let c = Cpu_new (Bus_new 64 0x80000000) 0x80000000;
     let c = c\<lparr>csr := (csr c)\<lparr>mtvec := 0x80000100\<rparr>\<rparr>;
     c \<leftarrow> cpu_store_unwrap c 0x80000000 2 0x0001;
     c \<leftarrow> step h c;
     Some (pc c = 0x80000002 \<and> mcause (csr c) = 0)
   })"

definition step_32bit_at_odd_2byte_boundary_fetches_correctly :: "host \<Rightarrow> bool" where
  "step_32bit_at_odd_2byte_boundary_fetches_correctly h = succeeds (do {
     let c = Cpu_new (Bus_new 64 0x80000000) 0x80000002;
     let c = c\<lparr>csr := (csr c)\<lparr>mtvec := 0x80000100\<rparr>\<rparr>;
     c \<leftarrow> cpu_store_unwrap c 0x80000002 2 0x0093;
     c \<leftarrow> cpu_store_unwrap c 0x80000004 2 0x02A0;
     c \<leftarrow> step h c;
     x1 \<leftarrow> reg c 1;
     Some (x1 = 42 \<and> pc c = 0x80000006 \<and> mcause (csr c) = 0)
   })"

definition wfi_advances_pc_and_does_not_trap :: "host \<Rightarrow> bool" where
  "wfi_advances_pc_and_does_not_trap h = succeeds (do {
     let c = Cpu_new (Bus_new 64 0x80000000) 0x80000000;
     let c = c\<lparr>csr := (csr c)\<lparr>mtvec := 0x80000100\<rparr>\<rparr>;
     c \<leftarrow> cpu_store_unwrap c 0x80000000 4 0x10500073;
     c \<leftarrow> step h c;
     Some (pc c = 0x80000004 \<and> mcause (csr c) = 0)
   })"

definition check_interrupts_fires_mti_in_m_mode_with_mie_set :: "host \<Rightarrow> bool" where
  "check_interrupts_fires_mti_in_m_mode_with_mie_set h = succeeds (do {
     let c = test_cpu;
     let c = c\<lparr>csr := (csr c)\<lparr>mtvec := 0x80000100, mie := shl 1 7, mip := shl 1 7, mstatus := shl 1 3\<rparr>,
               mode := PrivMode_M\<rparr>;
     c \<leftarrow> step h c;
     Some (mcause (csr c) = shl 1 63 OR 7 \<and> pc c = 0x80000100)
   })"

definition check_interrupts_does_not_fire_when_mie_clear :: "host \<Rightarrow> bool" where
  "check_interrupts_does_not_fire_when_mie_clear h = succeeds (do {
     let c = test_cpu;
     let c = c\<lparr>csr := (csr c)\<lparr>mtvec := 0x80000100, mie := shl 1 7, mip := shl 1 7, mstatus := 0\<rparr>,
               mode := PrivMode_M\<rparr>;
     c \<leftarrow> cpu_store_unwrap c 0x80000000 4 0x00000013;
     c \<leftarrow> step h c;
     Some (mcause (csr c) = 0 \<and> pc c = 0x80000004)
   })"

definition check_interrupts_routes_delegated_sti_to_s_mode :: "host \<Rightarrow> bool" where
  "check_interrupts_routes_delegated_sti_to_s_mode h = succeeds (do {
     let c = test_cpu;
     let c = c\<lparr>csr := (csr c)\<lparr>stvec := 0x80000200, mtvec := 0x80000100, mie := shl 1 5, mip := shl 1 5,
                 mideleg := shl 1 5, mstatus := shl 1 1\<rparr>, mode := PrivMode_S\<rparr>;
     c \<leftarrow> step h c;
     Some (scause (csr c) = shl 1 63 OR 5 \<and> mode c = PrivMode_S \<and> mcause (csr c) = 0)
   })"

definition satp_write_sets_jit_invalidate :: "host \<Rightarrow> bool" where
  "satp_write_sets_jit_invalidate h = succeeds (do {
     let c = test_cpu\<lparr>jit_invalidate := False\<rparr>;
     c \<leftarrow> set_reg c 1 (shl 8 60 OR 1);
     c \<leftarrow> execute h c (CsrR Csrrw 0 1 0x180);
     Some (jit_invalidate c)
   })"

definition sfence_does_not_set_jit_invalidate :: "host \<Rightarrow> bool" where
  "sfence_does_not_set_jit_invalidate h = succeeds (do {
     c \<leftarrow> execute h (test_cpu\<lparr>jit_invalidate := False\<rparr>) SfenceVma;
     Some (\<not> jit_invalidate c)
   })"

definition csrrwi_satp_ppn_change_sets_jit_invalidate :: "host \<Rightarrow> bool" where
  "csrrwi_satp_ppn_change_sets_jit_invalidate h = succeeds (do {
     c \<leftarrow> execute h (test_cpu\<lparr>jit_invalidate := False\<rparr>) (CsrI Csrrwi 0 1 0x180);
     Some (jit_invalidate c)
   })"

definition csrrwi_satp_same_ppn_no_invalidate :: "host \<Rightarrow> bool" where
  "csrrwi_satp_same_ppn_no_invalidate h = succeeds (do {
     c \<leftarrow> execute h (test_cpu\<lparr>jit_invalidate := False\<rparr>) (CsrI Csrrwi 0 0 0x180);
     Some (\<not> jit_invalidate c)
   })"

definition csrrs_satp_rs1_zero_does_not_invalidate :: "host \<Rightarrow> bool" where
  "csrrs_satp_rs1_zero_does_not_invalidate h = succeeds (do {
     c \<leftarrow> execute h (test_cpu\<lparr>jit_invalidate := False\<rparr>) (CsrR Csrrs 0 0 0x180);
     Some (\<not> jit_invalidate c)
   })"

lemma cpu_store_unwrap_ram:
  "ram_mapped (bus c) a n \<Longrightarrow> n \<in> {1, 2, 4, 8} \<Longrightarrow>
    cpu_store_unwrap c a n v = Some (c\<lparr>bus := ram_wr (bus c) a n v\<rparr>)"
  by (simp add: cpu_store_unwrap_def store_unwrap_ram)

lemma tests_decoded:
  "decode 0xDEADBEFF = Err (IllegalInstruction 0xDEADBEFF)"
  "decode_rvc 1 = Ok (IType Addi 0 0 0)"
  "decode 0x02A00093 = Ok (IType Addi 1 0 42)"
  "decode 0x10500073 = Ok Wfi"
  "decode 0x00000013 = Ok (IType Addi 0 0 0)"
  by code_simp+

lemmas cpu_tests = cpu_store_unwrap_ram ram_tests Cpu_new_def Csr_new_def Cpu_load_ram Cpu_store_ram
  Cpu_translate_bare paged_def satp_levels_def

lemmas step_tests = cpu_tests step_def check_interrupts_def can_fire_def Csr_mie_bit_def fetch_def
  fetch_half_def fetch_high_def decode_execute_def tests_decoded execute_def exec_i_def reg_def set_reg_def
  deliver_trap_def trap_pc_def Csr_trap_entry_def Csr_s_trap_entry_def

lemma hart_tests:
  "x0_always_zero" "reg_read_write" "deliver_trap_routes_to_m_when_no_delegation"
  "deliver_trap_routes_to_s_when_delegated" "deliver_trap_m_mode_not_delegated_even_if_medeleg_set"
  "deliver_trap_s_mode_delegated_via_medeleg" "deliver_trap_interrupt_uses_mideleg_not_medeleg"
  "deliver_trap_vectored_mode_interrupt" "deliver_trap_vectored_mode_exception_uses_base"
  "deliver_trap_s_mode_vectored_stvec" "satp_write_sets_jit_invalidate h"
  "sfence_does_not_set_jit_invalidate h" "csrrwi_satp_ppn_change_sets_jit_invalidate h"
  "csrrwi_satp_same_ppn_no_invalidate h" "csrrs_satp_rs1_zero_does_not_invalidate h"
  by code_simp+

lemma step_unit_tests:
  "step_delivers_illegal_instruction_trap h" "step_delivers_fetch_fault_on_bad_address h"
  "step_rvc_c_nop_advances_pc_by_2 h" "step_32bit_at_odd_2byte_boundary_fetches_correctly h"
  "wfi_advances_pc_and_does_not_trap h" "check_interrupts_fires_mti_in_m_mode_with_mie_set h"
  "check_interrupts_does_not_fire_when_mie_clear h"
  "check_interrupts_routes_delegated_sti_to_s_mode h"
  by (simp_all add: step_delivers_illegal_instruction_trap_def step_rvc_c_nop_advances_pc_by_2_def
      step_32bit_at_odd_2byte_boundary_fetches_correctly_def wfi_advances_pc_and_does_not_trap_def
      check_interrupts_fires_mti_in_m_mode_with_mie_set_def check_interrupts_does_not_fire_when_mie_clear_def
      check_interrupts_routes_delegated_sti_to_s_mode_def test_cpu_def step_tests)
    (simp add: step_delivers_fetch_fault_on_bad_address_def step_tests Cpu_load_def Bus_load_def Bus_offset_def
      checked_add_def Bus_new_def)

section \<open>Execution\<close>

definition cpu_with_ram :: "nat \<Rightarrow> cpu" where
  "cpu_with_ram sz = Cpu_new (Bus_new sz 0x80000000) 0x80000000"

text \<open>The shape of the register tests: two source values, one instruction, the result in \<open>x3\<close>.\<close>

definition exec_reg_reg :: "host \<Rightarrow> u64 \<Rightarrow> u64 \<Rightarrow> instruction \<Rightarrow> u64 option" where
  "exec_reg_reg h a b i = do {
     c \<leftarrow> set_reg (cpu_with_ram 64) 1 a;
     c \<leftarrow> set_reg c 2 b;
     c \<leftarrow> execute h c i;
     reg c 3
   }"

definition add_wraps :: "host \<Rightarrow> bool" where
  "add_wraps h = (exec_reg_reg h u64_MAX 1 (RType Add 3 1 2) = Some 0)"

definition slt_signed :: "host \<Rightarrow> bool" where
  "slt_signed h = (exec_reg_reg h (- 1) 0 (RType Slt 3 1 2) = Some 1)"

definition sltu_unsigned :: "host \<Rightarrow> bool" where
  "sltu_unsigned h = (exec_reg_reg h (- 1) 0 (RType Sltu 3 1 2) = Some 0)"

definition addw_sign_extends :: "host \<Rightarrow> bool" where
  "addw_sign_extends h =
    (exec_reg_reg h 0x0000000080000000 0 (RType Addw 3 1 2) = Some 0xFFFFFFFF80000000)"

definition jal_sets_rd_and_pc :: "host \<Rightarrow> bool" where
  "jal_sets_rd_and_pc h = succeeds (do {
     let c = (cpu_with_ram 64)\<lparr>pc := 0x80000000\<rparr>;
     c \<leftarrow> execute h c (Jal 1 8);
     x1 \<leftarrow> reg c 1;
     Some (x1 = 0x80000004 \<and> pc c = 0x80000008)
   })"

definition lui_loads_upper :: "host \<Rightarrow> bool" where
  "lui_loads_upper h = succeeds (do {
     let c = (cpu_with_ram 64)\<lparr>pc := 0x80000000\<rparr>;
     c \<leftarrow> execute h c (Lui 1 0x12345000);
     x1 \<leftarrow> reg c 1;
     Some (x1 = 0x12345000)
   })"

definition mul_lower64 :: "host \<Rightarrow> bool" where
  "mul_lower64 h = (exec_reg_reg h (- 1) 2 (MType Mul 3 1 2) = Some (- 2))"

definition mulh_upper64 :: "host \<Rightarrow> bool" where
  "mulh_upper64 h = (exec_reg_reg h i64_MIN (- 1) (MType Mulh 3 1 2) = Some 0)"

definition div_signed_by_zero :: "host \<Rightarrow> bool" where
  "div_signed_by_zero h = (exec_reg_reg h 7 0 (MType Div 3 1 2) = Some (- 1))"

definition div_signed_overflow :: "host \<Rightarrow> bool" where
  "div_signed_overflow h = (exec_reg_reg h i64_MIN (- 1) (MType Div 3 1 2) = Some i64_MIN)"

definition divu_by_zero :: "host \<Rightarrow> bool" where
  "divu_by_zero h = (exec_reg_reg h 42 0 (MType Divu 3 1 2) = Some u64_MAX)"

definition rem_signed_by_zero :: "host \<Rightarrow> bool" where
  "rem_signed_by_zero h = (exec_reg_reg h 7 0 (MType Rem 3 1 2) = Some 7)"

definition mulw_sign_extends :: "host \<Rightarrow> bool" where
  "mulw_sign_extends h =
    (exec_reg_reg h 0x0000000080000001 0x0000000000000002 (MType Mulw 3 1 2) = Some 2)"

definition lr_sc_success :: "host \<Rightarrow> bool" where
  "lr_sc_success h = succeeds (do {
     c \<leftarrow> cpu_store_unwrap (cpu_with_ram 1024) 0x80000000 8 0xABCD1234;
     c \<leftarrow> set_reg c 1 0x80000000;
     c \<leftarrow> execute h c (LrD 2 1);
     x2 \<leftarrow> reg c 2;
     let r1 = reservation c;
     c \<leftarrow> set_reg c 3 0xDEADBEEF;
     c \<leftarrow> execute h c (ScD 4 1 3);
     x4 \<leftarrow> reg c 4;
     (_, v) \<leftarrow> load_unwrap (bus c) 0x80000000 8;
     Some (x2 = 0xABCD1234 \<and> r1 = Some 0x80000000 \<and> x4 = 0 \<and> reservation c = None \<and> v = 0xDEADBEEF)
   })"

definition sc_failure_clears_reservation :: "host \<Rightarrow> bool" where
  "sc_failure_clears_reservation h = succeeds (do {
     let c = (cpu_with_ram 1024)\<lparr>reservation := None\<rparr>;
     c \<leftarrow> set_reg c 1 0x80000000;
     c \<leftarrow> set_reg c 2 42;
     c \<leftarrow> execute h c (ScD 3 1 2);
     x3 \<leftarrow> reg c 3;
     Some (x3 = 1 \<and> reservation c = None)
   })"

definition amoadd_d :: "host \<Rightarrow> bool" where
  "amoadd_d h = succeeds (do {
     c \<leftarrow> cpu_store_unwrap (cpu_with_ram 1024) 0x80000000 8 10;
     c \<leftarrow> set_reg c 1 0x80000000;
     c \<leftarrow> set_reg c 2 5;
     c \<leftarrow> execute h c (Amo AmoaddD 3 1 2);
     x3 \<leftarrow> reg c 3;
     (_, v) \<leftarrow> load_unwrap (bus c) 0x80000000 8;
     Some (x3 = 10 \<and> v = 15)
   })"

definition amomin_d_signed :: "host \<Rightarrow> bool" where
  "amomin_d_signed h = succeeds (do {
     c \<leftarrow> cpu_store_unwrap (cpu_with_ram 1024) 0x80000000 8 (- 3);
     c \<leftarrow> set_reg c 1 0x80000000;
     c \<leftarrow> set_reg c 2 (- 5);
     c \<leftarrow> execute h c (Amo AmominD 3 1 2);
     x3 \<leftarrow> reg c 3;
     (_, v) \<leftarrow> load_unwrap (bus c) 0x80000000 8;
     Some (x3 = - 3 \<and> v = - 5)
   })"

lemma execute_tests:
  "add_wraps h" "slt_signed h" "sltu_unsigned h" "addw_sign_extends h" "jal_sets_rd_and_pc h"
  "lui_loads_upper h" "mul_lower64 h" "mulh_upper64 h" "div_signed_by_zero h"
  "div_signed_overflow h" "divu_by_zero h" "rem_signed_by_zero h" "mulw_sign_extends h"
  "sc_failure_clears_reservation h"
  by code_simp+

lemma atomic_tests:
  "lr_sc_success h" "amoadd_d h" "amomin_d_signed h"
  by (simp_all add: lr_sc_success_def amoadd_d_def amomin_d_signed_def cpu_with_ram_def cpu_tests execute_def
      exec_lr_def exec_sc_def exec_amo_def reg_def set_reg_def ls_mode_def atomic_value_def)

section \<open>The loader and all of them\<close>

definition ram_size_constant_is_256_mib :: bool where
  "ram_size_constant_is_256_mib = (RAM_SIZE = 256 * 1024 * 1024)"

lemma loader_test: ram_size_constant_is_256_mib
  by (simp add: ram_size_constant_is_256_mib_def RAM_SIZE_def)

definition unit_tests :: "host \<Rightarrow> bool list" where
  "unit_tests h = [
     ram_size_constant_is_256_mib, misa_hardwired, mhartid_hardwired_zero, mtvec_round_trips,
     unknown_csr_reads_zero, mstatus_mie_mpie_mpp, s_trap_entry_from_u_mode,
     s_trap_entry_from_s_mode, s_ret_restores_sie, sstatus_filters_mstatus, sie_filters_mie,
     medeleg_round_trips, mtvec_stores_vectored_mode_bits, mepc_preserves_rvc_alignment,
     sepc_preserves_rvc_alignment, tick_returns_false_when_mtime_below_mtimecmp,
     tick_returns_true_when_mtime_meets_mtimecmp, tick_continues_true_while_mtime_exceeds_mtimecmp,
     decode_addi, decode_add, decode_lw, decode_sw, decode_beq, decode_jal, decode_lui,
     decode_srai, decode_addiw, decode_mul, decode_mulw, decode_div, decode_lrd, decode_scd,
     decode_amoaddd, illegal_instruction_carries_raw_bits, load_store_u8, load_store_u16_le,
     load_store_u64, out_of_bounds_returns_err, clint_mtime_readable, uart_lsr_returns_0x60,
     plic_reads_zero, passthrough_when_m_mode, passthrough_when_satp_mode_zero,
     flush_invalidates_all_entries, sv39_4k_page_walk, sv39_bad_va_canonical_check,
     sv57_passthrough_when_m_mode, sv57_bad_va_canonical_check, sv57_5level_page_walk,
     sv39_tlb_hit_after_first_walk, x0_always_zero, reg_read_write,
     step_delivers_illegal_instruction_trap h, step_delivers_fetch_fault_on_bad_address h,
     deliver_trap_routes_to_m_when_no_delegation, deliver_trap_routes_to_s_when_delegated,
     deliver_trap_m_mode_not_delegated_even_if_medeleg_set,
     deliver_trap_s_mode_delegated_via_medeleg, deliver_trap_interrupt_uses_mideleg_not_medeleg,
     deliver_trap_vectored_mode_interrupt, deliver_trap_vectored_mode_exception_uses_base,
     deliver_trap_s_mode_vectored_stvec, step_rvc_c_nop_advances_pc_by_2 h,
     step_32bit_at_odd_2byte_boundary_fetches_correctly h, wfi_advances_pc_and_does_not_trap h,
     check_interrupts_fires_mti_in_m_mode_with_mie_set h,
     check_interrupts_does_not_fire_when_mie_clear h,
     check_interrupts_routes_delegated_sti_to_s_mode h, satp_write_sets_jit_invalidate h,
     sfence_does_not_set_jit_invalidate h, csrrwi_satp_ppn_change_sets_jit_invalidate h,
     csrrwi_satp_same_ppn_no_invalidate h, csrrs_satp_rs1_zero_does_not_invalidate h, add_wraps h,
     slt_signed h, sltu_unsigned h, addw_sign_extends h, jal_sets_rd_and_pc h, lui_loads_upper h,
     mul_lower64 h, mulh_upper64 h, div_signed_by_zero h, div_signed_overflow h, divu_by_zero h,
     rem_signed_by_zero h, mulw_sign_extends h, lr_sc_success h, sc_failure_clears_reservation h,
     amoadd_d h, amomin_d_signed h]"

lemma unit_tests_hold: "list_all (\<lambda>t. t) (unit_tests h)"
  by (simp add: unit_tests_def csr_tests clint_tests decode_tests bus_tests mmu_tests hart_tests step_unit_tests
      execute_tests atomic_tests loader_test)

end
