(* ===== verification/JitTests.thy ===== *)
theory JitTests
  imports UnitTests JitBlock
begin

text \<open>
  The unit tests of \<open>src/jit.rs\<close>: a block is compiled from bytes in RAM, called, and its value and the
  guest's registers are compared.  The compiler's code is not executed step by step here: what a block
  of one or two instructions does follows from the simulation lemmas behind the theorem on compiled
  blocks.
\<close>

section \<open>The tests\<close>

definition make_cpu :: cpu where
  "make_cpu = Cpu_new (Bus_new 4096 0x80000000) 0x80000000"

abbreviation ram_start :: u64 where
  "ram_start \<equiv> 0x80000000"

text \<open>Compile a block in a new cache and call it: the hart and the value it leaves.\<close>

definition compile_and_call :: "cpu \<Rightarrow> u64 \<Rightarrow> (cpu \<times> u64) option" where
  "compile_and_call c start = do {
     (j, c) \<leftarrow> JitCache_compile JitCache_new c start;
     f \<leftarrow> JitCache_get j start;
     case call_block f c of Returned (Vint next_pc) s \<Rightarrow> Some (guest s, next_pc) | _ \<Rightarrow> None
   }"

definition jit_cache_new_is_empty :: bool where
  "jit_cache_new_is_empty = (JitCache_get JitCache_new 0x80000000 = None)"

definition jit_cache_invalidate_clears_all :: bool where
  "jit_cache_invalidate_clears_all =
    (let j = JitCache_new(0x80000000 \<mapsto> [MovRI RAX 42, Ret])
     in JitCache_get j 0x80000000 \<noteq> None \<and> JitCache_get (JitCache_invalidate j) 0x80000000 = None)"

definition callout_store_then_load_roundtrip :: bool where
  "callout_store_then_load_roundtrip = succeeds (do {
     let c = make_cpu\<lparr>regs := (regs make_cpu)[1 := 0xDEADBEEF00000001]\<rparr>;
     (c, r) \<leftarrow> jit_store 8 c 0x80000010 (regs c ! 1);
     (c, v) \<leftarrow> jit_load 8 c 0x80000010;
     Some (r = 0 \<and> v = 0xDEADBEEF00000001)
   })"

definition callout_load_fault_returns_sentinel :: bool where
  "callout_load_fault_returns_sentinel = succeeds (do {
     (_, v) \<leftarrow> jit_load 8 make_cpu 0x00000000;
     Some (v = u64_MAX)
   })"

definition callout_store_fault_returns_sentinel :: bool where
  "callout_store_fault_returns_sentinel = succeeds (do {
     (_, v) \<leftarrow> jit_store 8 make_cpu 0x00000000 42;
     Some (v = u64_MAX)
   })"

definition jit_addi :: bool where
  "jit_addi = succeeds (do {
     c \<leftarrow> cpu_store_unwrap make_cpu ram_start 4 0x02A00093;
     c \<leftarrow> cpu_store_unwrap c (ram_start + 4) 4 0x00000073;
     (c, next_pc) \<leftarrow> compile_and_call c ram_start;
     Some (regs c ! 1 = 42 \<and> next_pc = ram_start + 4)
   })"

text \<open>The shape of the tests on two source registers: one instruction, then \<open>ECALL\<close>.\<close>

definition jit_reg_reg :: "u64 \<Rightarrow> u64 \<Rightarrow> u64 \<Rightarrow> (cpu \<times> u64) option" where
  "jit_reg_reg a b inst = do {
     let c = make_cpu\<lparr>regs := (regs make_cpu)[1 := a, 2 := b]\<rparr>;
     c \<leftarrow> cpu_store_unwrap c ram_start 4 inst;
     c \<leftarrow> cpu_store_unwrap c (ram_start + 4) 4 0x00000073;
     compile_and_call c ram_start
   }"

definition jit_add :: bool where
  "jit_add = succeeds (do {
     (c, next_pc) \<leftarrow> jit_reg_reg 10 32 0x002081B3;
     Some (regs c ! 3 = 42 \<and> next_pc = ram_start + 4)
   })"

definition jit_lui :: bool where
  "jit_lui = succeeds (do {
     c \<leftarrow> cpu_store_unwrap make_cpu ram_start 4 0x000010B7;
     c \<leftarrow> cpu_store_unwrap c (ram_start + 4) 4 0x00000073;
     (c, next_pc) \<leftarrow> compile_and_call c ram_start;
     Some (regs c ! 1 = 0x00001000 \<and> next_pc = ram_start + 4)
   })"

definition jit_mul :: bool where
  "jit_mul = succeeds (do { (c, _) \<leftarrow> jit_reg_reg 6 7 0x022081B3; Some (regs c ! 3 = 42) })"

definition jit_div :: bool where
  "jit_div = succeeds (do { (c, _) \<leftarrow> jit_reg_reg 84 2 0x0220C1B3; Some (regs c ! 3 = 42) })"

definition jit_div_by_zero :: bool where
  "jit_div_by_zero = succeeds (do { (c, _) \<leftarrow> jit_reg_reg 42 0 0x0220C1B3; Some (regs c ! 3 = u64_MAX) })"

definition jit_div_overflow :: bool where
  "jit_div_overflow = succeeds (do {
     (c, _) \<leftarrow> jit_reg_reg i64_MIN (- 1) 0x0220C1B3;
     Some (regs c ! 3 = i64_MIN)
   })"

definition jit_rem_div_by_zero :: bool where
  "jit_rem_div_by_zero = succeeds (do { (c, _) \<leftarrow> jit_reg_reg 99 0 0x0220E1B3; Some (regs c ! 3 = 99) })"

definition jit_load_store :: bool where
  "jit_load_store = succeeds (do {
     let c = make_cpu\<lparr>regs := (regs make_cpu)[1 := 0xDEADBEEF, 2 := ram_start + 0x100]\<rparr>;
     c \<leftarrow> cpu_store_unwrap c ram_start 4 0x00112023;
     c \<leftarrow> cpu_store_unwrap c (ram_start + 4) 4 0x00012183;
     c \<leftarrow> cpu_store_unwrap c (ram_start + 8) 4 0x00000073;
     (c, next_pc) \<leftarrow> compile_and_call c ram_start;
     Some (regs c ! 3 = 0xFFFFFFFFDEADBEEF \<and> next_pc = ram_start + 8)
   })"

definition jit_load_fault_returns_sentinel :: bool where
  "jit_load_fault_returns_sentinel = succeeds (do {
     let c = make_cpu\<lparr>regs := (regs make_cpu)[1 := 0x00001000]\<rparr>;
     c \<leftarrow> cpu_store_unwrap c ram_start 4 0x0000A103;
     (_, next_pc) \<leftarrow> compile_and_call c ram_start;
     Some (next_pc = u64_MAX)
   })"

definition jit_branch_taken :: bool where
  "jit_branch_taken = succeeds (do {
     let c = make_cpu\<lparr>regs := (regs make_cpu)[1 := 99]\<rparr>;
     c \<leftarrow> cpu_store_unwrap c ram_start 4 0x00009463;
     (_, next_pc) \<leftarrow> compile_and_call c ram_start;
     Some (next_pc = ram_start + 8)
   })"

definition jit_branch_not_taken :: bool where
  "jit_branch_not_taken = succeeds (do {
     let c = make_cpu\<lparr>regs := (regs make_cpu)[1 := 0]\<rparr>;
     c \<leftarrow> cpu_store_unwrap c ram_start 4 0x00009463;
     (_, next_pc) \<leftarrow> compile_and_call c ram_start;
     Some (next_pc = ram_start + 4)
   })"

definition jit_jal :: bool where
  "jit_jal = succeeds (do {
     c \<leftarrow> cpu_store_unwrap make_cpu ram_start 4 0x008000EF;
     (c, next_pc) \<leftarrow> compile_and_call c ram_start;
     Some (next_pc = ram_start + 8 \<and> regs c ! 1 = ram_start + 4)
   })"

definition rvc_caddi :: bool where
  "rvc_caddi = succeeds (do {
     let c = make_cpu\<lparr>regs := (regs make_cpu)[1 := 41]\<rparr>;
     c \<leftarrow> cpu_store_unwrap c ram_start 2 0x0085;
     c \<leftarrow> cpu_store_unwrap c (ram_start + 2) 4 0x00000073;
     (c, next_pc) \<leftarrow> compile_and_call c ram_start;
     Some (regs c ! 1 = 42 \<and> next_pc = ram_start + 2)
   })"

definition rvc_cli_negative :: bool where
  "rvc_cli_negative = succeeds (do {
     let c = make_cpu\<lparr>regs := (regs make_cpu)[1 := 0]\<rparr>;
     c \<leftarrow> cpu_store_unwrap c ram_start 2 0x50FD;
     c \<leftarrow> cpu_store_unwrap c (ram_start + 2) 4 0x00000073;
     (c, next_pc) \<leftarrow> compile_and_call c ram_start;
     Some (regs c ! 1 = u64_MAX)
   })"

definition rvc_cmv :: bool where
  "rvc_cmv = succeeds (do {
     let c = make_cpu\<lparr>regs := (regs make_cpu)[1 := 0, 2 := 42]\<rparr>;
     c \<leftarrow> cpu_store_unwrap c ram_start 2 0x808A;
     c \<leftarrow> cpu_store_unwrap c (ram_start + 2) 4 0x00000073;
     (c, next_pc) \<leftarrow> compile_and_call c ram_start;
     Some (regs c ! 1 = 42 \<and> next_pc = ram_start + 2)
   })"

definition cbeqz :: "u64 \<Rightarrow> (cpu \<times> u64) option" where
  "cbeqz x8 = do {
     let c = make_cpu\<lparr>regs := (regs make_cpu)[8 := x8]\<rparr>;
     c \<leftarrow> cpu_store_unwrap c ram_start 2 0xC011;
     c \<leftarrow> cpu_store_unwrap c (ram_start + 2) 4 0x00000073;
     c \<leftarrow> cpu_store_unwrap c (ram_start + 4) 4 0x00000013;
     compile_and_call c ram_start
   }"

definition rvc_cbeqz_taken :: bool where
  "rvc_cbeqz_taken = succeeds (do { (_, next_pc) \<leftarrow> cbeqz 0; Some (next_pc = ram_start + 4) })"

definition rvc_cbeqz_not_taken :: bool where
  "rvc_cbeqz_not_taken = succeeds (do { (_, next_pc) \<leftarrow> cbeqz 1; Some (next_pc = ram_start + 2) })"

definition rvc_ldsp_sdsp_roundtrip :: bool where
  "rvc_ldsp_sdsp_roundtrip = succeeds (do {
     let c = make_cpu\<lparr>regs := (regs make_cpu)[1 := 0xCAFEBABE12345678, 2 := ram_start + 0x100, 3 := 0]\<rparr>;
     c \<leftarrow> cpu_store_unwrap c ram_start 2 0xE406;
     c \<leftarrow> cpu_store_unwrap c (ram_start + 2) 2 0x61A2;
     c \<leftarrow> cpu_store_unwrap c (ram_start + 4) 4 0x00000073;
     (c, next_pc) \<leftarrow> compile_and_call c ram_start;
     Some (regs c ! 3 = 0xCAFEBABE12345678 \<and> next_pc = ram_start + 4)
   })"

definition jit_slow_path :: bool where
  "jit_slow_path = succeeds (do {
     c \<leftarrow> cpu_store_unwrap make_cpu ram_start 4 0xF14020F3;
     (j, c) \<leftarrow> JitCache_compile JitCache_new c ram_start;
     Some (JitCache_get j ram_start = None)
   })"

section \<open>How a block of one or two instructions runs\<close>

text \<open>
  \<open>block_ends c gpc n g w d\<close>: the block compiled from \<open>gpc\<close> on, when the hart is \<open>c\<close> and \<open>n\<close>
  instructions are done, called on \<open>g\<close> ends with the value \<open>w\<close> and the hart \<open>d\<close>.
\<close>

definition block_ends :: "cpu \<Rightarrow> u64 \<Rightarrow> nat \<Rightarrow> cpu \<Rightarrow> u64 \<Rightarrow> cpu \<Rightarrow> bool" where
  "block_ends c gpc n g w d \<longleftrightarrow>
    (\<exists>code m. compile_loop c gpc n = Some (c, code, m) \<and> 0 < m \<and> sim code g (Leave w d))"

definition fetches :: "cpu \<Rightarrow> u64 \<Rightarrow> u32 \<Rightarrow> bool" where
  "fetches c gpc raw \<longleftrightarrow> compile_fetch c gpc = Some (c, Some raw)"

text \<open>The compiler's view of the bits: an instruction, its effect, its size.\<close>

definition compiles :: "nat \<Rightarrow> u64 \<Rightarrow> u32 \<Rightarrow> instruction \<Rightarrow> rvc_effect \<Rightarrow> bool" where
  "compiles n gpc raw i eff \<longleftrightarrow> map_option (fst \<circ> snd) (emit_raw (2 * n) gpc raw) = Some eff \<and>
     eff \<noteq> Unhandled \<and> decode_raw raw = Ok i \<and> \<not> hint_raw raw"

lemma compilesE:
  assumes "compiles n gpc raw i eff" "length (regs g) = 32" "regs g ! 0 = 0"
  obtains ins where "emit_raw (2 * n) gpc raw = Some (ins, eff, raw_size raw)"
    "sim ins g (jit_end gpc (gpc + raw_size raw) g i)"
proof -
  obtain ins sz where e: "emit_raw (2 * n) gpc raw = Some (ins, eff, sz)"
    using assms(1) by (auto simp: compiles_def)
  then show thesis
    using emit_raw_sound [OF e _ assms(2,3)] assms(1) that [of ins] by (auto simp: compiles_def)
qed

lemma block_ends_Seq:
  assumes "fetches c gpc raw" "compiles n gpc raw i Seq" "length (regs g) = 32" "regs g ! 0 = 0" "n < 127"
    and "jit_end gpc (gpc + raw_size raw) g i = Pass g'" "block_ends c (gpc + raw_size raw) (n + 1) g' w d"
  shows "block_ends c gpc n g w d"
proof -
  obtain ins where ins: "emit_raw (2 * n) gpc raw = Some (ins, Seq, raw_size raw)" "sim ins g (Pass g')"
    using compilesE [OF assms(2-4)] assms(6) by metis
  obtain code m where l: "compile_loop c (gpc + raw_size raw) (n + 1) = Some (c, code, m)" "0 < m"
    "sim code g' (Leave w d)"
    using assms(7) by (auto simp: block_ends_def)
  have "compile_loop c gpc n = Some (c, ins @ code, m)"
    using assms(1,5) ins(1) l(1) by (subst compile_loop.simps) (simp add: fetches_def emit_then_def)
  then show ?thesis
    unfolding block_ends_def using l(2) sim_append_Pass [OF ins(2) l(3)] by blast
qed

lemma block_ends_fault:
  assumes "fetches c gpc raw" "compiles n gpc raw i Seq" "length (regs g) = 32" "regs g ! 0 = 0" "n < 127"
    and "jit_end gpc (gpc + raw_size raw) g i = Leave w d" "block_ends c (gpc + raw_size raw) (n + 1) g w' d'"
  shows "block_ends c gpc n g w d"
proof -
  obtain ins where ins: "emit_raw (2 * n) gpc raw = Some (ins, Seq, raw_size raw)" "sim ins g (Leave w d)"
    using compilesE [OF assms(2-4)] assms(6) by metis
  obtain code m where l: "compile_loop c (gpc + raw_size raw) (n + 1) = Some (c, code, m)" "0 < m"
    using assms(7) by (auto simp: block_ends_def)
  have "compile_loop c gpc n = Some (c, ins @ code, m)"
    using assms(1,5) ins(1) l(1) by (subst compile_loop.simps) (simp add: fetches_def emit_then_def)
  then show ?thesis
    unfolding block_ends_def using l(2) sim_append_Leave [OF ins(2)] by blast
qed

lemma block_ends_Terminal:
  assumes "fetches c gpc raw" "compiles n gpc raw i Terminal" "length (regs g) = 32" "regs g ! 0 = 0"
    and "jit_end gpc (gpc + raw_size raw) g i = Leave w d"
  shows "block_ends c gpc n g w d"
proof -
  obtain ins where ins: "emit_raw (2 * n) gpc raw = Some (ins, Terminal, raw_size raw)" "sim ins g (Leave w d)"
    using compilesE [OF assms(2-4)] assms(5) by metis
  have "compile_loop c gpc n = Some (c, ins, n + 1)"
    using assms(1) ins(1) by (subst compile_loop.simps) (simp add: fetches_def)
  then show ?thesis
    unfolding block_ends_def using ins(2) by auto
qed

lemma block_ends_stop:
  assumes "fetches c gpc raw" "map_option (fst \<circ> snd) (emit_raw (2 * n) gpc raw) = Some Unhandled" "0 < n"
  shows "block_ends c gpc n g gpc g"
proof -
  have "compile_loop c gpc n = Some (c, emit_return gpc, n)"
    using assms by (subst compile_loop.simps) (auto simp: fetches_def block_exit_def)
  then show ?thesis
    unfolding block_ends_def using assms(3) emit_return_leaves by blast
qed

lemma compile_and_call_ends:
  assumes "block_ends c start 0 c w d" "fetches c start raw"
  shows "compile_and_call c start = Some (d, w)"
proof -
  obtain code m where l: "compile_loop c start 0 = Some (c, code, m)" "0 < m" "sim code c (Leave w d)"
    using assms(1) by (auto simp: block_ends_def)
  obtain s where s: "run (emit_prologue @ code) (call_state c) = run code s" "in_block (Vsaved R14, Vsaved R15) c s"
    using emit_prologue_run by blast
  obtain s' where "run code s = Returned (Vint w) s'" "exited (Vsaved R14, Vsaved R15) d s'"
    using sim_LeaveD [OF l(3) s(2), of "[]"] by auto
  then show ?thesis
    using assms(2) l(1,2) s(1)
    by (simp add: compile_and_call_def JitCache_compile_def JitCache_new_def JitCache_get_def fetches_def
        call_block_def exited_def)
qed

lemma fetches_ram:
  "\<not> paged (satp (csr c)) (mode c) \<Longrightarrow> ram_mapped (bus c) gpc 4 \<Longrightarrow> raw = ucast (ram_rd (bus c) gpc 4) \<Longrightarrow>
    fetches c gpc raw"
  by (simp add: fetches_def compile_fetch_def Cpu_translate_bare Cpu_load_ram)

text \<open>An instruction that falls through, then one that stops the block; or one that ends it.\<close>

lemma call_one_then_stop:
  assumes "fetches c start raw" "compiles 0 start raw i Seq" "fetches c (start + raw_size raw) stop"
    and "map_option (fst \<circ> snd) (emit_raw 2 (start + raw_size raw) stop) = Some Unhandled"
    and "length (regs c) = 32" "regs c ! 0 = 0" "jit_end start (start + raw_size raw) c i = Pass d"
  shows "compile_and_call c start = Some (d, start + raw_size raw)"
  using assms(4) block_ends_Seq [OF assms(1,2,5,6) _ assms(7)] block_ends_stop [OF assms(3), where n = 1]
  by (intro compile_and_call_ends [OF _ assms(1)]) simp

lemma call_two_then_stop:
  assumes "fetches c start raw" "compiles 0 start raw i Seq" "mid = start + raw_size raw"
    and "fetches c mid raw'" "compiles 1 mid raw' i' Seq" "stop_pc = mid + raw_size raw'"
    and "fetches c stop_pc stop" "map_option (fst \<circ> snd) (emit_raw 4 stop_pc stop) = Some Unhandled"
    and "length (regs c) = 32" "regs c ! 0 = 0" "length (regs c1) = 32" "regs c1 ! 0 = 0"
    and "jit_end start mid c i = Pass c1" "jit_end mid stop_pc c1 i' = Pass d"
  shows "compile_and_call c start = Some (d, stop_pc)"
proof -
  have "block_ends c stop_pc 2 d stop_pc d"
    using block_ends_stop [OF assms(7), where n = 2] assms(8) by simp
  then have "block_ends c mid 1 c1 stop_pc d"
    using block_ends_Seq [OF assms(4,5,11,12)] assms(6,14) by (simp add: numeral_2_eq_2)
  then have "block_ends c start 0 c stop_pc d"
    using block_ends_Seq [OF assms(1,2,9,10)] assms(3,13) by simp
  then show ?thesis by (rule compile_and_call_ends [OF _ assms(1)])
qed

lemma call_fault:
  assumes "fetches c start raw" "compiles 0 start raw i Seq" "fetches c (start + raw_size raw) stop"
    and "map_option (fst \<circ> snd) (emit_raw 2 (start + raw_size raw) stop) = Some Unhandled"
    and "length (regs c) = 32" "regs c ! 0 = 0" "jit_end start (start + raw_size raw) c i = Leave w d"
  shows "compile_and_call c start = Some (d, w)"
proof -
  have "block_ends c (start + raw_size raw) 1 c (start + raw_size raw) c"
    using block_ends_stop [OF assms(3), where n = 1] assms(4) by simp
  then have "block_ends c start 0 c w d"
    using block_ends_fault [OF assms(1,2,5,6) _ assms(7)] by simp
  then show ?thesis by (rule compile_and_call_ends [OF _ assms(1)])
qed

lemma call_terminal:
  assumes "fetches c start raw" "compiles 0 start raw i Terminal" "length (regs c) = 32" "regs c ! 0 = 0"
    and "jit_end start (start + raw_size raw) c i = Leave w d"
  shows "compile_and_call c start = Some (d, w)"
  by (rule compile_and_call_ends [OF block_ends_Terminal [OF assms] assms(1)])

lemma ecall_stops: "map_option (fst \<circ> snd) (emit_raw n gpc 0x73) = Some Unhandled"
  "map_option (fst \<circ> snd) (emit_raw n gpc 0) = Some Unhandled"
proof -
  have "decode 0x73 = Ok Ecall" by code_simp
  then show "map_option (fst \<circ> snd) (emit_raw n gpc 0x73) = Some Unhandled" by (simp add: emit_raw_def)
qed (simp add: emit_raw_def emit_rvc_def emit_rvc_q0_def)

lemma compiled:
  "compiles 0 ram_start 0x02A00093 (IType Addi 1 0 42) Seq"
  "compiles 0 ram_start 0x002081B3 (RType Add 3 1 2) Seq"
  "compiles 0 ram_start 0x000010B7 (Lui 1 0x1000) Seq"
  "compiles 0 ram_start 0x022081B3 (MType Mul 3 1 2) Seq"
  "compiles 0 ram_start 0x0220C1B3 (MType Div 3 1 2) Seq"
  "compiles 0 ram_start 0x0220E1B3 (MType Rem 3 1 2) Seq"
  "compiles 0 ram_start 0x00112023 (Store Sw 2 1 0) Seq"
  "compiles 1 0x80000004 0x00012183 (Load Lw 3 2 0) Seq"
  "compiles 0 ram_start 0x0000A103 (Load Lw 2 1 0) Seq"
  "compiles 0 ram_start 0x00009463 (Branch Bne 1 0 8) Terminal"
  "compiles 0 ram_start 0x008000EF (Jal 1 8) Terminal"
  "compiles 0 ram_start 0x00730085 (IType Addi 1 1 1) Seq"
  "compiles 0 ram_start 0x007350FD (IType Addi 1 0 (- 1)) Seq"
  "compiles 0 ram_start 0x0073808A (RType Add 1 0 2) Seq"
  "compiles 0 ram_start 0x0073C011 (Branch Beq 8 0 4) Terminal"
  "compiles 0 ram_start 0x61A2E406 (Store Sd 2 1 8) Seq"
  "compiles 1 0x80000002 0x007361A2 (Load Ld 3 2 8) Seq"
  by code_simp+

lemma make_cpu_fields [simp]:
  "bus make_cpu = Bus_new 4096 0x80000000" "mode make_cpu = PrivMode_M" "regs make_cpu = replicate 32 0"
  by (simp_all add: make_cpu_def Cpu_new_def)

lemma fetches_M:
  "mode c = PrivMode_M \<Longrightarrow> ram_mapped (bus c) gpc 4 \<Longrightarrow> ram_rd (bus c) gpc 4 = ucast raw \<Longrightarrow> fetches c gpc raw"
  by (rule fetches_ram) (auto simp: paged_def intro!: bit_word_eqI simp: bit_simps)

definition left_by :: "u64 \<Rightarrow> block_end \<Rightarrow> (cpu \<times> u64) option" where
  "left_by nxt e = (case e of Pass d \<Rightarrow> Some (d, nxt) | Leave w d \<Rightarrow> Some (d, w) | Hang \<Rightarrow> None)"

lemma call_seq:
  assumes "compiles 0 ram_start raw i Seq"
    and "map_option (fst \<circ> snd) (emit_raw 2 (ram_start + raw_size raw) stop) = Some Unhandled"
    and "mode c = PrivMode_M" "ram_mapped (bus c) ram_start 4" "ram_rd (bus c) ram_start 4 = ucast raw"
    and "ram_mapped (bus c) (ram_start + raw_size raw) 4" "ram_rd (bus c) (ram_start + raw_size raw) 4 = ucast stop"
    and "length (regs c) = 32" "regs c ! 0 = 0" "jit_end ram_start (ram_start + raw_size raw) c i \<noteq> Hang"
  shows "compile_and_call c ram_start =
    left_by (ram_start + raw_size raw) (jit_end ram_start (ram_start + raw_size raw) c i)"
proof -
  note f = fetches_M [OF assms(3-5)] fetches_M [OF assms(3,6,7)]
  show ?thesis
    using assms(10) call_one_then_stop [OF f(1) assms(1) f(2) assms(2,8,9)] call_fault [OF f(1) assms(1) f(2) assms(2,8,9)]
    by (cases "jit_end ram_start (ram_start + raw_size raw) c i") (simp_all add: left_by_def)
qed

lemma call_branch:
  assumes "compiles 0 ram_start raw i Terminal" "mode c = PrivMode_M" "ram_mapped (bus c) ram_start 4" "ram_rd (bus c) ram_start 4 = ucast raw"
    and "length (regs c) = 32" "regs c ! 0 = 0" "jit_end ram_start (ram_start + raw_size raw) c i = Leave w d"
  shows "compile_and_call c ram_start = Some (d, w)"
  by (rule call_terminal [OF fetches_M [OF assms(2-4)] assms(1,5-7)])

lemma rd_new: "ram_mapped (Bus_new sz base) a n \<Longrightarrow> n \<in> {1, 2, 4, 8} \<Longrightarrow> ram_rd (Bus_new sz base) a n = 0"
proof -
  assume m: "ram_mapped (Bus_new sz base) a n" "n \<in> {1, 2, 4, 8}"
  have "ram_peek (Bus_new sz base) (a + of_nat i) = 0" if "i < n" for i
    using ram_mapped_byte [OF m(1) _ that] m(2) by (auto simp: ram_peek_def ram_mapped_def in_ram_def Bus_new_def)
  then have "map (\<lambda>i. ram_peek (Bus_new sz base) (a + of_nat i)) [0..<n] = replicate n 0"
    by (intro nth_equalityI) simp_all
  moreover have "from_le_bytes (replicate n 0) = 0" for n
    by (induction n) simp_all
  ultimately show ?thesis by (simp add: ram_rd_bytes [OF m])
qed

lemmas calls = call_seq [OF compiled(1) ecall_stops(1), unfolded raw_size_def, simplified]
  call_seq [OF compiled(2) ecall_stops(1), unfolded raw_size_def, simplified]
  call_seq [OF compiled(3) ecall_stops(1), unfolded raw_size_def, simplified]
  call_seq [OF compiled(4) ecall_stops(1), unfolded raw_size_def, simplified]
  call_seq [OF compiled(5) ecall_stops(1), unfolded raw_size_def, simplified]
  call_seq [OF compiled(6) ecall_stops(1), unfolded raw_size_def, simplified]
  call_seq [OF compiled(9) ecall_stops(2), unfolded raw_size_def, simplified]
  call_seq [OF compiled(12) ecall_stops(1), unfolded raw_size_def, simplified]
  call_seq [OF compiled(13) ecall_stops(1), unfolded raw_size_def, simplified]
  call_seq [OF compiled(14) ecall_stops(1), unfolded raw_size_def, simplified]
lemmas branches = call_branch [OF compiled(10), unfolded raw_size_def, simplified]
  call_branch [OF compiled(11), unfolded raw_size_def, simplified]
  call_branch [OF compiled(15), unfolded raw_size_def, simplified]

lemma call_seq_2:
  assumes "compiles 0 ram_start raw i Seq" "mid = ram_start + raw_size raw" "compiles 1 mid raw' i' Seq" "stop_pc = mid + raw_size raw'"
    and "mode c = PrivMode_M" "ram_mapped (bus c) ram_start 4" "ram_rd (bus c) ram_start 4 = ucast raw"
    and "ram_mapped (bus c) mid 4" "ram_rd (bus c) mid 4 = ucast raw'"
    and "ram_mapped (bus c) stop_pc 4" "ram_rd (bus c) stop_pc 4 = 0x73"
    and "length (regs c) = 32" "regs c ! 0 = 0" "length (regs c1) = 32" "regs c1 ! 0 = 0"
    and "jit_end ram_start mid c i = Pass c1" "jit_end mid stop_pc c1 i' = Pass d"
  shows "compile_and_call c ram_start = Some (d, stop_pc)"
  by (rule call_two_then_stop [OF fetches_M [OF assms(5-7)] assms(1,2) fetches_M [OF assms(5,8,9)] assms(3,4)
     fetches_M [OF assms(5,10)] ecall_stops(1) assms(12-17)]) (simp add: assms(11))

lemma jit_load_unmapped:
  "mode c = PrivMode_M \<Longrightarrow> bus_wf (bus c) \<Longrightarrow> \<not> device_addr a \<Longrightarrow> \<not> in_ram (bus c) a n \<Longrightarrow> n \<le> 8 \<Longrightarrow>
    jit_load n c a = Some (c, u64_MAX)"
  by (simp add: jit_load_def Cpu_translate_bare paged_def Cpu_load_def Bus_fault(1))

lemma jit_load_mapped:
  "mode c = PrivMode_M \<Longrightarrow> ram_mapped (bus c) a n \<Longrightarrow> n \<in> {1, 2, 4, 8} \<Longrightarrow> jit_load n c a = Some (c, ram_rd (bus c) a n)"
  by (simp add: jit_load_def Cpu_translate_bare paged_def Cpu_load_ram)

lemma jit_store_mapped:
  "mode c = PrivMode_M \<Longrightarrow> ram_mapped (bus c) a n \<Longrightarrow> n \<in> {1, 2, 4, 8} \<Longrightarrow>
    jit_store n c a v = Some (c\<lparr>bus := ram_wr (bus c) a n v\<rparr>, 0)"
  by (simp add: jit_store_def Cpu_translate_bare paged_def Cpu_store_ram)

lemma bus_wf_wr: "ram_mapped b a n \<Longrightarrow> n \<in> {1, 2, 4, 8} \<Longrightarrow> bus_wf (ram_wr b a n v)"
  using ram_mapped_wr [of b a n v a n] by (simp add: ram_mapped_def)

lemma not_in_ram: "ram_mapped b a n \<Longrightarrow> n \<in> {1, 2, 4, 8} \<Longrightarrow> in_ram (ram_wr b a n v) b' k = in_ram b b' k"
  using ram_mapped_wr [of b a n v b' k] bus_wf_wr [of b a n v] by (simp add: ram_mapped_def)

lemma new_bus: "bus_wf (Bus_new 4096 0x80000000)" "in_ram (Bus_new sz base) a n \<longleftrightarrow> base \<le> a \<and> unat (a - base) + n \<le> sz"
  by (simp_all add: bus_wf_def in_ram_def Bus_new_def plic_wf_new)

lemmas jit_tests = cpu_store_unwrap_ram ram_tests rd_new ram.rd_halves [where n = 2, simplified]
  left_by_def with_reg_def

section \<open>They pass\<close>

lemma jit_cache_tests: "jit_cache_new_is_empty" "jit_cache_invalidate_clears_all"
  by (simp_all add: jit_cache_new_is_empty_def jit_cache_invalidate_clears_all_def JitCache_new_def JitCache_get_def JitCache_invalidate_def)

lemma callout_tests:
  "callout_store_then_load_roundtrip" "callout_load_fault_returns_sentinel" "callout_store_fault_returns_sentinel"
proof -
  show "callout_store_then_load_roundtrip"
    by (simp add: callout_store_then_load_roundtrip_def jit_store_def jit_load_def make_cpu_def cpu_tests)
  show "callout_load_fault_returns_sentinel" "callout_store_fault_returns_sentinel"
    by (simp_all add: callout_load_fault_returns_sentinel_def callout_store_fault_returns_sentinel_def
        jit_store_def jit_load_def make_cpu_def cpu_tests Cpu_load_def Cpu_store_def
        Bus_load_def Bus_store_def Bus_offset_def checked_add_def Bus_new_def)
qed

lemma m_values:
  "m_value Mul 6 7 = 42" "m_value Div 84 2 = 42" "m_value Div 42 0 = u64_MAX"
  "m_value Div i64_MIN (- 1) = i64_MIN" "m_value Rem 99 0 = 99"
  by code_simp+

lemma reg_reg_tests:
  "jit_add" "jit_mul" "jit_div" "jit_div_by_zero" "jit_div_overflow" "jit_rem_div_by_zero"
  by (simp_all add: jit_reg_reg_def jit_add_def jit_mul_def jit_div_def jit_div_by_zero_def jit_div_overflow_def
      jit_rem_div_by_zero_def calls jit_tests m_values del: m_value.simps)

lemma one_instruction_tests: "jit_addi" "jit_lui" "rvc_caddi" "rvc_cli_negative" "rvc_cmv"
  by (simp_all add: jit_addi_def jit_lui_def rvc_caddi_def rvc_cli_negative_def rvc_cmv_def calls jit_tests)

lemma branch_tests:
  "jit_branch_taken" "jit_branch_not_taken" "jit_jal" "rvc_cbeqz_taken" "rvc_cbeqz_not_taken"
  by (simp_all add: jit_branch_taken_def jit_branch_not_taken_def jit_jal_def rvc_cbeqz_taken_def
      rvc_cbeqz_not_taken_def cbeqz_def branches jit_tests)

lemma memory_tests: "jit_load_store" "rvc_ldsp_sdsp_roundtrip" "jit_load_fault_returns_sentinel"
proof -
  show jit_load_store
    by (simp add: jit_load_store_def jit_tests, subst call_seq_2 [OF compiled(7) _ compiled(8) refl],
        simp_all add: raw_size_def jit_tests, simp_all add: store_end_def jit_store_mapped jit_tests,
        simp_all add: load_end_def jit_load_mapped jit_tests sext_def)
      (simp add: make_cpu_def Cpu_new_def)
  show rvc_ldsp_sdsp_roundtrip
    by (simp add: rvc_ldsp_sdsp_roundtrip_def jit_tests, subst call_seq_2 [OF compiled(16) _ compiled(17) refl],
        simp_all add: raw_size_def jit_tests, simp_all add: store_end_def jit_store_mapped jit_tests,
        simp_all add: load_end_def jit_load_mapped jit_tests)
      (simp add: make_cpu_def Cpu_new_def)
  show jit_load_fault_returns_sentinel
    by (simp add: jit_load_fault_returns_sentinel_def calls jit_tests load_end_def jit_load_unmapped bus_wf_wr
        not_in_ram device_addr_def new_bus)
qed

lemma slow_path_test: jit_slow_path
proof -
  have d: "map_option (fst \<circ> snd) (emit_raw 0 ram_start 0xF14020F3) = Some Unhandled" by code_simp
  let ?c = "make_cpu\<lparr>bus := ram_wr (Bus_new 4096 ram_start) ram_start 4 0xF14020F3\<rparr>"
  have "fetches ?c ram_start 0xF14020F3"
    by (rule fetches_M) (simp_all add: jit_tests)
  then show ?thesis
    using d by (auto simp: jit_slow_path_def jit_tests JitCache_compile_def fetches_def
        compile_loop.simps [of _ _ 0] JitCache_new_def JitCache_get_def)
qed

definition jit_unit_tests :: "bool list" where
  "jit_unit_tests = [
     jit_cache_new_is_empty, jit_cache_invalidate_clears_all, callout_store_then_load_roundtrip,
     callout_load_fault_returns_sentinel, callout_store_fault_returns_sentinel, jit_addi, jit_add,
     jit_lui, jit_mul, jit_div, jit_div_by_zero, jit_div_overflow, jit_rem_div_by_zero,
     jit_load_store, jit_load_fault_returns_sentinel, jit_branch_taken, jit_branch_not_taken,
     jit_jal, rvc_caddi, rvc_cli_negative, rvc_cmv, rvc_cbeqz_taken, rvc_cbeqz_not_taken,
     rvc_ldsp_sdsp_roundtrip, jit_slow_path]"


end
